theory Spec2Isabelle
  imports Main
begin

section \<open>Strings and regular expressions of \<^verbatim>\<open>create-new-plugin.ts\<close>\<close>

text \<open>
  A JavaScript string is modelled as a \<^typ>\<open>string\<close>, one \<^typ>\<open>char\<close> per code unit.
  Every string the functions below inspect with a regular expression is compared
  against ASCII letters, digits and the dash only, and a code unit outside ASCII
  never matches one of those (without the \<^verbatim>\<open>u\<close> flag the case-insensitive
  comparison does not map a code unit above 127 to one below 128).
\<close>

definition lowerAZ :: string where
  "lowerAZ = ''abcdefghijklmnopqrstuvwxyz''"

definition upperAZ :: string where
  "upperAZ = ''ABCDEFGHIJKLMNOPQRSTUVWXYZ''"

definition digits09 :: string where
  "digits09 = ''0123456789''"

definition isLowerAZ :: "char \<Rightarrow> bool" where
  "isLowerAZ c = (c \<in> set lowerAZ)"

definition isUpperAZ :: "char \<Rightarrow> bool" where
  "isUpperAZ c = (c \<in> set upperAZ)"

definition isDigit09 :: "char \<Rightarrow> bool" where
  "isDigit09 c = (c \<in> set digits09)"

definition isAlnum :: "char \<Rightarrow> bool" where
  "isAlnum c = (isLowerAZ c \<or> isUpperAZ c \<or> isDigit09 c)"

definition toUpperChar :: "char \<Rightarrow> char" where
  "toUpperChar c = (case map_of (zip lowerAZ upperAZ) c of Some u \<Rightarrow> u | None \<Rightarrow> c)"

definition toLowerChar :: "char \<Rightarrow> char" where
  "toLowerChar c = (case map_of (zip upperAZ lowerAZ) c of Some l \<Rightarrow> l | None \<Rightarrow> c)"

text \<open>
  The validation of the name prompt, \<^verbatim>\<open>/^[a-z][a-z-0-9]+$/.test(input)\<close>: a lower-case
  letter followed by at least one lower-case letter, dash or digit, up to the end of
  the input.
\<close>

definition nameChar :: "char \<Rightarrow> bool" where
  "nameChar c = (isLowerAZ c \<or> c = CHR ''-'' \<or> isDigit09 c)"

definition validName :: "string \<Rightarrow> bool" where
  "validName input =
     (case input of
        [] \<Rightarrow> False
      | c # r \<Rightarrow> isLowerAZ c \<and> r \<noteq> [] \<and> list_all nameChar r)"

text \<open>
  \<^verbatim>\<open>name.replace(/-?plugin$/i, '')\<close>. \<open>matchesCI\<close> compares two strings as the
  \<^verbatim>\<open>i\<close> flag does, \<open>pluginSuffixAt s\<close> says that \<^verbatim>\<open>-?plugin$\<close> matches at the start of
  \<open>s\<close> (the optional dash is tried first, then the match without it), and
  \<open>stripPluginSuffix\<close> tries the start positions from left to right and removes the
  first match, which reaches the end of the string.
\<close>

definition matchesCI :: "string \<Rightarrow> string \<Rightarrow> bool" where
  "matchesCI pat s = (map toUpperChar s = map toUpperChar pat)"

definition pluginSuffixAt :: "string \<Rightarrow> bool" where
  "pluginSuffixAt s =
     (case s of
        c # r \<Rightarrow> (c = CHR ''-'' \<and> matchesCI ''plugin'' r) \<or> matchesCI ''plugin'' s
      | [] \<Rightarrow> matchesCI ''plugin'' s)"

fun stripPluginSuffix :: "string \<Rightarrow> string" where
  "stripPluginSuffix [] = []"
| "stripPluginSuffix (c # r) =
     (if pluginSuffixAt (c # r) then [] else c # stripPluginSuffix r)"

text \<open>Lines 106 and 107 of \<^verbatim>\<open>generatePlugin\<close>: \<^verbatim>\<open>nameWithoutPlugin + '-plugin'\<close>.\<close>

definition normalizedName :: "string \<Rightarrow> string" where
  "normalizedName name = stripPluginSuffix name @ ''-plugin''"

section \<open>The case converter\<close>

text \<open>
  Modelled from the spec: the functions \<^verbatim>\<open>pascalCase\<close>, \<^verbatim>\<open>constantCase\<close> and
  \<^verbatim>\<open>paramCase\<close> are imported from the package \<^verbatim>\<open>change-case\<close>, which is not part of
  the sources. The specification (4.1) asks for kebab-case, PascalCase and
  CONSTANT_CASE projections by word-boundary segmentation: a word ends where a
  lower-case letter or digit is followed by an upper-case letter, where an upper-case
  letter is followed by an upper-case letter and a lower-case one, and at every run of
  characters that are neither letters nor digits. The model follows the package's own
  algorithm: the boundaries are marked with the character NUL, the marks at both ends
  are trimmed, the string is split at the marks, every word is transformed and the
  words are joined with the delimiter.
\<close>

definition NUL :: char where
  "NUL = CHR 0x00"

fun splitLowerUpper :: "string \<Rightarrow> string" where
  "splitLowerUpper (a # b # r) =
     (if (isLowerAZ a \<or> isDigit09 a) \<and> isUpperAZ b then a # NUL # b # splitLowerUpper r
      else a # splitLowerUpper (b # r))"
| "splitLowerUpper s = s"

fun splitUpperUpperLower :: "string \<Rightarrow> string" where
  "splitUpperUpperLower (a # b # c # r) =
     (if isUpperAZ a \<and> isUpperAZ b \<and> isLowerAZ c
      then a # NUL # b # c # splitUpperUpperLower r
      else a # splitUpperUpperLower (b # c # r))"
| "splitUpperUpperLower s = s"

function stripRuns :: "string \<Rightarrow> string" where
  "stripRuns [] = []"
| "stripRuns (c # r) =
     (if isAlnum c then c # stripRuns r
      else NUL # stripRuns (dropWhile (\<lambda>d. \<not> isAlnum d) r))"
  by pat_completeness auto
termination
  by (relation "measure length") (auto simp: length_dropWhile_le less_Suc_eq_le)

definition trimNUL :: "string \<Rightarrow> string" where
  "trimNUL s = rev (dropWhile (\<lambda>c. c = NUL) (rev (dropWhile (\<lambda>c. c = NUL) s)))"

text \<open>\<^verbatim>\<open>s.split(d)\<close> for a one-character separator, and \<^verbatim>\<open>ws.join(d)\<close>.\<close>

fun splitOn :: "char \<Rightarrow> string \<Rightarrow> string list" where
  "splitOn d [] = [[]]"
| "splitOn d (c # r) =
     (if c = d then [] # splitOn d r
      else (case splitOn d r of w # ws \<Rightarrow> (c # w) # ws | [] \<Rightarrow> [[c]]))"

fun joinWith :: "string \<Rightarrow> string list \<Rightarrow> string" where
  "joinWith d [] = []"
| "joinWith d [w] = w"
| "joinWith d (w # v # ws) = w @ d @ joinWith d (v # ws)"

text \<open>\<^verbatim>\<open>ws.map(transform)\<close>, which passes every element with its index.\<close>

fun mapIndexed :: "(string \<Rightarrow> nat \<Rightarrow> string) \<Rightarrow> nat \<Rightarrow> string list \<Rightarrow> string list" where
  "mapIndexed transform i [] = []"
| "mapIndexed transform i (w # ws) = transform w i # mapIndexed transform (Suc i) ws"

definition noCase :: "(string \<Rightarrow> nat \<Rightarrow> string) \<Rightarrow> string \<Rightarrow> string \<Rightarrow> string" where
  "noCase transform delimiter input =
     (let result = stripRuns (splitUpperUpperLower (splitLowerUpper input));
          tokens = splitOn NUL (trimNUL result)
      in joinWith delimiter (mapIndexed transform 0 tokens))"

definition lowerCase :: "string \<Rightarrow> nat \<Rightarrow> string" where
  "lowerCase w i = map toLowerChar w"

definition upperCase :: "string \<Rightarrow> nat \<Rightarrow> string" where
  "upperCase w i = map toUpperChar w"

definition pascalCaseTransform :: "string \<Rightarrow> nat \<Rightarrow> string" where
  "pascalCaseTransform w i =
     (case w of
        [] \<Rightarrow> []
      | c # r \<Rightarrow>
          if 0 < i \<and> isDigit09 c then CHR ''_'' # c # map toLowerChar r
          else toUpperChar c # map toLowerChar r)"

definition pascalCase :: "string \<Rightarrow> string" where
  "pascalCase input = noCase pascalCaseTransform [] input"

definition constantCase :: "string \<Rightarrow> string" where
  "constantCase input = noCase upperCase ''_'' input"

definition paramCase :: "string \<Rightarrow> string" where
  "paramCase input = noCase lowerCase ''-'' input"

section \<open>The template context\<close>

record generatePluginOptions =
  name :: string
  customEntityName :: string
  pluginDir :: string

record newPluginTemplateContext = generatePluginOptions +
  pluginName :: string
  pluginInitOptionsName :: string

text \<open>Lines 106 to 112 of \<^verbatim>\<open>generatePlugin\<close>.\<close>

definition templateContext :: "generatePluginOptions \<Rightarrow> newPluginTemplateContext" where
  "templateContext options =
     \<lparr> name = name options,
       customEntityName = customEntityName options,
       pluginDir = pluginDir options,
       pluginName = pascalCase (normalizedName (name options)),
       pluginInitOptionsName = constantCase (normalizedName (name options)) @ ''_OPTIONS'' \<rparr>"

section \<open>Paths\<close>

text \<open>
  \<^verbatim>\<open>path.join\<close> and \<^verbatim>\<open>path.normalize\<close> of Node.js for POSIX paths (\<^verbatim>\<open>path.sep\<close> is the
  slash): the segments between slashes are visited from left to right, empty segments
  and \<^verbatim>\<open>.\<close> are dropped, \<^verbatim>\<open>..\<close> removes the segment before it (above the start of a
  relative path it is kept), a leading and a trailing slash are preserved.
\<close>

fun normalizeString :: "bool \<Rightarrow> string list \<Rightarrow> string list \<Rightarrow> string list" where
  "normalizeString allowAboveRoot res [] = res"
| "normalizeString allowAboveRoot res (seg # segs) =
     (if seg = [] \<or> seg = ''.'' then normalizeString allowAboveRoot res segs
      else if seg = ''..'' then
        (if res \<noteq> [] \<and> last res \<noteq> ''..''
         then normalizeString allowAboveRoot (butlast res) segs
         else if allowAboveRoot then normalizeString allowAboveRoot (res @ [''..'']) segs
         else normalizeString allowAboveRoot res segs)
      else normalizeString allowAboveRoot (res @ [seg]) segs)"

definition path_normalize :: "string \<Rightarrow> string" where
  "path_normalize p =
     (if p = [] then ''.''
      else
        let isAbsolute = (hd p = CHR ''/'');
            trailingSeparator = (last p = CHR ''/'');
            q = joinWith ''/'' (normalizeString (\<not> isAbsolute) [] (splitOn CHR ''/'' p))
        in if q = [] then (if isAbsolute then ''/'' else if trailingSeparator then ''./'' else ''.'')
           else (if isAbsolute then ''/'' else []) @ q @ (if trailingSeparator then ''/'' else []))"

definition path_join :: "string list \<Rightarrow> string" where
  "path_join args =
     (let parts = filter (\<lambda>arg. arg \<noteq> []) args
      in if parts = [] then ''.'' else path_normalize (joinWith ''/'' parts))"

section \<open>The world: disk, in-memory project and console\<close>

text \<open>
  A source file is modelled by what the command reads and changes in its syntax tree:
  the names of its class declarations, its variable declarations (name and
  initializer text), its import declarations (named imports and module specifier)
  and, for a configuration file, the elements of the \<^verbatim>\<open>plugins\<close> array of the
  configuration object.
\<close>

record sourceFile =
  classDeclarations :: "string list"
  variableDeclarations :: "(string \<times> string) list"
  importDeclarations :: "(string list \<times> string) list"
  pluginsArray :: "string list option"

datatype fsEntry = Directory | File sourceFile

datatype event =
    Intro string
  | Outro string
  | CancelNote string
  | TextPrompt string string
  | ValidationNote string
  | SelectPrompt string
  | SpinnerStart string
  | SpinnerStop string
  | ProjectSaved

datatype error =
    Error string
  | TemplateUnreadable string
  | ConfigNotFound string
  | NotADirectory string
  | IsADirectory string

text \<open>
  \<open>cwd\<close> is \<^verbatim>\<open>process.cwd()\<close>, \<open>dirname\<close> is \<^verbatim>\<open>__dirname\<close>, \<open>configPath\<close> is the
  conventional location of the configuration file, \<open>disk\<close> is the file system,
  \<open>project\<close> holds the source files of the in-memory ts-morph project (a source file
  object is its position in the list), \<open>unsaved\<close> holds the source files that were
  created or changed since they were last written, and \<open>trace\<close> records what the
  command prints and when it has flushed the project, in order.
\<close>

record world =
  cwd :: string
  dirname :: string
  configPath :: string
  disk :: "string \<rightharpoonup> fsEntry"
  project :: "(string \<times> sourceFile) list"
  unsaved :: "nat set"
  trace :: "event list"

definition emit :: "event \<Rightarrow> world \<Rightarrow> world" where
  "emit e w = w\<lparr>trace := trace w @ [e]\<rparr>"

text \<open>\<^verbatim>\<open>fs.existsSync\<close> and \<^verbatim>\<open>fs.pathExistsSync\<close>.\<close>

definition existsSync :: "world \<Rightarrow> string \<Rightarrow> bool" where
  "existsSync w p = (disk w p \<noteq> None)"

subsection \<open>The operations of the project\<close>

text \<open>
  \<^verbatim>\<open>getTsMorphProject\<close> starts a project that holds no source file yet, since the
  command passes \<^verbatim>\<open>skipAddingFilesFromTsConfig\<close>.
\<close>

definition getTsMorphProject :: "world \<Rightarrow> world" where
  "getTsMorphProject w = w\<lparr>project := [], unsaved := {}\<rparr>"

text \<open>
  Modelled from the spec: \<^verbatim>\<open>createFile\<close> of \<^verbatim>\<open>utilities/ast-utils\<close> is not part of the
  sources. The specification (4.3, step 3) has it load a template source into the
  in-memory project model; a template that cannot be read is an error. The disk is
  only read, and the new source file has not been written yet.
\<close>

definition createFile :: "string \<Rightarrow> world \<Rightarrow> (error + nat) \<times> world" where
  "createFile templatePath w =
     (case disk w templatePath of
        Some (File src) \<Rightarrow>
          (Inr (length (project w)),
           w\<lparr>project := project w @ [(templatePath, src)],
             unsaved := insert (length (project w)) (unsaved w)\<rparr>)
      | _ \<Rightarrow> (Inl (TemplateUnreadable templatePath), w))"

definition updateFile :: "nat \<Rightarrow> (sourceFile \<Rightarrow> sourceFile) \<Rightarrow> world \<Rightarrow> world" where
  "updateFile file change w =
     (if file < length (project w)
      then w\<lparr>project := (project w)[file := (fst (project w ! file), change (snd (project w ! file)))],
             unsaved := insert file (unsaved w)\<rparr>
      else w)"

fun indexOf :: "'a \<Rightarrow> 'a list \<Rightarrow> nat option" where
  "indexOf x [] = None"
| "indexOf x (y # ys) = (if x = y then Some 0 else map_option Suc (indexOf x ys))"

text \<open>
  \<^verbatim>\<open>sourceFile.getClass(name)\<close> and \<^verbatim>\<open>sourceFile.getVariableDeclaration(name)\<close>: the
  first declaration of that name, as the pair of the file and the position in the
  file, or nothing (\<^verbatim>\<open>undefined\<close>).
\<close>

definition getClass :: "nat \<Rightarrow> string \<Rightarrow> world \<Rightarrow> (nat \<times> nat) option" where
  "getClass file className w =
     (if file < length (project w)
      then map_option (Pair file) (indexOf className (classDeclarations (snd (project w ! file))))
      else None)"

definition getVariableDeclaration :: "nat \<Rightarrow> string \<Rightarrow> world \<Rightarrow> (nat \<times> nat) option" where
  "getVariableDeclaration file varName w =
     (if file < length (project w)
      then map_option (Pair file)
             (indexOf varName (map fst (variableDeclarations (snd (project w ! file)))))
      else None)"

definition renameClass :: "nat \<times> nat \<Rightarrow> string \<Rightarrow> world \<Rightarrow> world" where
  "renameClass decl newName w =
     updateFile (fst decl)
       (\<lambda>f. f\<lparr>classDeclarations := (classDeclarations f)[snd decl := newName]\<rparr>) w"

definition renameVariable :: "nat \<times> nat \<Rightarrow> string \<Rightarrow> world \<Rightarrow> world" where
  "renameVariable decl newName w =
     updateFile (fst decl)
       (\<lambda>f. f\<lparr>variableDeclarations :=
                 (variableDeclarations f)[snd decl := (newName, snd (variableDeclarations f ! snd decl))]\<rparr>) w"

definition setInitializer :: "nat \<times> nat \<Rightarrow> string \<Rightarrow> world \<Rightarrow> world" where
  "setInitializer decl initializer w =
     updateFile (fst decl)
       (\<lambda>f. f\<lparr>variableDeclarations :=
                 (variableDeclarations f)[snd decl := (fst (variableDeclarations f ! snd decl), initializer)]\<rparr>) w"

text \<open>\<^verbatim>\<open>sourceFile.move(path)\<close> changes the path of the file in the project.\<close>

definition move :: "nat \<Rightarrow> string \<Rightarrow> world \<Rightarrow> world" where
  "move file newPath w =
     (if file < length (project w)
      then w\<lparr>project := (project w)[file := (newPath, snd (project w ! file))],
             unsaved := insert file (unsaved w)\<rparr>
      else w)"

text \<open>
  Writing a file. \<open>parentDirs p\<close> lists the directories above \<open>p\<close>, the nearest
  last. A path that holds a regular file is overwritten in place. A path that
  holds a directory cannot be written (\<^verbatim>\<open>EISDIR\<close>). A path that holds nothing is
  created together with the directories above it that are missing; this fails when
  one of them is a regular file (\<^verbatim>\<open>ENOTDIR\<close>).
\<close>

fun dirsOf :: "string \<Rightarrow> string \<Rightarrow> string list" where
  "dirsOf acc [] = []"
| "dirsOf acc (c # r) =
     (if c = CHR ''/'' \<and> acc \<noteq> [] then acc # dirsOf (acc @ [c]) r
      else dirsOf (acc @ [c]) r)"

definition parentDirs :: "string \<Rightarrow> string list" where
  "parentDirs p = dirsOf [] p"

definition isFile :: "fsEntry option \<Rightarrow> bool" where
  "isFile entry = (case entry of Some (File f) \<Rightarrow> True | _ \<Rightarrow> False)"

definition mkdirs :: "string list \<Rightarrow> (string \<rightharpoonup> fsEntry) \<Rightarrow> (string \<rightharpoonup> fsEntry)" where
  "mkdirs dirs d = (\<lambda>q. if q \<in> set dirs then Some Directory else d q)"

definition writeFile ::
  "string \<Rightarrow> sourceFile \<Rightarrow> (string \<rightharpoonup> fsEntry) \<Rightarrow> error + (string \<rightharpoonup> fsEntry)" where
  "writeFile p f d =
     (case d p of
        Some (File g) \<Rightarrow> Inr (d(p \<mapsto> File f))
      | Some Directory \<Rightarrow> Inl (IsADirectory p)
      | None \<Rightarrow>
          (case find (\<lambda>a. isFile (d a)) (parentDirs p) of
             Some a \<Rightarrow> Inl (NotADirectory a)
           | None \<Rightarrow> Inr ((mkdirs (parentDirs p) d)(p \<mapsto> File f))))"

text \<open>The files are written in turn; the first write that fails ends the flush.\<close>

fun writeFiles ::
  "(string \<times> sourceFile) list \<Rightarrow> (string \<rightharpoonup> fsEntry) \<Rightarrow> error option \<times> (string \<rightharpoonup> fsEntry)" where
  "writeFiles [] d = (None, d)"
| "writeFiles ((p, f) # files) d =
     (case writeFile p f d of
        Inl e \<Rightarrow> (Some e, d)
      | Inr d' \<Rightarrow> writeFiles files d')"

definition unsavedFiles :: "world \<Rightarrow> (string \<times> sourceFile) list" where
  "unsavedFiles w =
     map (\<lambda>i. project w ! i) (filter (\<lambda>i. i \<in> unsaved w) [0 ..< length (project w)])"

text \<open>
  \<^verbatim>\<open>project.save()\<close> is the only operation that writes: every unsaved source file of
  the project goes to the disk at its current path. It returns the error of the
  write that failed, if any; the promise is then rejected.
\<close>

definition save :: "world \<Rightarrow> error option \<times> world" where
  "save w =
     (case writeFiles (unsavedFiles w) (disk w) of
        (Some e, d') \<Rightarrow> (Some e, w\<lparr>disk := d'\<rparr>)
      | (None, d') \<Rightarrow> (None, emit ProjectSaved (w\<lparr>disk := d', unsaved := {}\<rparr>)))"

subsection \<open>Plugin and configuration references\<close>

text \<open>
  Modelled from the spec: the class \<^verbatim>\<open>VendurePluginRef\<close> is not part of the sources. The
  specification (3) has it wrap one class declaration, with a name that is read from
  the declaration and the file that owns it. The reference is only ever built from a
  declaration that \<^verbatim>\<open>getClass\<close> has found, so both positions are in range.
\<close>

datatype vendurePluginRef = VendurePluginRef (classDeclaration: "nat \<times> nat")

definition pluginRefName :: "vendurePluginRef \<Rightarrow> world \<Rightarrow> string" where
  "pluginRefName plugin w =
     classDeclarations (snd (project w ! fst (classDeclaration plugin))) ! snd (classDeclaration plugin)"

definition getSourceFile :: "vendurePluginRef \<Rightarrow> nat" where
  "getSourceFile plugin = fst (classDeclaration plugin)"

definition getFilePath :: "nat \<Rightarrow> world \<Rightarrow> string" where
  "getFilePath file w = fst (project w ! file)"

text \<open>
  Modelled from the spec: the class \<^verbatim>\<open>VendureConfigRef\<close> and the function
  \<^verbatim>\<open>addImportsToFile\<close> are not part of the sources. The specification (3, 4.4) has the
  reference wrap the single configuration file, found at its conventional place, with
  an operation that appends an entry to its plugins list; a configuration without the
  expected shape is a fatal error. The file comes from the disk, so it counts as
  saved until it is changed. \<^verbatim>\<open>addImportsToFile\<close> adds an import statement to a file.
\<close>

definition newVendureConfigRef :: "world \<Rightarrow> (error + nat) \<times> world" where
  "newVendureConfigRef w =
     (case disk w (configPath w) of
        Some (File src) \<Rightarrow>
          (case pluginsArray src of
             Some ps \<Rightarrow>
               (Inr (length (project w)), w\<lparr>project := project w @ [(configPath w, src)]\<rparr>)
           | None \<Rightarrow> (Inl (ConfigNotFound (configPath w)), w))
      | _ \<Rightarrow> (Inl (ConfigNotFound (configPath w)), w))"

definition addToPluginsArray :: "nat \<Rightarrow> string \<Rightarrow> world \<Rightarrow> world" where
  "addToPluginsArray vendureConfig expr w =
     updateFile vendureConfig
       (\<lambda>f. f\<lparr>pluginsArray := map_option (\<lambda>ps. ps @ [expr]) (pluginsArray f)\<rparr>) w"

definition addImportsToFile :: "nat \<Rightarrow> string \<Rightarrow> string list \<Rightarrow> world \<Rightarrow> world" where
  "addImportsToFile file moduleSpecifier namedImports w =
     updateFile file
       (\<lambda>f. f\<lparr>importDeclarations := importDeclarations f @ [(namedImports, moduleSpecifier)]\<rparr>) w"

section \<open>Prompts\<close>

text \<open>
  The user is modelled by the answers given at each kind of prompt, in order. An
  answer is a submitted value or the cancellation of the prompt (\<^verbatim>\<open>isCancel\<close>). A
  prompt that finds no answer left never resolves.
\<close>

datatype 'a answer = Cancel | Submit 'a

datatype featureType = No | Entity | Service | UiExtensions | Codegen

record userInput =
  nameAnswers :: "string answer list"
  locationAnswers :: "string answer list"
  featureAnswers :: "featureType answer list"

text \<open>
  \<^verbatim>\<open>text({message, initialValue, validate})\<close> of \<^verbatim>\<open>@clack/prompts\<close>: a submitted value for
  which \<^verbatim>\<open>validate\<close> returns a message is rejected with that message and the prompt
  stays open; the prompt resolves with the first accepted value, or with the
  cancellation.
\<close>

fun textLoop ::
  "(string \<Rightarrow> string option) \<Rightarrow> string answer list \<Rightarrow> world \<Rightarrow> string answer option \<times> world" where
  "textLoop validate [] w = (None, w)"
| "textLoop validate (Cancel # rest) w = (Some Cancel, w)"
| "textLoop validate (Submit input # rest) w =
     (case validate input of
        Some problem \<Rightarrow> textLoop validate rest (emit (ValidationNote problem) w)
      | None \<Rightarrow> (Some (Submit input), w))"

definition textPrompt ::
  "string \<Rightarrow> string \<Rightarrow> (string \<Rightarrow> string option) \<Rightarrow> string answer list \<Rightarrow> world
     \<Rightarrow> string answer option \<times> world" where
  "textPrompt message initialValue validate answers w =
     textLoop validate answers (emit (TextPrompt message initialValue) w)"

section \<open>The command\<close>

definition cancelledMessage :: string where
  "cancelledMessage = ''Plugin setup cancelled.''"

datatype outcome = Exit nat | Completed | Uncaught error | AwaitingInput

definition validateName :: "string \<Rightarrow> string option" where
  "validateName input =
     (if \<not> validName input
      then Some ''The plugin name must be lowercase and contain only letters, numbers and dashes''
      else None)"

definition validateLocation :: "world \<Rightarrow> string \<Rightarrow> string option" where
  "validateLocation w input =
     (if existsSync w input
      then Some (''A directory named '' @ [CHR 0x22] @ input @ [CHR 0x22]
                 @ '' already exists. Please specify a different directory.'')
      else None)"

text \<open>\<^verbatim>\<open>getPluginDirName\<close>, lines 146 to 160.\<close>

definition getPluginDirName :: "world \<Rightarrow> string \<Rightarrow> string" where
  "getPluginDirName w name' =
     (let pathParts = splitOn CHR ''/'' (cwd w);
          currentlyInPluginsDir = (last pathParts = ''plugins'');
          currentlyInRootDir = existsSync w (path_join [cwd w, ''package.json'']);
          nameWithoutPlugin = stripPluginSuffix name'
      in if currentlyInPluginsDir then path_join [cwd w, paramCase nameWithoutPlugin]
         else if currentlyInRootDir
           then path_join [cwd w, ''src'', ''plugins'', paramCase nameWithoutPlugin]
         else path_join [cwd w, paramCase nameWithoutPlugin])"

text \<open>The three paths the files are moved to, lines 137 to 139.\<close>

definition typesFilePath :: "generatePluginOptions \<Rightarrow> string" where
  "typesFilePath options = path_join [pluginDir options, ''types.ts'']"

definition pluginFilePath :: "generatePluginOptions \<Rightarrow> string" where
  "pluginFilePath options =
     path_join [pluginDir options, paramCase (stripPluginSuffix (name options)) @ ''.plugin.ts'']"

definition constantsFilePath :: "generatePluginOptions \<Rightarrow> string" where
  "constantsFilePath options = path_join [pluginDir options, ''constants.ts'']"

text \<open>Lines 129 to 135: both declarations are reached through \<^verbatim>\<open>?.\<close>.\<close>

definition setOptionsSymbol :: "nat \<Rightarrow> newPluginTemplateContext \<Rightarrow> world \<Rightarrow> world" where
  "setOptionsSymbol constantsFile ctx w =
     (case getVariableDeclaration constantsFile ''TEMPLATE_PLUGIN_OPTIONS'' w of
        None \<Rightarrow> w
      | Some decl \<Rightarrow>
          setInitializer decl
            (''Symbol('' @ [CHR 0x27] @ pluginInitOptionsName ctx @ [CHR 0x27] @ '')'')
            (renameVariable decl (pluginInitOptionsName ctx) w))"

definition setLoggerCtx :: "nat \<Rightarrow> newPluginTemplateContext \<Rightarrow> world \<Rightarrow> world" where
  "setLoggerCtx constantsFile ctx w =
     (case getVariableDeclaration constantsFile ''loggerCtx'' w of
        None \<Rightarrow> w
      | Some decl \<Rightarrow> setInitializer decl ([CHR 0x27] @ pluginName ctx @ [CHR 0x27]) w)"

text \<open>\<^verbatim>\<open>generatePlugin\<close>, lines 105 to 144. A thrown error is the left summand.\<close>

definition generatePlugin ::
  "generatePluginOptions \<Rightarrow> world \<Rightarrow> (error + vendurePluginRef) \<times> world" where
  "generatePlugin options w =
     (let ctx = templateContext options;
          w1 = emit (SpinnerStart ''Generating plugin scaffold...'') w;
          w2 = getTsMorphProject w1
      in case createFile (path_join [dirname w2, ''templates/plugin.template.ts'']) w2 of
           (Inl e, w3) \<Rightarrow> (Inl e, w3)
         | (Inr pluginFile, w3) \<Rightarrow>
             (case getClass pluginFile ''TemplatePlugin'' w3 of
                None \<Rightarrow> (Inl (Error ''Could not find the plugin class in the generated file''), w3)
              | Some pluginClass \<Rightarrow>
                  (let w4 = renameClass pluginClass (pluginName ctx) w3
                   in case createFile (path_join [dirname w4, ''templates/types.template.ts'']) w4 of
                        (Inl e, w5) \<Rightarrow> (Inl e, w5)
                      | (Inr typesFile, w5) \<Rightarrow>
                          (case createFile
                                  (path_join [dirname w5, ''templates/constants.template.ts'']) w5 of
                             (Inl e, w6) \<Rightarrow> (Inl e, w6)
                           | (Inr constantsFile, w6) \<Rightarrow>
                               (let w7 = setOptionsSymbol constantsFile ctx w6;
                                    w8 = setLoggerCtx constantsFile ctx w7;
                                    w9 = move typesFile (typesFilePath options) w8;
                                    w10 = move pluginFile (pluginFilePath options) w9;
                                    w11 = move constantsFile (constantsFilePath options) w10;
                                    w12 = emit (SpinnerStop ''Generated plugin scaffold'') w11
                                in case save w12 of
                                     (Some e, w13) \<Rightarrow> (Inl e, w13)
                                   | (None, w13) \<Rightarrow>
                                       (Inr (VendurePluginRef pluginClass), w13))))))"

text \<open>Lines 59 to 69 of \<^verbatim>\<open>createNewPlugin\<close>: the plugin is registered in the configuration.\<close>

definition updateVendureConfig :: "vendurePluginRef \<Rightarrow> world \<Rightarrow> error option \<times> world" where
  "updateVendureConfig plugin w =
     (let w1 = emit (SpinnerStart ''Updating VendureConfig...'') w
      in case newVendureConfigRef w1 of
           (Inl e, w2) \<Rightarrow> (Some e, w2)
         | (Inr vendureConfig, w2) \<Rightarrow>
             (let w3 = addToPluginsArray vendureConfig (pluginRefName plugin w2 @ ''.init({})'') w2;
                  w4 = addImportsToFile vendureConfig
                         (getFilePath (getSourceFile plugin) w3) [pluginRefName plugin w3] w3
              in case save w4 of
                   (Some e, w5) \<Rightarrow> (Some e, w5)
                 | (None, w5) \<Rightarrow> (None, emit (SpinnerStop ''Updated VendureConfig'') w5)))"

text \<open>
  The feature generators \<^verbatim>\<open>addEntity\<close>, \<^verbatim>\<open>addService\<close>, \<^verbatim>\<open>addUiExtensions\<close> and
  \<^verbatim>\<open>addCodegen\<close> are separate modules, taken as parameters: each receives the plugin
  reference and the world and returns the error it throws, if any, and the world it
  leaves.
\<close>

record featureGenerators =
  addEntity :: "vendurePluginRef \<Rightarrow> world \<Rightarrow> error option \<times> world"
  addService :: "vendurePluginRef \<Rightarrow> world \<Rightarrow> error option \<times> world"
  addUiExtensions :: "vendurePluginRef \<Rightarrow> world \<Rightarrow> error option \<times> world"
  addCodegen :: "vendurePluginRef \<Rightarrow> world \<Rightarrow> error option \<times> world"

text \<open>
  The loop of lines 71 to 100, one iteration for each answer at the feature menu. The
  result \<open>Completed\<close> says that the loop has ended.
\<close>

fun featureLoop ::
  "featureGenerators \<Rightarrow> string \<Rightarrow> vendurePluginRef \<Rightarrow> featureType answer list \<Rightarrow> world
     \<Rightarrow> outcome \<times> world" where
  "featureLoop gens name' plugin [] w =
     (AwaitingInput, emit (SelectPrompt (''Add features to '' @ name' @ ''?'')) w)"
| "featureLoop gens name' plugin (featureType # rest) w =
     (let w1 = emit (SelectPrompt (''Add features to '' @ name' @ ''?'')) w
      in case featureType of
           Cancel \<Rightarrow> (Completed, w1)
         | Submit No \<Rightarrow> (Completed, w1)
         | Submit Entity \<Rightarrow>
             (case addEntity gens plugin w1 of
                (Some e, w2) \<Rightarrow> (Uncaught e, w2)
              | (None, w2) \<Rightarrow> featureLoop gens name' plugin rest w2)
         | Submit UiExtensions \<Rightarrow>
             (case addUiExtensions gens plugin w1 of
                (Some e, w2) \<Rightarrow> (Uncaught e, w2)
              | (None, w2) \<Rightarrow> featureLoop gens name' plugin rest w2)
         | Submit Codegen \<Rightarrow>
             (case addCodegen gens plugin w1 of
                (Some e, w2) \<Rightarrow> (Uncaught e, w2)
              | (None, w2) \<Rightarrow> featureLoop gens name' plugin rest w2)
         | Submit Service \<Rightarrow>
             (case addService gens plugin w1 of
                (Some e, w2) \<Rightarrow> (Uncaught e, w2)
              | (None, w2) \<Rightarrow> featureLoop gens name' plugin rest w2))"

text \<open>
  The completion message starts with the check mark U+2705, written here as the three
  bytes of its UTF-8 encoding.
\<close>

definition completeMessage :: string where
  "completeMessage = [CHR 0xE2, CHR 0x9C, CHR 0x85] @ '' Plugin setup complete!''"

text \<open>
  Lines 19 to 56 of \<^verbatim>\<open>createNewPlugin\<close>: the two text prompts. The result is either the
  way the process ends there or the options that generation receives.
\<close>

definition collectOptions ::
  "userInput \<Rightarrow> world \<Rightarrow> (outcome \<times> world) + (generatePluginOptions \<times> world)" where
  "collectOptions user w =
     (let options = \<lparr>name = [], customEntityName = [], pluginDir = []\<rparr>;
          w1 = emit (Intro ''Adding a new Vendure plugin!'') w;
          named =
            (if name options = [] then
               (case textPrompt ''What is the name of the plugin?'' [] validateName
                       (nameAnswers user) w1 of
                  (None, w2) \<Rightarrow> Inl (AwaitingInput, w2)
                | (Some Cancel, w2) \<Rightarrow> Inl (Exit 0, emit (CancelNote cancelledMessage) w2)
                | (Some (Submit name'), w2) \<Rightarrow> Inr (options\<lparr>name := name'\<rparr>, w2))
             else Inr (options, w1))
      in case named of
           Inl stop \<Rightarrow> Inl stop
         | Inr (options, w2) \<Rightarrow>
             (let pluginDir' = getPluginDirName w2 (name options)
              in case textPrompt ''Plugin location'' pluginDir' (validateLocation w2)
                        (locationAnswers user) w2 of
                   (None, w3) \<Rightarrow> Inl (AwaitingInput, w3)
                 | (Some Cancel, w3) \<Rightarrow> Inl (Exit 0, emit (CancelNote cancelledMessage) w3)
                 | (Some (Submit confirmation), w3) \<Rightarrow>
                     Inr (options\<lparr>pluginDir := confirmation\<rparr>, w3)))"

text \<open>\<^verbatim>\<open>createNewPlugin\<close>, lines 18 to 103.\<close>

definition createNewPlugin :: "featureGenerators \<Rightarrow> userInput \<Rightarrow> world \<Rightarrow> outcome \<times> world" where
  "createNewPlugin gens user w =
     (case collectOptions user w of
        Inl stop \<Rightarrow> stop
      | Inr (options, w1) \<Rightarrow>
          (case generatePlugin options w1 of
             (Inl e, w2) \<Rightarrow> (Uncaught e, w2)
           | (Inr plugin, w2) \<Rightarrow>
               (case updateVendureConfig plugin w2 of
                  (Some e, w3) \<Rightarrow> (Uncaught e, w3)
                | (None, w3) \<Rightarrow>
                    (case featureLoop gens (name options) plugin (featureAnswers user) w3 of
                       (Completed, w4) \<Rightarrow> (Completed, emit (Outro completeMessage) w4)
                     | stop \<Rightarrow> stop))))"

section \<open>An example installation\<close>

text \<open>
  A project at \<^verbatim>\<open>/app\<close> with a manifest and a configuration file that lists one plugin,
  and the three templates below the directory of the tool at \<^verbatim>\<open>/cli\<close>.
\<close>

definition pluginTemplate :: sourceFile where
  "pluginTemplate =
     \<lparr> classDeclarations = [''TemplatePlugin''], variableDeclarations = [],
       importDeclarations = [], pluginsArray = None \<rparr>"

definition typesTemplate :: sourceFile where
  "typesTemplate =
     \<lparr> classDeclarations = [], variableDeclarations = [],
       importDeclarations = [], pluginsArray = None \<rparr>"

definition constantsTemplate :: sourceFile where
  "constantsTemplate =
     \<lparr> classDeclarations = [],
       variableDeclarations = [(''TEMPLATE_PLUGIN_OPTIONS'', ''Symbol()''), (''loggerCtx'', ''ctx'')],
       importDeclarations = [], pluginsArray = None \<rparr>"

definition vendureConfigFile :: sourceFile where
  "vendureConfigFile =
     \<lparr> classDeclarations = [], variableDeclarations = [(''config'', ''{}'')],
       importDeclarations = [], pluginsArray = Some [''AssetServerPlugin.init({})''] \<rparr>"

definition manifestFile :: sourceFile where
  "manifestFile =
     \<lparr> classDeclarations = [], variableDeclarations = [],
       importDeclarations = [], pluginsArray = None \<rparr>"

definition exampleDisk :: "string \<rightharpoonup> fsEntry" where
  "exampleDisk =
     [''/cli/templates/plugin.template.ts'' \<mapsto> File pluginTemplate,
      ''/cli/templates/types.template.ts'' \<mapsto> File typesTemplate,
      ''/cli/templates/constants.template.ts'' \<mapsto> File constantsTemplate,
      ''/app/src/vendure-config.ts'' \<mapsto> File vendureConfigFile,
      ''/app/package.json'' \<mapsto> File manifestFile,
      ''/cli'' \<mapsto> Directory,
      ''/cli/templates'' \<mapsto> Directory,
      ''/app/src'' \<mapsto> Directory,
      ''/app'' \<mapsto> Directory]"

definition exampleWorld :: world where
  "exampleWorld =
     \<lparr> cwd = ''/app'', dirname = ''/cli'', configPath = ''/app/src/vendure-config.ts'',
       disk = exampleDisk, project = [], unsaved = {}, trace = [] \<rparr>"

definition noGenerators :: featureGenerators where
  "noGenerators =
     \<lparr> addEntity = (\<lambda>plugin w. (None, w)), addService = (\<lambda>plugin w. (None, w)),
       addUiExtensions = (\<lambda>plugin w. (None, w)), addCodegen = (\<lambda>plugin w. (None, w)) \<rparr>"

text \<open>The options of a plugin \<^verbatim>\<open>reviews\<close> in a directory that does not exist yet.\<close>

definition reviewsOptions :: generatePluginOptions where
  "reviewsOptions = \<lparr>name = ''reviews'', customEntityName = [], pluginDir = ''/app/src/plugins/reviews''\<rparr>"

text \<open>
  Two damaged installations: the plugin template without its class, and the constants
  template without its two variable declarations.
\<close>

definition noClassWorld :: world where
  "noClassWorld =
     exampleWorld\<lparr>disk := exampleDisk(''/cli/templates/plugin.template.ts'' \<mapsto> File typesTemplate)\<rparr>"


text \<open>A project in which a regular file lies where the plugins directory should be.\<close>

definition blockedWorld :: world where
  "blockedWorld = exampleWorld\<lparr>disk := exampleDisk(''/app/src/plugins'' \<mapsto> File manifestFile)\<rparr>"

text \<open>A user who names the plugin, accepts a fresh directory and cancels at the feature menu.\<close>

definition cancelAtMenu :: userInput where
  "cancelAtMenu =
     \<lparr> nameAnswers = [Submit ''reviews''],
       locationAnswers = [Submit ''/app/src/plugins/reviews''],
       featureAnswers = [Cancel] \<rparr>"

section \<open>Well-formed working directories\<close>

text \<open>
  \<^verbatim>\<open>process.cwd()\<close> returns an absolute path without empty, \<^verbatim>\<open>.\<close> or \<^verbatim>\<open>..\<close> segments.
  \<open>absolutePath segs\<close> is the path with the segments \<open>segs\<close>. These two definitions are
  only used to state properties.
\<close>

definition cleanSegment :: "string \<Rightarrow> bool" where
  "cleanSegment s = (s \<noteq> [] \<and> CHR ''/'' \<notin> set s \<and> s \<noteq> ''.'' \<and> s \<noteq> ''..'')"

definition absolutePath :: "string list \<Rightarrow> string" where
  "absolutePath segs = concat (map (\<lambda>s. CHR ''/'' # s) segs)"

section \<open>The worlds that generation passes through\<close>

text \<open>
  Two abbreviations for the proofs: the world after the three templates are loaded and
  the class is renamed, and the steps of \<^verbatim>\<open>generatePlugin\<close> from there up to the flush.
\<close>

definition loadedTemplates ::
  "generatePluginOptions \<Rightarrow> world \<Rightarrow> sourceFile \<Rightarrow> sourceFile \<Rightarrow> sourceFile \<Rightarrow> nat \<Rightarrow> world" where
  "loadedTemplates options w p t c i =
     w\<lparr>trace := trace w @ [SpinnerStart ''Generating plugin scaffold...''],
       project :=
         [(path_join [dirname w, ''templates/plugin.template.ts''],
           p\<lparr>classDeclarations := (classDeclarations p)[i := pluginName (templateContext options)]\<rparr>),
          (path_join [dirname w, ''templates/types.template.ts''], t),
          (path_join [dirname w, ''templates/constants.template.ts''], c)],
       unsaved := {0, 1, 2}\<rparr>"

definition prepared :: "generatePluginOptions \<Rightarrow> world \<Rightarrow> world" where
  "prepared options w =
     emit (SpinnerStop ''Generated plugin scaffold'')
       (move 2 (constantsFilePath options)
         (move 0 (pluginFilePath options)
           (move 1 (typesFilePath options)
             (setLoggerCtx 2 (templateContext options)
               (setOptionsSymbol 2 (templateContext options) w)))))"

text \<open>The errors of the flush.\<close>

definition flushError :: "error \<Rightarrow> bool" where
  "flushError e = (case e of NotADirectory a \<Rightarrow> True | IsADirectory p \<Rightarrow> True | _ \<Rightarrow> False)"

section \<open>The name without its plugin suffix, in the words of the specification\<close>

text \<open>
  The specification (4.1, 4.2) speaks of the name without its plugin suffix: an
  optional trailing \<^verbatim>\<open>-plugin\<close> or \<^verbatim>\<open>plugin\<close>, in any case, is taken off. These two
  definitions follow those words and not the code; they are only used to state what
  \<open>stripPluginSuffix\<close> returns. \<open>pluginSuffixSplit name' base sfx\<close> says that the name
  is \<open>base\<close> followed by its plugin suffix \<open>sfx\<close>: the suffix is \<^verbatim>\<open>-plugin\<close>; or it
  is \<^verbatim>\<open>plugin\<close> with no dash before it; or it is empty, for a name that does not end
  in \<^verbatim>\<open>plugin\<close>.
\<close>

definition endsWithPlugin :: "string \<Rightarrow> bool" where
  "endsWithPlugin s = (6 \<le> length s \<and> matchesCI ''plugin'' (drop (length s - 6) s))"

definition pluginSuffixSplit :: "string \<Rightarrow> string \<Rightarrow> string \<Rightarrow> bool" where
  "pluginSuffixSplit name' base sfx =
     (name' = base @ sfx \<and>
      (matchesCI ''-plugin'' sfx \<or>
       matchesCI ''plugin'' sfx \<and> (base = [] \<or> last base \<noteq> CHR ''-'') \<or>
       sfx = [] \<and> \<not> endsWithPlugin name'))"

section \<open>Scripts of answers\<close>

text \<open>
  Notions to state properties of the prompts: an answer that a validation rejects, and
  the validation messages that a list of rejected answers produces.
\<close>

definition rejectedBy :: "(string \<Rightarrow> string option) \<Rightarrow> string answer \<Rightarrow> bool" where
  "rejectedBy validate a = (case a of Cancel \<Rightarrow> False | Submit input \<Rightarrow> validate input \<noteq> None)"

definition notesOf :: "(string \<Rightarrow> string option) \<Rightarrow> string answer list \<Rightarrow> event list" where
  "notesOf validate rejected =
     concat (map (\<lambda>a. case a of Cancel \<Rightarrow> []
                        | Submit input \<Rightarrow> (case validate input of None \<Rightarrow> [] | Some problem \<Rightarrow> [ValidationNote problem]))
             rejected)"

text \<open>The two prompts, as functions of the world before them.\<close>

definition askName :: "userInput \<Rightarrow> world \<Rightarrow> string answer option \<times> world" where
  "askName user w =
     textPrompt ''What is the name of the plugin?'' [] validateName (nameAnswers user)
       (emit (Intro ''Adding a new Vendure plugin!'') w)"

definition askLocation :: "userInput \<Rightarrow> string \<Rightarrow> world \<Rightarrow> string answer option \<times> world" where
  "askLocation user n w =
     textPrompt ''Plugin location'' (getPluginDirName w n) (validateLocation w)
       (locationAnswers user) w"

section \<open>Facts about characters and the name\<close>

lemmas char_class_defs =
  lowerAZ_def upperAZ_def digits09_def isLowerAZ_def isUpperAZ_def isDigit09_def
  isAlnum_def toUpperChar_def toLowerChar_def nameChar_def NUL_def

lemma matchesCI_length: "matchesCI pat s \<Longrightarrow> length s = length pat"
  unfolding matchesCI_def by (metis length_map)

lemma pluginSuffixAt_length: "pluginSuffixAt s \<Longrightarrow> length s \<le> 7"
  by (auto simp: pluginSuffixAt_def dest!: matchesCI_length split: list.splits)

lemma pluginSuffixAt_dash_plugin: "pluginSuffixAt ''-plugin''"
  by (simp add: pluginSuffixAt_def matchesCI_def char_class_defs)

lemma stripPluginSuffix_append: "stripPluginSuffix (y @ ''-plugin'') = y"
proof (induction y)
  case Nil
  show ?case using pluginSuffixAt_dash_plugin by simp
next
  case (Cons c y)
  have "\<not> pluginSuffixAt (c # y @ ''-plugin'')"
    using pluginSuffixAt_length [of "c # y @ ''-plugin''"] by auto
  with Cons show ?case by simp
qed

lemma validName_reviews: "validName ''reviews''"
  by (simp add: validName_def char_class_defs)

lemma stripPluginSuffix_reviews: "stripPluginSuffix ''reviews'' = ''reviews''"
  by (simp add: pluginSuffixAt_def matchesCI_def char_class_defs)

lemma stripPluginSuffix_reviews_plugin: "stripPluginSuffix ''reviews-plugin'' = ''reviews''"
  by (simp add: pluginSuffixAt_def matchesCI_def char_class_defs)

lemma pascalCase_reviews_plugin: "pascalCase ''reviews-plugin'' = ''ReviewsPlugin''"
  by code_simp

lemma constantCase_reviews_plugin: "constantCase ''reviews-plugin'' = ''REVIEWS_PLUGIN''"
  by code_simp

section \<open>Name normalisation\<close>

text \<open>
  Claim C1. Stripping an optional trailing \<^verbatim>\<open>-plugin\<close> or \<^verbatim>\<open>plugin\<close> (in any case) and
  appending \<^verbatim>\<open>-plugin\<close> is idempotent: for every name that the name prompt accepts,
  normalising the normalised name gives the normalised name.
\<close>

theorem normalizedName_idempotent:
  "validName x \<Longrightarrow> normalizedName (normalizedName x) = normalizedName x"
  by (simp add: normalizedName_def stripPluginSuffix_append)

theorem normalizedName_idempotent_witness:
  "validName ''reviews'' \<and>
   normalizedName (normalizedName ''reviews'') = normalizedName ''reviews'' \<and>
   normalizedName ''reviews'' = ''reviews-plugin''"
proof -
  have "normalizedName ''reviews'' = ''reviews-plugin''"
    by code_simp
  then show ?thesis
    using normalizedName_idempotent [OF validName_reviews] validName_reviews by simp
qed

text \<open>
  Claim C2. For the name \<^verbatim>\<open>reviews\<close> the template context has the plugin name
  \<^verbatim>\<open>ReviewsPlugin\<close> and the options name \<^verbatim>\<open>REVIEWS_PLUGIN_OPTIONS\<close>, and the name
  \<^verbatim>\<open>reviews-plugin\<close> gives the same two derived names.
\<close>

theorem templateContext_reviews:
  "pluginName (templateContext \<lparr>name = ''reviews'', customEntityName = e, pluginDir = d\<rparr>)
     = ''ReviewsPlugin'' \<and>
   pluginInitOptionsName (templateContext \<lparr>name = ''reviews'', customEntityName = e, pluginDir = d\<rparr>)
     = ''REVIEWS_PLUGIN_OPTIONS'' \<and>
   pluginName (templateContext \<lparr>name = ''reviews-plugin'', customEntityName = e, pluginDir = d\<rparr>)
     = pluginName (templateContext \<lparr>name = ''reviews'', customEntityName = e, pluginDir = d\<rparr>) \<and>
   pluginInitOptionsName
       (templateContext \<lparr>name = ''reviews-plugin'', customEntityName = e, pluginDir = d\<rparr>)
     = pluginInitOptionsName
         (templateContext \<lparr>name = ''reviews'', customEntityName = e, pluginDir = d\<rparr>)"
proof -
  have n1: "normalizedName ''reviews'' = ''reviews-plugin''"
    by code_simp
  have n2: "normalizedName ''reviews-plugin'' = ''reviews-plugin''"
    by code_simp
  show ?thesis
    by (simp add: templateContext_def n1 n2 pascalCase_reviews_plugin constantCase_reviews_plugin)
qed

section \<open>Facts about paths\<close>

lemma splitOn_not_Nil: "splitOn d s \<noteq> []"
  by (induction s) (auto split: list.splits)

lemma splitOn_append_free:
  "d \<notin> set s \<Longrightarrow> splitOn d (s @ r) = (s @ hd (splitOn d r)) # tl (splitOn d r)"
proof (induction s)
  case Nil
  then show ?case using splitOn_not_Nil [of d r] by (cases "splitOn d r") auto
next
  case (Cons c s)
  then show ?case by auto
qed

lemma splitOn_absolutePath:
  "list_all cleanSegment segs \<Longrightarrow> splitOn CHR ''/'' (absolutePath segs) = [] # segs"
proof (induction segs)
  case Nil
  show ?case by (simp add: absolutePath_def)
next
  case (Cons s segs)
  then have free: "CHR ''/'' \<notin> set s" and rest: "splitOn CHR ''/'' (absolutePath segs) = [] # segs"
    by (simp_all add: cleanSegment_def)
  have "absolutePath (s # segs) = CHR ''/'' # (s @ absolutePath segs)"
    by (simp add: absolutePath_def)
  then show ?case using splitOn_append_free [OF free, of "absolutePath segs"] rest by simp
qed

lemma normalizeString_clean:
  "list_all cleanSegment segs \<Longrightarrow> normalizeString b res segs = res @ segs"
  by (induction segs arbitrary: res) (auto simp: cleanSegment_def)

lemma joinWith_slash: "segs \<noteq> [] \<Longrightarrow> CHR ''/'' # joinWith ''/'' segs = absolutePath segs"
proof (induction segs)
  case Nil
  then show ?case by simp
next
  case (Cons s segs)
  then show ?case by (cases segs) (auto simp: absolutePath_def)
qed

lemma joinWith_eq_Nil: "joinWith d ws = [] \<Longrightarrow> d \<noteq> [] \<Longrightarrow> ws = [] \<or> ws = [[]]"
  by (induction d ws rule: joinWith.induct) auto

lemma absolutePath_last:
  "segs \<noteq> [] \<Longrightarrow> list_all cleanSegment segs \<Longrightarrow> last (absolutePath segs) \<noteq> CHR ''/''"
proof (induction segs)
  case Nil then show ?case by simp
next
  case (Cons s segs)
  show ?case
  proof (cases "segs = []")
    case True
    with Cons.prems show ?thesis
      by (auto simp: absolutePath_def cleanSegment_def dest: last_in_set)
  next
    case False
    then have "absolutePath segs \<noteq> []" by (cases segs) (auto simp: absolutePath_def)
    moreover have "absolutePath (s # segs) = (CHR ''/'' # s) @ absolutePath segs"
      by (simp add: absolutePath_def)
    ultimately show ?thesis using Cons False by simp
  qed
qed

lemma path_normalize_absolutePath:
  assumes "segs \<noteq> []" "list_all cleanSegment segs"
  shows "path_normalize (absolutePath segs) = absolutePath segs"
proof -
  obtain s rest where segs: "segs = s # rest" using assms(1) by (cases segs) auto
  have ne: "absolutePath segs \<noteq> []" and hd: "hd (absolutePath segs) = CHR ''/''"
    by (simp_all add: segs absolutePath_def)
  have q: "joinWith ''/'' (normalizeString False [] (splitOn CHR ''/'' (absolutePath segs)))
            = joinWith ''/'' segs"
    using assms(2) by (simp add: splitOn_absolutePath normalizeString_clean)
  have qne: "joinWith ''/'' segs \<noteq> []"
    using assms by (auto simp: segs cleanSegment_def dest!: joinWith_eq_Nil)
  show ?thesis
    unfolding path_normalize_def Let_def
    using ne hd q qne absolutePath_last [OF assms] joinWith_slash [OF assms(1)]
    by simp
qed

lemma absolutePath_append: "absolutePath (xs @ ys) = absolutePath xs @ absolutePath ys"
  by (simp add: absolutePath_def)

lemma joinWith_absolutePath:
  "p \<noteq> [] \<Longrightarrow> list_all (\<lambda>x. x \<noteq> []) xs \<Longrightarrow> joinWith ''/'' (p # xs) = p @ absolutePath xs"
  by (induction xs arbitrary: p) (auto simp: absolutePath_def neq_Nil_conv)

lemma path_join_absolutePath:
  assumes "segs \<noteq> []" "list_all cleanSegment segs" "list_all (\<lambda>x. x = [] \<or> cleanSegment x) xs"
  shows "path_join (absolutePath segs # xs)
           = absolutePath segs @ absolutePath (filter (\<lambda>x. x \<noteq> []) xs)"
proof -
  let ?ys = "filter (\<lambda>x. x \<noteq> []) xs"
  have ne: "absolutePath segs \<noteq> []"
    using assms(1) by (cases segs) (auto simp: absolutePath_def)
  have clean: "list_all cleanSegment (segs @ ?ys)"
    using assms(2,3) by (auto simp: list_all_iff)
  have "joinWith ''/'' (absolutePath segs # ?ys) = absolutePath (segs @ ?ys)"
    using joinWith_absolutePath [OF ne, of ?ys] by (simp add: absolutePath_append list_all_iff)
  moreover have "path_normalize (absolutePath (segs @ ?ys)) = absolutePath (segs @ ?ys)"
    using path_normalize_absolutePath [OF _ clean] assms(1) by simp
  ultimately show ?thesis
    using ne by (simp add: path_join_def absolutePath_append)
qed

section \<open>Facts about the kebab-case name\<close>

lemma isAlnum_toLowerChar: "isAlnum c \<Longrightarrow> isAlnum (toLowerChar c)"
  unfolding char_class_defs by auto

lemma not_isAlnum_specials: "\<not> isAlnum CHR ''/''" "\<not> isAlnum CHR ''.''" "\<not> isAlnum CHR ''-''" "\<not> isAlnum NUL"
  by (simp_all add: char_class_defs)

lemma set_stripRuns: "c \<in> set (stripRuns s) \<Longrightarrow> isAlnum c \<or> c = NUL"
  by (induction s rule: stripRuns.induct) (auto split: if_splits)

lemma set_trimNUL: "set (trimNUL s) \<subseteq> set s"
  unfolding trimNUL_def by (auto dest!: set_dropWhileD)

lemma set_splitOn_all: "\<forall>w \<in> set (splitOn d s). set w \<subseteq> set s - {d}"
proof (induction s)
  case Nil
  show ?case by simp
next
  case (Cons a s)
  show ?case
  proof (cases "a = d")
    case True
    with Cons show ?thesis by auto
  next
    case False
    obtain v vs where split: "splitOn d s = v # vs"
      using splitOn_not_Nil [of d s] by (cases "splitOn d s") auto
    with Cons have "set v \<subseteq> set s - {d}" "\<forall>w \<in> set vs. set w \<subseteq> set s - {d}"
      by auto
    with False split show ?thesis by auto
  qed
qed

lemma set_splitOn: "w \<in> set (splitOn d s) \<Longrightarrow> c \<in> set w \<Longrightarrow> c \<in> set s \<and> c \<noteq> d"
  using set_splitOn_all [of d s] by auto

lemma set_mapIndexed_lowerCase:
  "v \<in> set (mapIndexed lowerCase i ws) \<Longrightarrow> \<exists>w \<in> set ws. v = map toLowerChar w"
  by (induction ws arbitrary: i) (auto simp: lowerCase_def)

lemma set_joinWith: "c \<in> set (joinWith d ws) \<Longrightarrow> c \<in> set d \<or> (\<exists>w \<in> set ws. c \<in> set w)"
  by (induction d ws rule: joinWith.induct) auto

lemma set_paramCase: "c \<in> set (paramCase s) \<Longrightarrow> isAlnum c \<or> c = CHR ''-''"
proof -
  assume "c \<in> set (paramCase s)"
  then consider "c = CHR ''-''" |
    w where "w \<in> set (splitOn NUL (trimNUL (stripRuns (splitUpperUpperLower (splitLowerUpper s)))))"
      "c \<in> set (map toLowerChar w)"
    unfolding paramCase_def noCase_def Let_def
    by (auto dest!: set_joinWith set_mapIndexed_lowerCase)
  then show ?thesis
  proof cases
    case 1
    then show ?thesis by simp
  next
    case 2
    then obtain x where x: "x \<in> set w" "c = toLowerChar x" by auto
    with 2(1) have "x \<in> set (trimNUL (stripRuns (splitUpperUpperLower (splitLowerUpper s))))" "x \<noteq> NUL"
      using set_splitOn by blast+
    then have "isAlnum x" using set_trimNUL set_stripRuns by blast
    then show ?thesis using x isAlnum_toLowerChar by simp
  qed
qed

lemma cleanSegment_paramCase: "paramCase s \<noteq> [] \<Longrightarrow> cleanSegment (paramCase s)"
  unfolding cleanSegment_def
  using set_paramCase [of "CHR ''/''" s] set_paramCase [of "CHR ''.''" s] not_isAlnum_specials
  by (auto simp: )

lemma nameChar_toUpperChar_plugin:
  "nameChar c \<Longrightarrow> toUpperChar c = toUpperChar p \<Longrightarrow> p \<in> set ''plugin'' \<Longrightarrow> c = p"
  unfolding char_class_defs by (auto split: if_splits)

lemma isLowerAZ_nameChar: "isLowerAZ c \<Longrightarrow> nameChar c"
  by (simp add: nameChar_def)

lemma validName_nameChars: "validName n \<Longrightarrow> list_all nameChar n"
  by (auto simp: validName_def isLowerAZ_nameChar split: list.splits)

lemma matchesCI_plugin_valid:
  assumes "list_all nameChar n" "matchesCI ''plugin'' n"
  shows "n = ''plugin''"
proof -
  have "list_all2 (\<lambda>c p. toUpperChar c = toUpperChar p) n ''plugin''"
    using assms(2) unfolding matchesCI_def list_all2_conv_all_nth
    by (metis length_map nth_map)
  moreover have "list_all2 (\<lambda>c p. nameChar c \<and> p \<in> set ''plugin'') n ''plugin''"
    using assms(1) calculation unfolding list_all2_conv_all_nth list_all_length
    by (metis nth_mem)
  ultimately have "list_all2 (=) n ''plugin''"
    unfolding list_all2_conv_all_nth using nameChar_toUpperChar_plugin by metis
  then show ?thesis by (simp add: list.rel_eq)
qed

lemma validName_not_pluginSuffixAt:
  assumes "validName n" "n \<noteq> ''plugin''"
  shows "\<not> pluginSuffixAt n"
proof
  assume at: "pluginSuffixAt n"
  obtain c r where n: "n = c # r" "isLowerAZ c"
    using assms(1) by (auto simp: validName_def split: list.splits)
  have "c \<noteq> CHR ''-''" using n(2) by (auto simp: char_class_defs)
  with at n have "matchesCI ''plugin'' n" by (simp add: pluginSuffixAt_def)
  with assms show False using matchesCI_plugin_valid validName_nameChars by blast
qed

lemma splitLowerUpper_Cons: "\<exists>y. splitLowerUpper (c # x) = c # y"
  by (cases x) auto

lemma splitUpperUpperLower_Cons: "\<exists>y. splitUpperUpperLower (c # x) = c # y"
proof (cases x)
  case Nil
  then show ?thesis by simp
next
  case (Cons b r)
  then show ?thesis by (cases r) auto
qed

lemma trimNUL_Cons: "c \<noteq> NUL \<Longrightarrow> \<exists>z. trimNUL (c # x) = c # z"
proof -
  assume c: "c \<noteq> NUL"
  have "\<exists>y. dropWhile (\<lambda>c. c = NUL) (rev x @ [c]) = y @ [c]"
    using c by (simp add: dropWhile_append)
  then obtain y where "dropWhile (\<lambda>c. c = NUL) (rev x @ [c]) = y @ [c]" ..
  then show ?thesis using c by (simp add: trimNUL_def)
qed

lemma splitOn_Cons: "c \<noteq> d \<Longrightarrow> \<exists>v vs. splitOn d (c # x) = (c # v) # vs"
  using splitOn_not_Nil [of d x] by (cases "splitOn d x") auto

lemma joinWith_Cons_Cons: "joinWith d ((c # v) # vs) \<noteq> []"
  by (cases vs) auto

lemma paramCase_Cons_not_Nil:
  assumes "isAlnum c"
  shows "paramCase (c # x) \<noteq> []"
proof -
  have nul: "c \<noteq> NUL" using assms not_isAlnum_specials(4) by auto
  obtain y1 where "splitLowerUpper (c # x) = c # y1" using splitLowerUpper_Cons by blast
  moreover obtain y2 where "splitUpperUpperLower (c # y1) = c # y2"
    using splitUpperUpperLower_Cons by blast
  moreover have "stripRuns (c # y2) = c # stripRuns y2" using assms by simp
  moreover obtain z where "trimNUL (c # stripRuns y2) = c # z" using trimNUL_Cons [OF nul] by blast
  moreover obtain v vs where "splitOn NUL (c # z) = (c # v) # vs" using splitOn_Cons [OF nul] by blast
  ultimately show ?thesis
    by (simp add: paramCase_def noCase_def lowerCase_def joinWith_Cons_Cons)
qed

lemma paramCase_valid_not_Nil:
  assumes "validName n" "n \<noteq> ''plugin''"
  shows "paramCase (stripPluginSuffix n) \<noteq> []"
proof -
  obtain c r where n: "n = c # r" "isLowerAZ c"
    using assms(1) by (auto simp: validName_def split: list.splits)
  have "stripPluginSuffix n = c # stripPluginSuffix r"
    using validName_not_pluginSuffixAt [OF assms] n by simp
  then show ?thesis using paramCase_Cons_not_Nil [of c] n(2) by (simp add: isAlnum_def)
qed

lemma paramCase_reviews: "paramCase (stripPluginSuffix ''reviews'') = ''reviews''"
  by code_simp

lemma absolutePath_simps:
  "absolutePath [] = []" "absolutePath (s # segs) = CHR ''/'' # s @ absolutePath segs"
  by (simp_all add: absolutePath_def)

lemma cleanSegment_literals:
  "cleanSegment ''src''" "cleanSegment ''plugins''" "cleanSegment ''package.json''"
  "cleanSegment ''app''" "cleanSegment ''tmp''"
  by (simp_all add: cleanSegment_def)

section \<open>Facts about writing files\<close>

lemma dirsOf_length:
  "a \<in> set (dirsOf acc r) \<Longrightarrow> length acc \<le> length a \<and> length a < length acc + length r"
  by (induction r arbitrary: acc) (fastforce split: if_splits)+

lemma parentDirs_shorter: "a \<in> set (parentDirs p) \<Longrightarrow> length a < length p"
  using dirsOf_length [of a "[]" p] by (simp add: parentDirs_def)

lemma parentDirs_not_self: "p \<notin> set (parentDirs p)"
  using parentDirs_shorter [of p p] by auto

lemma writeFile_Inr:
  assumes "writeFile p f d = Inr d'"
  shows "(isFile (d p) \<and> d' = d(p \<mapsto> File f)) \<or>
         (d p = None \<and> (\<forall>a \<in> set (parentDirs p). \<not> isFile (d a)) \<and>
          d' = (mkdirs (parentDirs p) d)(p \<mapsto> File f))"
  using assms unfolding writeFile_def
  by (auto split: option.splits fsEntry.splits simp: find_None_iff isFile_def)

lemma writeFile_Inl: "writeFile p f d = Inl e \<Longrightarrow> flushError e"
  unfolding writeFile_def by (auto split: option.splits fsEntry.splits simp: flushError_def)

lemma writeFile_overwrite: "d p = Some (File g) \<Longrightarrow> writeFile p f d = Inr (d(p \<mapsto> File f))"
  by (simp add: writeFile_def)

lemma writeFile_create:
  assumes "d p = None" "\<forall>a \<in> set (parentDirs p). \<not> isFile (d a)"
  shows "writeFile p f d = Inr ((mkdirs (parentDirs p) d)(p \<mapsto> File f))"
proof -
  have "find (\<lambda>a. isFile (d a)) (parentDirs p) = None"
    using assms(2) by (simp add: find_None_iff)
  then show ?thesis using assms(1) by (simp add: writeFile_def)
qed

lemma writeFile_succeeds:
  assumes "\<forall>a \<in> set (parentDirs p). \<not> isFile (d a)" "d p \<noteq> Some Directory"
  shows "\<exists>d'. writeFile p f d = Inr d'"
proof (cases "d p")
  case None
  then show ?thesis using writeFile_create [OF None assms(1)] by blast
next
  case (Some entry)
  then obtain g where "d p = Some (File g)" using assms(2) by (cases entry) auto
  then show ?thesis using writeFile_overwrite by blast
qed

lemma writeFile_keeps_directory:
  assumes "writeFile p f d = Inr d'" "d q = Some Directory"
  shows "d' q = Some Directory"
  using writeFile_Inr [OF assms(1)] assms(2) by (auto simp: mkdirs_def isFile_def)

lemma writeFile_keeps_file:
  assumes "writeFile p f d = Inr d'" "d q = Some (File g)" "q \<noteq> p"
  shows "d' q = Some (File g)"
  using writeFile_Inr [OF assms(1)] assms(2,3) by (fastforce simp: mkdirs_def isFile_def)

lemma writeFile_written: "writeFile p f d = Inr d' \<Longrightarrow> d' p = Some (File f)"
  using writeFile_Inr [of p f d d'] by auto

lemma writeFile_dirs:
  "writeFile p f d = Inr d' \<Longrightarrow> \<not> isFile (d p) \<Longrightarrow> a \<in> set (parentDirs p) \<Longrightarrow>
     d' a = Some Directory"
  using parentDirs_not_self [of p] writeFile_Inr [of p f d d'] by (auto simp: mkdirs_def)

lemma writeFile_frame:
  "writeFile p f d = Inr d' \<Longrightarrow> q \<noteq> p \<Longrightarrow> q \<notin> set (parentDirs p) \<Longrightarrow> d' q = d q"
  using writeFile_Inr [of p f d d'] by (auto simp: mkdirs_def)

lemma writeFile_isFile:
  "writeFile p f d = Inr d' \<Longrightarrow> q \<noteq> p \<Longrightarrow> isFile (d' q) \<Longrightarrow> isFile (d q)"
  using writeFile_Inr [of p f d d'] by (auto simp: mkdirs_def isFile_def split: if_splits)

lemma writeFile_not_directory:
  "writeFile p f d = Inr d' \<Longrightarrow> q \<notin> set (parentDirs p) \<Longrightarrow> d q \<noteq> Some Directory \<Longrightarrow>
     d' q \<noteq> Some Directory"
  using writeFile_Inr [of p f d d'] by (auto simp: mkdirs_def split: if_splits)

lemma writeFiles_Cons_None:
  "writeFiles ((p, f) # files) d = (None, d') \<Longrightarrow>
     \<exists>d1. writeFile p f d = Inr d1 \<and> writeFiles files d1 = (None, d')"
  by (cases "writeFile p f d") auto

lemma writeFiles_keeps_directory:
  "writeFiles files d = (None, d') \<Longrightarrow> d q = Some Directory \<Longrightarrow> d' q = Some Directory"
proof (induction files arbitrary: d)
  case Nil
  then show ?case by simp
next
  case (Cons x files)
  obtain p f where x: "x = (p, f)" by (cases x)
  from Cons.prems(1) obtain d1 where "writeFile p f d = Inr d1" "writeFiles files d1 = (None, d')"
    unfolding x using writeFiles_Cons_None by blast
  then show ?case using Cons.IH Cons.prems(2) writeFile_keeps_directory by blast
qed

lemma writeFiles_keeps_file:
  "writeFiles files d = (None, d') \<Longrightarrow> d q = Some (File g) \<Longrightarrow> q \<notin> fst ` set files \<Longrightarrow>
     d' q = Some (File g)"
proof (induction files arbitrary: d)
  case Nil
  then show ?case by simp
next
  case (Cons x files)
  obtain p f where x: "x = (p, f)" by (cases x)
  from Cons.prems(1) obtain d1 where s: "writeFile p f d = Inr d1" "writeFiles files d1 = (None, d')"
    unfolding x using writeFiles_Cons_None by blast
  have "q \<noteq> p" "q \<notin> fst ` set files" using Cons.prems(3) x by auto
  then show ?case using Cons.IH [OF s(2)] writeFile_keeps_file [OF s(1) Cons.prems(2)] by blast
qed

lemma writeFiles_written:
  "writeFiles files d = (None, d') \<Longrightarrow> distinct (map fst files) \<Longrightarrow> (p, f) \<in> set files \<Longrightarrow>
     d' p = Some (File f)"
proof (induction files arbitrary: d)
  case Nil
  then show ?case by simp
next
  case (Cons x files)
  obtain p0 f0 where x: "x = (p0, f0)" by (cases x)
  from Cons.prems(1) obtain d1 where s: "writeFile p0 f0 d = Inr d1" "writeFiles files d1 = (None, d')"
    unfolding x using writeFiles_Cons_None by blast
  show ?case
  proof (cases "(p, f) = (p0, f0)")
    case True
    then have "p \<notin> fst ` set files" using Cons.prems(2) x by auto
    then show ?thesis
      using writeFiles_keeps_file [OF s(2) writeFile_written [OF s(1)]] True by simp
  next
    case False
    then have "(p, f) \<in> set files" "distinct (map fst files)" using Cons.prems x by auto
    then show ?thesis using Cons.IH [OF s(2)] by blast
  qed
qed

lemma writeFiles_dirs:
  "writeFiles files d = (None, d') \<Longrightarrow> p \<in> fst ` set files \<Longrightarrow> \<not> isFile (d p) \<Longrightarrow>
     a \<in> set (parentDirs p) \<Longrightarrow> d' a = Some Directory"
proof (induction files arbitrary: d)
  case Nil
  then show ?case by simp
next
  case (Cons x files)
  obtain p0 f0 where x: "x = (p0, f0)" by (cases x)
  from Cons.prems(1) obtain d1 where s: "writeFile p0 f0 d = Inr d1" "writeFiles files d1 = (None, d')"
    unfolding x using writeFiles_Cons_None by blast
  show ?case
  proof (cases "p = p0")
    case True
    then show ?thesis
      using writeFiles_keeps_directory [OF s(2)] writeFile_dirs [OF s(1)] Cons.prems(3,4) by blast
  next
    case False
    then have "p \<in> fst ` set files" using Cons.prems(2) x by auto
    moreover have "\<not> isFile (d1 p)" using writeFile_isFile [OF s(1) False] Cons.prems(3) by blast
    ultimately show ?thesis using Cons.IH [OF s(2)] Cons.prems(4) by blast
  qed
qed

lemma writeFiles_frame:
  "writeFiles files d = (None, d') \<Longrightarrow> q \<notin> fst ` set files \<Longrightarrow>
     \<forall>p \<in> fst ` set files. q \<notin> set (parentDirs p) \<Longrightarrow> d' q = d q"
proof (induction files arbitrary: d)
  case Nil
  then show ?case by simp
next
  case (Cons x files)
  obtain p0 f0 where x: "x = (p0, f0)" by (cases x)
  from Cons.prems(1) obtain d1 where s: "writeFile p0 f0 d = Inr d1" "writeFiles files d1 = (None, d')"
    unfolding x using writeFiles_Cons_None by blast
  have "d1 q = d q" using writeFile_frame [OF s(1), of q] Cons.prems(2,3) x by auto
  moreover have "d' q = d1 q" using Cons.IH [OF s(2)] Cons.prems(2,3) by auto
  ultimately show ?case by simp
qed

lemma writeFiles_Some: "writeFiles files d = (Some e, d') \<Longrightarrow> flushError e"
proof (induction files arbitrary: d)
  case Nil
  then show ?case by simp
next
  case (Cons x files)
  obtain p f where x: "x = (p, f)" by (cases x)
  show ?case
  proof (cases "writeFile p f d")
    case (Inl e')
    then show ?thesis using Cons.prems x writeFile_Inl by auto
  next
    case (Inr d1)
    then show ?thesis using Cons.prems x Cons.IH by auto
  qed
qed

lemma writeFiles_frame_any:
  "writeFiles files d = (x, d') \<Longrightarrow> q \<notin> fst ` set files \<Longrightarrow>
     \<forall>p \<in> fst ` set files. q \<notin> set (parentDirs p) \<Longrightarrow> d' q = d q"
proof (induction files arbitrary: d)
  case Nil
  then show ?case by simp
next
  case (Cons y files)
  obtain p0 f0 where y: "y = (p0, f0)" by (cases y)
  show ?case
  proof (cases "writeFile p0 f0 d")
    case (Inl e)
    then show ?thesis using Cons.prems(1) y by simp
  next
    case (Inr d1)
    then have s: "writeFiles files d1 = (x, d')" using Cons.prems(1) y by simp
    have "d1 q = d q" using writeFile_frame [OF Inr, of q] Cons.prems(2,3) y by auto
    moreover have "d' q = d1 q" using Cons.IH [OF s] Cons.prems(2,3) by auto
    ultimately show ?thesis by simp
  qed
qed

lemma writeFiles_succeeds:
  "\<forall>p \<in> fst ` set files.
      (\<forall>a \<in> set (parentDirs p). \<not> isFile (d a) \<and> a \<notin> fst ` set files) \<and> d p \<noteq> Some Directory
   \<Longrightarrow> \<exists>d'. writeFiles files d = (None, d')"
proof (induction files arbitrary: d)
  case Nil
  then show ?case by simp
next
  case (Cons x files)
  obtain p f where x: "x = (p, f)" by (cases x)
  obtain d1 where w: "writeFile p f d = Inr d1"
    using Cons.prems x writeFile_succeeds [of p d f] by auto
  have "\<forall>q \<in> fst ` set files.
      (\<forall>a \<in> set (parentDirs q). \<not> isFile (d1 a) \<and> a \<notin> fst ` set files) \<and> d1 q \<noteq> Some Directory"
  proof (intro ballI conjI)
    fix q a
    assume q: "q \<in> fst ` set files" and a: "a \<in> set (parentDirs q)"
    then have "\<not> isFile (d a)" "a \<noteq> p" "a \<notin> fst ` set files" using Cons.prems x by auto
    then show "\<not> isFile (d1 a)" "a \<notin> fst ` set files"
      using writeFile_isFile [OF w, of a] by blast+
  next
    fix q
    assume q: "q \<in> fst ` set files"
    then have "d q \<noteq> Some Directory" "q \<notin> set (parentDirs p)" using Cons.prems x by auto
    then show "d1 q \<noteq> Some Directory" using writeFile_not_directory [OF w] by blast
  qed
  from Cons.IH [OF this] obtain d' where "writeFiles files d1 = (None, d')"
    by blast
  then have "writeFiles ((p, f) # files) d = (None, d')"
    by (simp only: writeFiles.simps w sum.case)
  then show ?case unfolding x by blast
qed

lemma filter_eq_upt: "filter (\<lambda>i. i = n) [0 ..< m] = (if n < m then [n] else [])"
  by (induction m) auto

lemma unsavedFiles_all:
  "\<forall>i < length (project w). i \<in> unsaved w \<Longrightarrow> unsavedFiles w = project w"
proof -
  assume "\<forall>i < length (project w). i \<in> unsaved w"
  then have "filter (\<lambda>i. i \<in> unsaved w) [0 ..< length (project w)] = [0 ..< length (project w)]"
    by (simp add: filter_id_conv)
  then show ?thesis by (simp add: unsavedFiles_def map_nth)
qed

lemma unsavedFiles_single:
  "unsaved w = {n} \<Longrightarrow> n < length (project w) \<Longrightarrow> unsavedFiles w = [project w ! n]"
  by (simp add: unsavedFiles_def filter_eq_upt)

section \<open>Facts about the paths of the generated files\<close>

lemma splitOn_append_sep: "splitOn c (a @ c # b) = splitOn c a @ splitOn c b"
proof (induction a)
  case Nil
  show ?case by simp
next
  case (Cons x a)
  obtain v vs where "splitOn c a = v # vs"
    using splitOn_not_Nil [of c a] by (cases "splitOn c a") auto
  with Cons show ?case by simp
qed

lemma splitOn_free: "c \<notin> set x \<Longrightarrow> splitOn c x = [x]"
  by (induction x) auto

lemma normalizeString_snoc_clean:
  "cleanSegment x \<Longrightarrow> normalizeString b res (segs @ [x]) = normalizeString b res segs @ [x]"
  by (induction segs arbitrary: res) (auto simp: cleanSegment_def)

lemma joinWith_snoc: "joinWith d (ns @ [x]) = (if ns = [] then x else joinWith d ns @ d @ x)"
  by (induction d ns rule: joinWith.induct) auto

lemma path_join_clean_last:
  "\<exists>pre. \<forall>x. cleanSegment x \<longrightarrow> path_join [d, x] = pre @ x"
proof (cases "d = []")
  case True
  have "path_join [d, x] = [] @ x" if "cleanSegment x" for x
  proof -
    have "x \<noteq> []" "CHR ''/'' \<notin> set x" "x \<noteq> ''.''" "x \<noteq> ''..''"
      using that by (simp_all add: cleanSegment_def)
    moreover have "hd x \<noteq> CHR ''/''" "last x \<noteq> CHR ''/''"
      using calculation(1,2) by (auto dest: hd_in_set last_in_set)
    ultimately show ?thesis
      using True by (simp add: path_join_def path_normalize_def splitOn_free)
  qed
  then show ?thesis by blast
next
  case False
  let ?abs = "hd d = CHR ''/''"
  let ?ns = "normalizeString (\<not> ?abs) [] (splitOn CHR ''/'' d)"
  let ?pre = "(if ?abs then ''/'' else []) @ (if ?ns = [] then [] else joinWith ''/'' ?ns @ ''/'')"
  have "path_join [d, x] = ?pre @ x" if "cleanSegment x" for x
  proof -
    have x: "x \<noteq> []" "CHR ''/'' \<notin> set x"
      using that by (simp_all add: cleanSegment_def)
    then have l: "last x \<noteq> CHR ''/''" by (auto dest: last_in_set)
    have j: "joinWith ''/'' [d, x] = d @ CHR ''/'' # x" by simp
    have s: "splitOn CHR ''/'' (d @ CHR ''/'' # x) = splitOn CHR ''/'' d @ [x]"
      using x by (simp add: splitOn_append_sep splitOn_free)
    have n: "normalizeString (\<not> ?abs) [] (splitOn CHR ''/'' d @ [x]) = ?ns @ [x]"
      using that by (rule normalizeString_snoc_clean)
    have q: "joinWith ''/'' (?ns @ [x]) \<noteq> []"
      using x by (simp add: joinWith_snoc)
    have "path_normalize (d @ CHR ''/'' # x)
            = (if ?abs then ''/'' else []) @ joinWith ''/'' (?ns @ [x])"
      using False x l q unfolding path_normalize_def Let_def s
      by (auto simp: hd_append normalizeString_snoc_clean [OF that])
    then show ?thesis
      using False x by (simp add: path_join_def joinWith_snoc)
  qed
  then show ?thesis by blast
qed

lemma path_join_distinct:
  assumes "cleanSegment x" "cleanSegment y" "x \<noteq> y"
  shows "path_join [d, x] \<noteq> path_join [d, y]"
proof -
  obtain pre where "\<forall>x. cleanSegment x \<longrightarrow> path_join [d, x] = pre @ x"
    using path_join_clean_last by blast
  then show ?thesis using assms by auto
qed

lemma cleanSegment_plugin_file: "cleanSegment (paramCase s @ ''.plugin.ts'')"
proof -
  have "CHR ''/'' \<notin> set (paramCase s)"
    using set_paramCase [of "CHR ''/''" s] not_isAlnum_specials by auto
  moreover have "length (paramCase s @ ''.plugin.ts'') \<ge> 10" by simp
  ultimately show ?thesis
    unfolding cleanSegment_def by (auto simp del: length_append)
qed

lemma plugin_file_not_types: "k @ ''.plugin.ts'' \<noteq> ''types.ts''"
proof
  assume "k @ ''.plugin.ts'' = ''types.ts''"
  then have "length (k @ ''.plugin.ts'') = length ''types.ts''" by (rule arg_cong)
  then show False by simp
qed

lemma plugin_file_not_constants: "k @ ''.plugin.ts'' \<noteq> ''constants.ts''"
proof
  assume a: "k @ ''.plugin.ts'' = ''constants.ts''"
  then have "rev (k @ ''.plugin.ts'') = rev ''constants.ts''" by (rule arg_cong)
  then show False by simp
qed

lemma cleanSegment_fixed_files: "cleanSegment ''types.ts''" "cleanSegment ''constants.ts''"
  by (simp_all add: cleanSegment_def)

lemma generated_paths_distinct:
  "distinct [pluginFilePath options, typesFilePath options, constantsFilePath options]"
  using path_join_distinct [OF cleanSegment_plugin_file cleanSegment_fixed_files(1) plugin_file_not_types]
    path_join_distinct [OF cleanSegment_plugin_file cleanSegment_fixed_files(2) plugin_file_not_constants]
    path_join_distinct [OF cleanSegment_fixed_files, of "pluginDir options"]
  by (simp add: pluginFilePath_def typesFilePath_def constantsFilePath_def)

section \<open>Facts about the project operations and generation\<close>

lemma emit_fields [simp]:
  "disk (emit e w) = disk w" "project (emit e w) = project w" "trace (emit e w) = trace w @ [e]"
  "cwd (emit e w) = cwd w" "dirname (emit e w) = dirname w" "configPath (emit e w) = configPath w"
  "unsaved (emit e w) = unsaved w"
  by (simp_all add: emit_def)

lemma updateFile_fields [simp]:
  "disk (updateFile h g w) = disk w" "trace (updateFile h g w) = trace w"
  "cwd (updateFile h g w) = cwd w" "dirname (updateFile h g w) = dirname w"
  "configPath (updateFile h g w) = configPath w"
  "length (project (updateFile h g w)) = length (project w)"
  by (simp_all add: updateFile_def)

lemma updateFile_unsaved:
  "h < length (project w) \<Longrightarrow> unsaved (updateFile h g w) = insert h (unsaved w)"
  by (simp add: updateFile_def)

lemma updateFile_paths [simp]: "map fst (project (updateFile h g w)) = map fst (project w)"
  by (auto simp: updateFile_def nth_list_update intro!: nth_equalityI)

lemma move_fields [simp]:
  "disk (move h p w) = disk w" "trace (move h p w) = trace w"
  "cwd (move h p w) = cwd w" "dirname (move h p w) = dirname w"
  "configPath (move h p w) = configPath w"
  "length (project (move h p w)) = length (project w)"
  by (simp_all add: move_def)

lemma move_unsaved: "unsaved w \<subseteq> unsaved (move h p w)"
  by (auto simp: move_def)

lemma move_paths [simp]:
  "h < length (project w) \<Longrightarrow> map fst (project (move h p w)) = (map fst (project w))[h := p]"
  by (simp add: move_def map_update)

lemma getTsMorphProject_fields [simp]:
  "disk (getTsMorphProject w) = disk w" "trace (getTsMorphProject w) = trace w"
  "cwd (getTsMorphProject w) = cwd w" "dirname (getTsMorphProject w) = dirname w"
  "configPath (getTsMorphProject w) = configPath w" "project (getTsMorphProject w) = []"
  "unsaved (getTsMorphProject w) = {}"
  by (simp_all add: getTsMorphProject_def)

lemma createFile_fields [simp]:
  "disk (snd (createFile p w)) = disk w" "trace (snd (createFile p w)) = trace w"
  "cwd (snd (createFile p w)) = cwd w" "dirname (snd (createFile p w)) = dirname w"
  "configPath (snd (createFile p w)) = configPath w"
  by (simp_all add: createFile_def split: option.splits fsEntry.splits)

lemma createFile_frame:
  "createFile p w = (r, w') \<Longrightarrow>
     disk w' = disk w \<and> trace w' = trace w \<and> cwd w' = cwd w \<and> dirname w' = dirname w \<and>
     configPath w' = configPath w \<and>
     (case r of
        Inl e \<Rightarrow> w' = w \<and> e = TemplateUnreadable p \<and> (\<forall>src. disk w p \<noteq> Some (File src))
      | Inr h \<Rightarrow> h = length (project w) \<and>
          (\<exists>src. disk w p = Some (File src) \<and> project w' = project w @ [(p, src)]))"
  by (auto simp: createFile_def split: option.splits fsEntry.splits)

lemma createFile_readable:
  "disk w p = Some (File src) \<Longrightarrow>
     createFile p w =
       (Inr (length (project w)),
        w\<lparr>project := project w @ [(p, src)], unsaved := insert (length (project w)) (unsaved w)\<rparr>)"
  by (simp add: createFile_def)

lemma createFile_unreadable:
  "\<forall>src. disk w p \<noteq> Some (File src) \<Longrightarrow> createFile p w = (Inl (TemplateUnreadable p), w)"
  by (auto simp: createFile_def split: option.splits fsEntry.splits)

lemma renameClass_fields [simp]:
  "disk (renameClass d n w) = disk w" "trace (renameClass d n w) = trace w"
  "cwd (renameClass d n w) = cwd w" "dirname (renameClass d n w) = dirname w"
  "configPath (renameClass d n w) = configPath w"
  "length (project (renameClass d n w)) = length (project w)"
  "map fst (project (renameClass d n w)) = map fst (project w)"
  by (simp_all add: renameClass_def)

lemma setOptionsSymbol_fields [simp]:
  "disk (setOptionsSymbol h c w) = disk w" "trace (setOptionsSymbol h c w) = trace w"
  "cwd (setOptionsSymbol h c w) = cwd w" "dirname (setOptionsSymbol h c w) = dirname w"
  "configPath (setOptionsSymbol h c w) = configPath w"
  "length (project (setOptionsSymbol h c w)) = length (project w)"
  "map fst (project (setOptionsSymbol h c w)) = map fst (project w)"
  by (simp_all add: setOptionsSymbol_def setInitializer_def renameVariable_def split: option.splits)

lemma setOptionsSymbol_unsaved: "unsaved w \<subseteq> unsaved (setOptionsSymbol h c w)"
  by (auto simp: setOptionsSymbol_def setInitializer_def renameVariable_def updateFile_def
      split: option.splits)

lemma setLoggerCtx_fields [simp]:
  "disk (setLoggerCtx h c w) = disk w" "trace (setLoggerCtx h c w) = trace w"
  "cwd (setLoggerCtx h c w) = cwd w" "dirname (setLoggerCtx h c w) = dirname w"
  "configPath (setLoggerCtx h c w) = configPath w"
  "length (project (setLoggerCtx h c w)) = length (project w)"
  "map fst (project (setLoggerCtx h c w)) = map fst (project w)"
  by (simp_all add: setLoggerCtx_def setInitializer_def split: option.splits)

lemma setLoggerCtx_unsaved: "unsaved w \<subseteq> unsaved (setLoggerCtx h c w)"
  by (auto simp: setLoggerCtx_def setInitializer_def updateFile_def split: option.splits)

lemma save_None:
  assumes "save w = (None, w')"
  shows "writeFiles (unsavedFiles w) (disk w) = (None, disk w')"
    and "trace w' = trace w @ [ProjectSaved]" and "project w' = project w"
    and "unsaved w' = {}" and "cwd w' = cwd w" and "dirname w' = dirname w"
    and "configPath w' = configPath w"
  using assms unfolding save_def
  by (auto split: prod.splits option.splits)

lemma save_Some:
  assumes "save w = (Some e, w')"
  shows "flushError e" and "trace w' = trace w" and "project w' = project w"
    and "cwd w' = cwd w" and "dirname w' = dirname w" and "configPath w' = configPath w"
    and "writeFiles (unsavedFiles w) (disk w) = (Some e, disk w')"
  using assms unfolding save_def
  by (auto split: prod.splits option.splits dest: writeFiles_Some)

lemma save_succeeds:
  "writeFiles (unsavedFiles w) (disk w) = (None, d') \<Longrightarrow> \<exists>w'. save w = (None, w')"
  by (simp add: save_def)

lemma indexOf_Some: "indexOf x xs = Some i \<Longrightarrow> i < length xs \<and> xs ! i = x"
  by (induction xs arbitrary: i) (auto split: if_splits)

lemma indexOf_None: "indexOf x xs = None \<longleftrightarrow> x \<notin> set xs"
  by (induction xs) auto

lemma updateFile_other [simp]:
  "h \<noteq> k \<Longrightarrow> project (updateFile h g w) ! k = project w ! k"
  by (simp add: updateFile_def)

lemma setOptionsSymbol_other [simp]:
  "h \<noteq> k \<Longrightarrow> project (setOptionsSymbol h c w) ! k = project w ! k"
  by (simp add: setOptionsSymbol_def setInitializer_def renameVariable_def getVariableDeclaration_def
      split: option.splits)

lemma setLoggerCtx_other [simp]:
  "h \<noteq> k \<Longrightarrow> project (setLoggerCtx h c w) ! k = project w ! k"
  by (simp add: setLoggerCtx_def setInitializer_def getVariableDeclaration_def split: option.splits)

lemma move_snd [simp]: "snd (project (move h p w) ! k) = snd (project w ! k)"
  by (cases "h = k") (auto simp: move_def)

text \<open>With the templates readable and the class present, generation reaches the flush.\<close>

lemma generatePlugin_readable:
  assumes p: "disk w (path_join [dirname w, ''templates/plugin.template.ts'']) = Some (File p)"
    and t: "disk w (path_join [dirname w, ''templates/types.template.ts'']) = Some (File t)"
    and c: "disk w (path_join [dirname w, ''templates/constants.template.ts'']) = Some (File c)"
    and i: "indexOf ''TemplatePlugin'' (classDeclarations p) = Some i"
  shows "generatePlugin options w
           = (case save (prepared options (loadedTemplates options w p t c i)) of
                (Some e, w') \<Rightarrow> (Inl e, w')
              | (None, w') \<Rightarrow> (Inr (VendurePluginRef (0, i)), w'))"
proof -
  have "{Suc (Suc 0), Suc 0, 0} = {0, Suc 0, Suc (Suc 0)}" by auto
  then show ?thesis
    using assms unfolding generatePlugin_def Let_def prepared_def loadedTemplates_def
    by (simp add: createFile_def getClass_def getTsMorphProject_def renameClass_def updateFile_def
        emit_def numeral_2_eq_2)
qed

lemma prepared_fields:
  "trace (prepared options w) = trace w @ [SpinnerStop ''Generated plugin scaffold'']"
  "disk (prepared options w) = disk w"
  "cwd (prepared options w) = cwd w" "dirname (prepared options w) = dirname w"
  "configPath (prepared options w) = configPath w"
  "length (project (prepared options w)) = length (project w)"
  "unsaved w \<subseteq> unsaved (prepared options w)"
  using move_unsaved setOptionsSymbol_unsaved setLoggerCtx_unsaved
  by (simp_all add: prepared_def) blast

lemma prepared_plugin_file:
  "snd (project (prepared options w) ! 0) = snd (project w ! 0)"
  by (simp add: prepared_def)

lemma prepared_paths:
  assumes "length (project w) = 3"
  shows "map fst (project (prepared options w))
     = [pluginFilePath options, typesFilePath options, constantsFilePath options]"
proof -
  obtain a b c where "map fst (project w) = [a, b, c]"
    using assms by (auto simp: length_Suc_conv numeral_3_eq_3)
  then show ?thesis using assms by (simp add: prepared_def)
qed

lemma loadedTemplates_fields:
  "length (project (loadedTemplates options w p t c i)) = 3"
  "disk (loadedTemplates options w p t c i) = disk w"
  "cwd (loadedTemplates options w p t c i) = cwd w"
  "dirname (loadedTemplates options w p t c i) = dirname w"
  "configPath (loadedTemplates options w p t c i) = configPath w"
  "trace (loadedTemplates options w p t c i)
     = trace w @ [SpinnerStart ''Generating plugin scaffold...'']"
  "unsaved (loadedTemplates options w p t c i) = {0, 1, 2}"
  by (simp_all add: loadedTemplates_def)

lemma prepared_unsavedFiles:
  "unsavedFiles (prepared options (loadedTemplates options w p t c i))
     = project (prepared options (loadedTemplates options w p t c i))"
proof (rule unsavedFiles_all, intro allI impI)
  fix k
  assume "k < length (project (prepared options (loadedTemplates options w p t c i)))"
  then have "k < 3" by (simp add: prepared_fields loadedTemplates_fields)
  then have "k \<in> unsaved (loadedTemplates options w p t c i)"
    by (auto simp: loadedTemplates_fields)
  then show "k \<in> unsaved (prepared options (loadedTemplates options w p t c i))"
    using prepared_fields(7) by blast
qed

lemma generatePlugin_plugin_unreadable:
  assumes "\<forall>src. disk w (path_join [dirname w, ''templates/plugin.template.ts'']) \<noteq> Some (File src)"
  shows "generatePlugin options w
           = (Inl (TemplateUnreadable (path_join [dirname w, ''templates/plugin.template.ts''])),
              getTsMorphProject (emit (SpinnerStart ''Generating plugin scaffold...'') w))"
  using assms unfolding generatePlugin_def Let_def
  by (simp add: createFile_unreadable)

lemma generatePlugin_no_class_world:
  assumes p: "disk w (path_join [dirname w, ''templates/plugin.template.ts'']) = Some (File p)"
    and i: "''TemplatePlugin'' \<notin> set (classDeclarations p)"
  shows "\<exists>w'. generatePlugin options w
           = (Inl (Error ''Could not find the plugin class in the generated file''), w') \<and>
           disk w' = disk w \<and> trace w' = trace w @ [SpinnerStart ''Generating plugin scaffold...'']"
  using assms indexOf_None [of "''TemplatePlugin''" "classDeclarations p"]
  unfolding generatePlugin_def Let_def
  by (simp add: createFile_readable getClass_def)

lemma generatePlugin_no_class:
  assumes p: "disk w (path_join [dirname w, ''templates/plugin.template.ts'']) = Some (File p)"
    and i: "''TemplatePlugin'' \<notin> set (classDeclarations p)"
  shows "fst (generatePlugin options w)
           = Inl (Error ''Could not find the plugin class in the generated file'')"
  using generatePlugin_no_class_world [OF assms, of options] by auto

lemma generatePlugin_types_unreadable:
  assumes "disk w (path_join [dirname w, ''templates/plugin.template.ts'']) = Some (File p)"
    and "indexOf ''TemplatePlugin'' (classDeclarations p) = Some i"
    and "\<forall>src. disk w (path_join [dirname w, ''templates/types.template.ts'']) \<noteq> Some (File src)"
  shows "\<exists>w'. generatePlugin options w
           = (Inl (TemplateUnreadable (path_join [dirname w, ''templates/types.template.ts''])), w') \<and>
           disk w' = disk w \<and> trace w' = trace w @ [SpinnerStart ''Generating plugin scaffold...'']"
  using assms unfolding generatePlugin_def Let_def
  by (simp add: createFile_unreadable createFile_readable getClass_def)

lemma generatePlugin_constants_unreadable:
  assumes "disk w (path_join [dirname w, ''templates/plugin.template.ts'']) = Some (File p)"
    and "indexOf ''TemplatePlugin'' (classDeclarations p) = Some i"
    and "disk w (path_join [dirname w, ''templates/types.template.ts'']) = Some (File t)"
    and "\<forall>src. disk w (path_join [dirname w, ''templates/constants.template.ts'']) \<noteq> Some (File src)"
  shows "\<exists>w'. generatePlugin options w
           = (Inl (TemplateUnreadable (path_join [dirname w, ''templates/constants.template.ts''])), w') \<and>
           disk w' = disk w \<and> trace w' = trace w @ [SpinnerStart ''Generating plugin scaffold...'']"
  using assms unfolding generatePlugin_def Let_def
  by (simp add: createFile_unreadable createFile_readable getClass_def)

lemma generatePlugin_Inr_readable:
  assumes "generatePlugin options w = (Inr plugin, w')"
  shows "\<exists>p t c i.
           disk w (path_join [dirname w, ''templates/plugin.template.ts'']) = Some (File p) \<and>
           disk w (path_join [dirname w, ''templates/types.template.ts'']) = Some (File t) \<and>
           disk w (path_join [dirname w, ''templates/constants.template.ts'']) = Some (File c) \<and>
           indexOf ''TemplatePlugin'' (classDeclarations p) = Some i"
proof -
  have ok: "fst (generatePlugin options w) = Inr plugin" using assms by simp
  obtain p where p: "disk w (path_join [dirname w, ''templates/plugin.template.ts'']) = Some (File p)"
    using generatePlugin_plugin_unreadable [of w options] ok by (metis Inl_Inr_False fst_conv)
  obtain i where i: "indexOf ''TemplatePlugin'' (classDeclarations p) = Some i"
    using generatePlugin_no_class [OF p, of options] ok indexOf_None [of "''TemplatePlugin''" "classDeclarations p"]
    by (cases "indexOf ''TemplatePlugin'' (classDeclarations p)") auto
  obtain t where t: "disk w (path_join [dirname w, ''templates/types.template.ts'']) = Some (File t)"
    using generatePlugin_types_unreadable [OF p i, of options] ok by (metis Inl_Inr_False fst_conv)
  obtain c where c: "disk w (path_join [dirname w, ''templates/constants.template.ts'']) = Some (File c)"
    using generatePlugin_constants_unreadable [OF p i t, of options] ok by (metis Inl_Inr_False fst_conv)
  show ?thesis using p i t c by blast
qed

text \<open>
  A failure of generation is either a failure before the flush, which leaves the disk
  as it was, or a failure of the flush itself, which comes after the spinner has
  stopped and touches nothing but the three paths and the directories above them.
\<close>

lemma generatePlugin_Inl:
  assumes g: "generatePlugin options w = (Inl e, w')"
  shows "(\<not> flushError e \<and> disk w' = disk w \<and>
          trace w' = trace w @ [SpinnerStart ''Generating plugin scaffold...'']) \<or>
         (flushError e \<and>
          trace w' = trace w @ [SpinnerStart ''Generating plugin scaffold...'',
                                SpinnerStop ''Generated plugin scaffold''] \<and>
          (\<forall>q. q \<notin> {pluginFilePath options, typesFilePath options, constantsFilePath options} \<and>
               (\<forall>r \<in> {pluginFilePath options, typesFilePath options, constantsFilePath options}.
                  q \<notin> set (parentDirs r)) \<longrightarrow>
             disk w' q = disk w q))"
proof (cases "\<exists>p. disk w (path_join [dirname w, ''templates/plugin.template.ts'']) = Some (File p)")
  case False
  then show ?thesis
    using generatePlugin_plugin_unreadable [of w options] g by (auto simp: flushError_def)
next
  case True
  then obtain p where p: "disk w (path_join [dirname w, ''templates/plugin.template.ts'']) = Some (File p)"
    by blast
  show ?thesis
  proof (cases "indexOf ''TemplatePlugin'' (classDeclarations p)")
    case None
    then have "''TemplatePlugin'' \<notin> set (classDeclarations p)" by (simp add: indexOf_None)
    from generatePlugin_no_class_world [OF p this, of options] show ?thesis
      using g by (auto simp: flushError_def)
  next
    case (Some i)
    show ?thesis
    proof (cases "\<exists>t. disk w (path_join [dirname w, ''templates/types.template.ts'']) = Some (File t)")
      case False
      then show ?thesis
        using generatePlugin_types_unreadable [OF p Some, of options] g by (auto simp: flushError_def)
    next
      case True
      then obtain t where t: "disk w (path_join [dirname w, ''templates/types.template.ts'']) = Some (File t)"
        by blast
      show ?thesis
      proof (cases "\<exists>c. disk w (path_join [dirname w, ''templates/constants.template.ts'']) = Some (File c)")
        case False
        then show ?thesis
          using generatePlugin_constants_unreadable [OF p Some t, of options] g
          by (auto simp: flushError_def)
      next
        case True
        then obtain c where
          c: "disk w (path_join [dirname w, ''templates/constants.template.ts'']) = Some (File c)"
          by blast
        let ?l = "loadedTemplates options w p t c i"
        let ?q = "prepared options ?l"
        have s: "save ?q = (Some e, w')"
          using generatePlugin_readable [OF p t c Some, of options] g
          by (cases "save ?q" rule: prod.exhaust) (auto split: option.splits)
        have paths: "fst ` set (project ?q)
                 = {pluginFilePath options, typesFilePath options, constantsFilePath options}"
          using prepared_paths [of ?l options]
          by (simp add: loadedTemplates_fields flip: set_map)
        have wf: "writeFiles (project ?q) (disk w) = (Some e, disk w')"
          using save_Some(7) [OF s]
          by (simp add: prepared_unsavedFiles prepared_fields loadedTemplates_fields)
        have "\<forall>q. q \<notin> {pluginFilePath options, typesFilePath options, constantsFilePath options} \<and>
               (\<forall>r \<in> {pluginFilePath options, typesFilePath options, constantsFilePath options}.
                  q \<notin> set (parentDirs r)) \<longrightarrow>
             disk w' q = disk w q"
          using writeFiles_frame_any [OF wf] unfolding paths by blast
        then show ?thesis
          using save_Some(1,2) [OF s] by (simp add: prepared_fields loadedTemplates_fields)
      qed
    qed
  qed
qed

text \<open>What a successful generation leaves behind.\<close>

lemma generatePlugin_Inr:
  assumes "generatePlugin options w = (Inr plugin, w')"
  shows "trace w' = trace w @ [SpinnerStart ''Generating plugin scaffold...'',
                                SpinnerStop ''Generated plugin scaffold'', ProjectSaved]"
    and "map fst (project w') = [pluginFilePath options, typesFilePath options, constantsFilePath options]"
    and "writeFiles (project w') (disk w) = (None, disk w')"
    and "getSourceFile plugin = 0"
    and "pluginRefName plugin w' = pluginName (templateContext options)"
    and "cwd w' = cwd w" and "dirname w' = dirname w" and "configPath w' = configPath w"
    and "unsaved w' = {}" and "length (project w') = 3"
proof -
  obtain p t c i where
    r: "disk w (path_join [dirname w, ''templates/plugin.template.ts'']) = Some (File p)"
       "disk w (path_join [dirname w, ''templates/types.template.ts'']) = Some (File t)"
       "disk w (path_join [dirname w, ''templates/constants.template.ts'']) = Some (File c)"
       "indexOf ''TemplatePlugin'' (classDeclarations p) = Some i"
    using generatePlugin_Inr_readable [OF assms] by blast
  let ?l = "loadedTemplates options w p t c i"
  let ?q = "prepared options ?l"
  have eq: "plugin = VendurePluginRef (0, i)" and s: "save ?q = (None, w')"
    using generatePlugin_readable [OF r, of options] assms
    by (cases "save ?q" rule: prod.exhaust; auto split: option.splits)+
  note l = loadedTemplates_fields
  note q = prepared_fields
  note sv = save_None [OF s]
  show "trace w' = trace w @ [SpinnerStart ''Generating plugin scaffold...'',
                                SpinnerStop ''Generated plugin scaffold'', ProjectSaved]"
    by (simp add: sv(2) q(1) l(6))
  show "map fst (project w') = [pluginFilePath options, typesFilePath options, constantsFilePath options]"
    by (simp add: sv(3) prepared_paths l(1))
  show "writeFiles (project w') (disk w) = (None, disk w')"
    using sv(1) by (simp add: sv(3) prepared_unsavedFiles q(2) l(2))
  show "getSourceFile plugin = 0"
    by (simp add: eq getSourceFile_def)
  have "snd (project ?l ! 0)
          = p\<lparr>classDeclarations := (classDeclarations p)[i := pluginName (templateContext options)]\<rparr>"
    by (simp add: loadedTemplates_def)
  then show "pluginRefName plugin w' = pluginName (templateContext options)"
    using indexOf_Some [OF r(4)]
    by (simp add: eq pluginRefName_def sv(3) prepared_plugin_file)
  show "cwd w' = cwd w" "dirname w' = dirname w" "configPath w' = configPath w"
    by (simp_all add: sv q l)
  show "unsaved w' = {}" by (rule sv(4))
  show "length (project w') = 3" by (simp add: sv(3) q(6) l(1))
qed

text \<open>The disk after a successful generation.\<close>

lemma generatePlugin_Inr_disk:
  assumes g: "generatePlugin options w = (Inr plugin, w')"
  shows "\<forall>k < 3. disk w' (fst (project w' ! k)) = Some (File (snd (project w' ! k)))"
    and "\<forall>k < 3. \<forall>a \<in> set (parentDirs (fst (project w' ! k))).
            \<not> isFile (disk w (fst (project w' ! k))) \<longrightarrow> disk w' a = Some Directory"
    and "\<forall>q. q \<notin> set (map fst (project w')) \<and>
              (\<forall>p \<in> set (map fst (project w')). q \<notin> set (parentDirs p)) \<longrightarrow> disk w' q = disk w q"
proof -
  note r = generatePlugin_Inr [OF g]
  have d: "distinct (map fst (project w'))"
    using generated_paths_distinct [of options] by (simp add: r(2))
  have mem: "\<And>k. k < 3 \<Longrightarrow> project w' ! k \<in> set (project w')"
    using r(10) by simp
  show "\<forall>k < 3. disk w' (fst (project w' ! k)) = Some (File (snd (project w' ! k)))"
  proof (intro allI impI)
    fix k :: nat
    assume "k < 3"
    then have "(fst (project w' ! k), snd (project w' ! k)) \<in> set (project w')"
      using mem by simp
    from writeFiles_written [OF r(3) d this]
    show "disk w' (fst (project w' ! k)) = Some (File (snd (project w' ! k)))" .
  qed
  show "\<forall>k < 3. \<forall>a \<in> set (parentDirs (fst (project w' ! k))).
            \<not> isFile (disk w (fst (project w' ! k))) \<longrightarrow> disk w' a = Some Directory"
  proof (intro allI impI ballI)
    fix k :: nat and a
    assume k: "k < 3" and a: "a \<in> set (parentDirs (fst (project w' ! k)))"
      and n: "\<not> isFile (disk w (fst (project w' ! k)))"
    have "fst (project w' ! k) \<in> fst ` set (project w')" using mem [OF k] by blast
    from writeFiles_dirs [OF r(3) this n a] show "disk w' a = Some Directory" .
  qed
  show "\<forall>q. q \<notin> set (map fst (project w')) \<and>
              (\<forall>p \<in> set (map fst (project w')). q \<notin> set (parentDirs p)) \<longrightarrow> disk w' q = disk w q"
    using writeFiles_frame [OF r(3)] by simp
qed

section \<open>Facts about the prompts\<close>

lemma textLoop_rejected:
  "list_all (rejectedBy validate) rejected \<Longrightarrow>
   textLoop validate (rejected @ rest) w
     = textLoop validate rest (w\<lparr>trace := trace w @ notesOf validate rejected\<rparr>)"
proof (induction rejected arbitrary: w)
  case Nil
  show ?case by (simp add: notesOf_def)
next
  case (Cons a rejected)
  then obtain input problem where a: "a = Submit input" "validate input = Some problem"
    by (cases a) (auto simp: rejectedBy_def)
  have "textLoop validate ((a # rejected) @ rest) w
          = textLoop validate (rejected @ rest) (emit (ValidationNote problem) w)"
    by (simp add: a)
  also have "\<dots> = textLoop validate rest
      ((emit (ValidationNote problem) w)\<lparr>trace := trace (emit (ValidationNote problem) w) @ notesOf validate rejected\<rparr>)"
    using Cons by simp
  also have "(emit (ValidationNote problem) w)\<lparr>trace := trace (emit (ValidationNote problem) w) @ notesOf validate rejected\<rparr>
      = w\<lparr>trace := trace w @ notesOf validate (a # rejected)\<rparr>"
    by (simp add: emit_def notesOf_def a)
  finally show ?case .
qed

lemma textLoop_frame:
  "textLoop validate answers w = (r, w') \<Longrightarrow>
     disk w' = disk w \<and> project w' = project w \<and> cwd w' = cwd w \<and> dirname w' = dirname w \<and>
     configPath w' = configPath w \<and>
     (\<exists>ns. trace w' = trace w @ map ValidationNote ns)"
proof (induction validate answers w arbitrary: r w' rule: textLoop.induct)
  case (1 validate w)
  then show ?case by (auto intro: exI [of _ "[]"])
next
  case (2 validate rest w)
  then show ?case by (auto intro: exI [of _ "[]"])
next
  case (3 validate input rest w)
  show ?case
  proof (cases "validate input")
    case None
    with 3 show ?thesis by (auto intro: exI [of _ "[]"])
  next
    case (Some problem)
    with 3(2) have "textLoop validate rest (emit (ValidationNote problem) w) = (r, w')" by simp
    from 3(1) [OF Some this] obtain ns where
      "disk w' = disk w" "project w' = project w" "cwd w' = cwd w" "dirname w' = dirname w"
      "configPath w' = configPath w" "trace w' = trace w @ ValidationNote problem # map ValidationNote ns"
      by (auto simp: emit_def)
    then show ?thesis by (auto intro: exI [of _ "problem # ns"])
  qed
qed

lemma textLoop_Submit:
  "textLoop validate answers w = (Some (Submit input), w') \<Longrightarrow>
     validate input = None \<and> Submit input \<in> set answers"
proof (induction validate answers w rule: textLoop.induct)
  case (3 validate input' rest w)
  then show ?case by (cases "validate input'") auto
qed auto

lemma existsSync_frame: "disk w' = disk w \<Longrightarrow> existsSync w' = existsSync w"
  by (rule ext) (simp add: existsSync_def)

lemma validateLocation_frame: "disk w' = disk w \<Longrightarrow> validateLocation w' = validateLocation w"
  using existsSync_frame [of w' w] by (auto simp: validateLocation_def fun_eq_iff)

lemma getPluginDirName_frame:
  "disk w' = disk w \<Longrightarrow> cwd w' = cwd w \<Longrightarrow> getPluginDirName w' n = getPluginDirName w n"
  using existsSync_frame [of w' w] by (simp add: getPluginDirName_def Let_def)

lemma validateName_None: "validateName input = None \<longleftrightarrow> validName input"
  by (simp add: validateName_def)

lemma validateLocation_None: "validateLocation w input = None \<longleftrightarrow> \<not> existsSync w input"
  by (simp add: validateLocation_def)

lemma collectOptions_unfold:
  "collectOptions user w =
     (case askName user w of
        (None, w2) \<Rightarrow> Inl (AwaitingInput, w2)
      | (Some Cancel, w2) \<Rightarrow> Inl (Exit 0, emit (CancelNote cancelledMessage) w2)
      | (Some (Submit n), w2) \<Rightarrow>
          (case askLocation user n w2 of
             (None, w3) \<Rightarrow> Inl (AwaitingInput, w3)
           | (Some Cancel, w3) \<Rightarrow> Inl (Exit 0, emit (CancelNote cancelledMessage) w3)
           | (Some (Submit d), w3) \<Rightarrow>
               Inr (\<lparr>name = n, customEntityName = [], pluginDir = d\<rparr>, w3)))"
proof -
  obtain r w2 where a: "askName user w = (r, w2)"
    by (cases "askName user w")
  note a' = a [unfolded askName_def]
  show ?thesis
  proof (cases r)
    case None
    then show ?thesis using a a' by (simp add: collectOptions_def)
  next
    case (Some ans)
    show ?thesis
    proof (cases ans)
      case Cancel
      then show ?thesis using a a' Some by (simp add: collectOptions_def)
    next
      case (Submit n)
      obtain r' w3 where l: "askLocation user n w2 = (r', w3)"
        by (cases "askLocation user n w2")
      note l' = l [unfolded askLocation_def]
      show ?thesis
      proof (cases r')
        case None
        then show ?thesis using a a' Some Submit l l' by (simp add: collectOptions_def)
      next
        case (Some ans')
        then show ?thesis using a a' \<open>r = Some ans\<close> Submit l l'
          by (cases ans') (simp_all add: collectOptions_def)
      qed
    qed
  qed
qed

lemma askName_frame:
  "askName user w = (r, w') \<Longrightarrow>
     disk w' = disk w \<and> project w' = project w \<and> cwd w' = cwd w \<and> dirname w' = dirname w \<and>
     configPath w' = configPath w \<and>
     (\<exists>ns. trace w' = trace w @ Intro ''Adding a new Vendure plugin!''
              # TextPrompt ''What is the name of the plugin?'' [] # map ValidationNote ns)"
  unfolding askName_def textPrompt_def by (auto dest!: textLoop_frame)

lemma askLocation_frame:
  "askLocation user n w = (r, w') \<Longrightarrow>
     disk w' = disk w \<and> project w' = project w \<and> cwd w' = cwd w \<and> dirname w' = dirname w \<and>
     configPath w' = configPath w \<and>
     (\<exists>ns. trace w' = trace w @ TextPrompt ''Plugin location'' (getPluginDirName w n)
              # map ValidationNote ns)"
  unfolding askLocation_def textPrompt_def by (auto dest!: textLoop_frame)

lemma askName_Submit:
  "askName user w = (Some (Submit n), w') \<Longrightarrow> validName n \<and> Submit n \<in> set (nameAnswers user)"
  unfolding askName_def textPrompt_def by (auto dest!: textLoop_Submit simp: validateName_None)

lemma askLocation_Submit:
  "askLocation user n w = (Some (Submit d), w') \<Longrightarrow>
     \<not> existsSync w d \<and> Submit d \<in> set (locationAnswers user)"
  unfolding askLocation_def textPrompt_def by (auto dest!: textLoop_Submit simp: validateLocation_None)

lemma collectOptions_Inr:
  assumes "collectOptions user w = Inr (options, w')"
  shows "validName (name options)" and "\<not> existsSync w (pluginDir options)"
    and "Submit (name options) \<in> set (nameAnswers user)"
    and "Submit (pluginDir options) \<in> set (locationAnswers user)"
    and "disk w' = disk w" and "project w' = project w" and "cwd w' = cwd w"
    and "dirname w' = dirname w" and "configPath w' = configPath w"
proof -
  obtain n w2 d where n: "askName user w = (Some (Submit n), w2)"
    and d: "askLocation user n w2 = (Some (Submit d), w')"
    and o: "options = \<lparr>name = n, customEntityName = [], pluginDir = d\<rparr>"
    using assms unfolding collectOptions_unfold
    by (auto split: prod.splits option.splits answer.splits)
  note f1 = askName_frame [OF n] and f2 = askLocation_frame [OF d]
  show "validName (name options)" "Submit (name options) \<in> set (nameAnswers user)"
    using askName_Submit [OF n] o by simp_all
  show "\<not> existsSync w (pluginDir options)" "Submit (pluginDir options) \<in> set (locationAnswers user)"
    using askLocation_Submit [OF d] o f1 existsSync_frame [of w2 w] by simp_all
  show "disk w' = disk w" "project w' = project w" "cwd w' = cwd w"
    "dirname w' = dirname w" "configPath w' = configPath w"
    using f1 f2 by simp_all
qed

lemma collectOptions_Inl:
  assumes "collectOptions user w = Inl (out, w')"
  shows "out = AwaitingInput \<or> (out = Exit 0 \<and> last (trace w') = CancelNote cancelledMessage)"
    and "disk w' = disk w" and "project w' = project w"
proof -
  have "(out = AwaitingInput \<or> (out = Exit 0 \<and> last (trace w') = CancelNote cancelledMessage)) \<and>
        disk w' = disk w \<and> project w' = project w"
    using assms unfolding collectOptions_unfold
    by (auto split: prod.splits option.splits answer.splits
        dest!: askName_frame askLocation_frame)
  then show "out = AwaitingInput \<or> (out = Exit 0 \<and> last (trace w') = CancelNote cancelledMessage)"
    and "disk w' = disk w" and "project w' = project w"
    by simp_all
qed

lemma askName_cancel:
  assumes "nameAnswers user = rejected @ Cancel # rest"
    and "list_all (rejectedBy validateName) rejected"
  shows "askName user w =
           (Some Cancel,
            w\<lparr>trace := trace w @ [Intro ''Adding a new Vendure plugin!'',
                                  TextPrompt ''What is the name of the plugin?'' []]
                         @ notesOf validateName rejected\<rparr>)"
  using assms textLoop_rejected [OF assms(2), of "Cancel # rest"]
  by (simp add: askName_def textPrompt_def emit_def)

lemma askName_submit:
  assumes "nameAnswers user = rejected @ Submit n # rest"
    and "list_all (rejectedBy validateName) rejected" and "validName n"
  shows "askName user w =
           (Some (Submit n),
            w\<lparr>trace := trace w @ [Intro ''Adding a new Vendure plugin!'',
                                  TextPrompt ''What is the name of the plugin?'' []]
                         @ notesOf validateName rejected\<rparr>)"
  using assms textLoop_rejected [OF assms(2), of "Submit n # rest"]
  by (simp add: askName_def textPrompt_def emit_def validateName_def)

lemma askLocation_cancel:
  assumes "locationAnswers user = rejected @ Cancel # rest"
    and "list_all (rejectedBy (validateLocation w)) rejected"
  shows "askLocation user n w =
           (Some Cancel,
            w\<lparr>trace := trace w @ [TextPrompt ''Plugin location'' (getPluginDirName w n)]
                         @ notesOf (validateLocation w) rejected\<rparr>)"
  using assms textLoop_rejected [OF assms(2), of "Cancel # rest"]
  by (simp add: askLocation_def textPrompt_def emit_def)

lemma askLocation_submit:
  assumes "locationAnswers user = rejected @ Submit d # rest"
    and "list_all (rejectedBy (validateLocation w)) rejected" and "\<not> existsSync w d"
  shows "askLocation user n w =
           (Some (Submit d),
            w\<lparr>trace := trace w @ [TextPrompt ''Plugin location'' (getPluginDirName w n)]
                         @ notesOf (validateLocation w) rejected\<rparr>)"
  using assms textLoop_rejected [OF assms(2), of "Submit d # rest"]
  by (simp add: askLocation_def textPrompt_def emit_def validateLocation_def)

lemma createNewPlugin_stop:
  "collectOptions user w = Inl stop \<Longrightarrow> createNewPlugin gens user w = stop"
  by (simp add: createNewPlugin_def)

section \<open>Cancellation at the name prompt\<close>

text \<open>
  Claim C9. When the user cancels at the name prompt, after any number of rejected
  names, the process exits with code 0; the disk and the project are as before, and
  the only things that have happened are the greeting, the prompt, the validation
  messages and the cancellation message: no template is loaded, nothing is saved.
\<close>

theorem cancel_at_name_prompt_writes_nothing:
  assumes "nameAnswers user = rejected @ Cancel # rest"
    and "list_all (rejectedBy validateName) rejected"
  shows "fst (createNewPlugin gens user w) = Exit 0 \<and>
         disk (snd (createNewPlugin gens user w)) = disk w \<and>
         project (snd (createNewPlugin gens user w)) = project w \<and>
         trace (snd (createNewPlugin gens user w))
           = trace w @ [Intro ''Adding a new Vendure plugin!'',
                        TextPrompt ''What is the name of the plugin?'' []]
               @ notesOf validateName rejected @ [CancelNote cancelledMessage]"
proof -
  have "collectOptions user w =
          Inl (Exit 0, emit (CancelNote cancelledMessage)
            (w\<lparr>trace := trace w @ [Intro ''Adding a new Vendure plugin!'',
                                  TextPrompt ''What is the name of the plugin?'' []]
                         @ notesOf validateName rejected\<rparr>))"
    by (simp add: collectOptions_unfold askName_cancel [OF assms])
  then show ?thesis
    by (simp add: createNewPlugin_stop emit_def)
qed

theorem cancel_at_name_prompt_writes_nothing_witness:
  "fst (createNewPlugin noGenerators
          \<lparr>nameAnswers = [Submit ''Reviews'', Cancel], locationAnswers = [], featureAnswers = []\<rparr>
          exampleWorld) = Exit 0 \<and>
   disk (snd (createNewPlugin noGenerators
          \<lparr>nameAnswers = [Submit ''Reviews'', Cancel], locationAnswers = [], featureAnswers = []\<rparr>
          exampleWorld)) = exampleDisk \<and>
   project (snd (createNewPlugin noGenerators
          \<lparr>nameAnswers = [Submit ''Reviews'', Cancel], locationAnswers = [], featureAnswers = []\<rparr>
          exampleWorld)) = [] \<and>
   trace (snd (createNewPlugin noGenerators
          \<lparr>nameAnswers = [Submit ''Reviews'', Cancel], locationAnswers = [], featureAnswers = []\<rparr>
          exampleWorld))
     = [Intro ''Adding a new Vendure plugin!'',
        TextPrompt ''What is the name of the plugin?'' [],
        ValidationNote ''The plugin name must be lowercase and contain only letters, numbers and dashes'',
        CancelNote ''Plugin setup cancelled.'']"
proof -
  have inv: "\<not> validName ''Reviews''"
    by (simp add: validName_def char_class_defs)
  then have r: "list_all (rejectedBy validateName) [Submit ''Reviews'']"
    by (simp add: rejectedBy_def validateName_def)
  have n: "notesOf validateName [Submit ''Reviews'']
     = [ValidationNote ''The plugin name must be lowercase and contain only letters, numbers and dashes'']"
    using inv by (simp add: notesOf_def validateName_def)
  show ?thesis
    using cancel_at_name_prompt_writes_nothing
      [of "\<lparr>nameAnswers = [Submit ''Reviews'', Cancel], locationAnswers = [], featureAnswers = []\<rparr>"
          "[Submit ''Reviews'']" "[]" noGenerators exampleWorld] r n
    by (simp add: exampleWorld_def cancelledMessage_def)
qed

lemma askLocation_existing:
  assumes "locationAnswers user = Submit d # rest" and "existsSync w d"
  shows "askLocation user n w =
           textLoop (validateLocation w) rest
             (emit (ValidationNote (''A directory named '' @ [CHR 0x22] @ d @ [CHR 0x22]
                      @ '' already exists. Please specify a different directory.''))
                (emit (TextPrompt ''Plugin location'' (getPluginDirName w n)) w))"
  using assms by (simp add: askLocation_def textPrompt_def validateLocation_def)

lemma collectOptions_all_existing:
  assumes "list_all (rejectedBy (validateLocation w)) (locationAnswers user)"
  shows "\<exists>out w'. collectOptions user w = Inl (out, w')"
proof (cases "collectOptions user w")
  case (Inl stop)
  then show ?thesis by (cases stop) auto
next
  case (Inr go)
  obtain options w' where go: "go = (options, w')" by (cases go)
  have "Submit (pluginDir options) \<in> set (locationAnswers user)" "\<not> existsSync w (pluginDir options)"
    using collectOptions_Inr [OF Inr [unfolded go]] by simp_all
  then have False
    using assms by (auto simp: list_all_iff rejectedBy_def validateLocation_None)
  then show ?thesis ..
qed

section \<open>The directory prompt\<close>

text \<open>
  Claim C8. At the directory prompt a path that exists on disk is rejected with a
  message and the prompt goes on with the next answer. Generation only ever receives a
  directory that does not exist; the two prompts end in the options, in a wait for
  input or in the exit after a cancellation, never in an error; and as long as every
  answer names an existing path the command does not get past the prompt and leaves the
  disk as it is.
\<close>

theorem existing_directory_is_rejected:
  "(locationAnswers user = Submit d # rest \<and> existsSync w d \<longrightarrow>
      askLocation user n w =
        textLoop (validateLocation w) rest
          (emit (ValidationNote (''A directory named '' @ [CHR 0x22] @ d @ [CHR 0x22]
                   @ '' already exists. Please specify a different directory.''))
             (emit (TextPrompt ''Plugin location'' (getPluginDirName w n)) w))) \<and>
   (\<forall>options w'. collectOptions user w = Inr (options, w') \<longrightarrow>
      \<not> existsSync w (pluginDir options) \<and> disk w' = disk w) \<and>
   (\<forall>out w'. collectOptions user w = Inl (out, w') \<longrightarrow> out = AwaitingInput \<or> out = Exit 0) \<and>
   (list_all (rejectedBy (validateLocation w)) (locationAnswers user) \<longrightarrow>
      (fst (createNewPlugin gens user w) = AwaitingInput \<or>
       fst (createNewPlugin gens user w) = Exit 0) \<and>
      disk (snd (createNewPlugin gens user w)) = disk w \<and>
      project (snd (createNewPlugin gens user w)) = project w)"
proof (intro conjI impI allI)
  assume "locationAnswers user = Submit d # rest \<and> existsSync w d"
  then show "askLocation user n w =
        textLoop (validateLocation w) rest
          (emit (ValidationNote (''A directory named '' @ [CHR 0x22] @ d @ [CHR 0x22]
                   @ '' already exists. Please specify a different directory.''))
             (emit (TextPrompt ''Plugin location'' (getPluginDirName w n)) w))"
    using askLocation_existing by blast
next
  fix options w'
  assume "collectOptions user w = Inr (options, w')"
  then show "\<not> existsSync w (pluginDir options)" "disk w' = disk w"
    using collectOptions_Inr by blast+
next
  fix out w'
  assume "collectOptions user w = Inl (out, w')"
  then show "out = AwaitingInput \<or> out = Exit 0"
    using collectOptions_Inl(1) by blast
next
  assume "list_all (rejectedBy (validateLocation w)) (locationAnswers user)"
  then obtain out w' where c: "collectOptions user w = Inl (out, w')"
    using collectOptions_all_existing by blast
  then have r: "createNewPlugin gens user w = (out, w')"
    by (simp add: createNewPlugin_stop)
  show "fst (createNewPlugin gens user w) = AwaitingInput \<or>
       fst (createNewPlugin gens user w) = Exit 0"
    using collectOptions_Inl(1) [OF c] r by auto
  show "disk (snd (createNewPlugin gens user w)) = disk w"
    using collectOptions_Inl(2) [OF c] r by simp
  show "project (snd (createNewPlugin gens user w)) = project w"
    using collectOptions_Inl(3) [OF c] r by simp
qed

theorem existing_directory_is_rejected_witness:
  "existsSync exampleWorld ''/app'' \<and>
   (fst (createNewPlugin noGenerators
           \<lparr>nameAnswers = [Submit ''reviews''], locationAnswers = [Submit ''/app''],
             featureAnswers = []\<rparr> exampleWorld) = AwaitingInput \<or>
    fst (createNewPlugin noGenerators
           \<lparr>nameAnswers = [Submit ''reviews''], locationAnswers = [Submit ''/app''],
             featureAnswers = []\<rparr> exampleWorld) = Exit 0) \<and>
   disk (snd (createNewPlugin noGenerators
           \<lparr>nameAnswers = [Submit ''reviews''], locationAnswers = [Submit ''/app''],
             featureAnswers = []\<rparr> exampleWorld)) = exampleDisk"
proof -
  let ?u = "\<lparr>nameAnswers = [Submit ''reviews''], locationAnswers = [Submit ''/app''],
             featureAnswers = []\<rparr>"
  have e: "existsSync exampleWorld ''/app''"
    by (simp add: existsSync_def exampleWorld_def exampleDisk_def)
  then have r: "list_all (rejectedBy (validateLocation exampleWorld)) (locationAnswers ?u)"
    by (simp add: rejectedBy_def validateLocation_def)
  show ?thesis
    using existing_directory_is_rejected [where user = ?u and w = exampleWorld
        and gens = noGenerators, THEN conjunct2, THEN conjunct2, THEN conjunct2] r e
    by (simp add: exampleWorld_def)
qed

section \<open>Facts about the success of the flush\<close>

lemma dirsOf_split:
  "a \<in> set (dirsOf acc r) \<Longrightarrow> \<exists>r1 r2. r = r1 @ CHR ''/'' # r2 \<and> a = acc @ r1"
proof (induction r arbitrary: acc)
  case Nil
  then show ?case by simp
next
  case (Cons c r)
  show ?case
  proof (cases "a \<in> set (dirsOf (acc @ [c]) r)")
    case True
    from Cons.IH [OF this] obtain r1 r2 where "r = r1 @ CHR ''/'' # r2" "a = (acc @ [c]) @ r1"
      by blast
    then have "c # r = (c # r1) @ CHR ''/'' # r2" "a = acc @ (c # r1)" by simp_all
    then show ?thesis by blast
  next
    case False
    then have "c = CHR ''/''" "a = acc" using Cons.prems by (auto split: if_splits)
    then have "c # r = [] @ CHR ''/'' # r" "a = acc @ []" by simp_all
    then show ?thesis by blast
  qed
qed

lemma parentDirs_split: "a \<in> set (parentDirs p) \<Longrightarrow> \<exists>r. p = a @ CHR ''/'' # r"
  using dirsOf_split [of a "[]" p] by (auto simp: parentDirs_def)

lemma generated_paths_no_parent:
  assumes "p \<in> {pluginFilePath options, typesFilePath options, constantsFilePath options}"
    and "a \<in> set (parentDirs p)"
  shows "a \<notin> {pluginFilePath options, typesFilePath options, constantsFilePath options}"
proof
  assume a: "a \<in> {pluginFilePath options, typesFilePath options, constantsFilePath options}"
  obtain pre where pre: "\<forall>x. cleanSegment x \<longrightarrow> path_join [pluginDir options, x] = pre @ x"
    using path_join_clean_last by blast
  note cl = cleanSegment_plugin_file cleanSegment_fixed_files
  obtain x where x: "cleanSegment x" "p = pre @ x"
    using assms(1) pre cl by (auto simp: pluginFilePath_def typesFilePath_def constantsFilePath_def)
  obtain y where y: "cleanSegment y" "a = pre @ y"
    using a pre cl by (auto simp: pluginFilePath_def typesFilePath_def constantsFilePath_def)
  obtain r where "p = a @ CHR ''/'' # r" using parentDirs_split [OF assms(2)] by blast
  then have "x = y @ CHR ''/'' # r" using x(2) y(2) by simp
  then have "CHR ''/'' \<in> set x" by simp
  then show False using x(1) by (simp add: cleanSegment_def)
qed

text \<open>
  Generation succeeds when the templates are readable, the class is there, none of
  the three paths is a directory and nothing above them is a regular file.
\<close>

lemma generatePlugin_succeeds:
  assumes p: "disk w (path_join [dirname w, ''templates/plugin.template.ts'']) = Some (File p)"
    and t: "disk w (path_join [dirname w, ''templates/types.template.ts'']) = Some (File t)"
    and c: "disk w (path_join [dirname w, ''templates/constants.template.ts'']) = Some (File c)"
    and i: "indexOf ''TemplatePlugin'' (classDeclarations p) = Some i"
    and free: "\<forall>q \<in> {pluginFilePath options, typesFilePath options, constantsFilePath options}.
                 disk w q \<noteq> Some Directory \<and> (\<forall>a \<in> set (parentDirs q). \<not> isFile (disk w a))"
  shows "\<exists>w'. generatePlugin options w = (Inr (VendurePluginRef (0, i)), w')"
proof -
  let ?q = "prepared options (loadedTemplates options w p t c i)"
  have paths: "fst ` set (project ?q)
                 = {pluginFilePath options, typesFilePath options, constantsFilePath options}"
    using prepared_paths [of "loadedTemplates options w p t c i" options]
    by (simp add: loadedTemplates_fields flip: set_map)
  have "\<forall>q \<in> fst ` set (project ?q).
          (\<forall>a \<in> set (parentDirs q). \<not> isFile (disk w a) \<and> a \<notin> fst ` set (project ?q)) \<and>
          disk w q \<noteq> Some Directory"
    unfolding paths using free generated_paths_no_parent [of _ options] by blast
  from writeFiles_succeeds [OF this] obtain d' where "writeFiles (project ?q) (disk w) = (None, d')"
    by blast
  then have "writeFiles (unsavedFiles ?q) (disk ?q) = (None, d')"
    by (simp add: prepared_unsavedFiles prepared_fields loadedTemplates_fields)
  from save_succeeds [OF this] obtain w' where "save ?q = (None, w')" by blast
  then show ?thesis using generatePlugin_readable [OF p t c i, of options] by simp
qed

section \<open>Facts about the configuration step and the example\<close>

lemma updateVendureConfig_found:
  assumes cfg: "disk w (configPath w) = Some (File cfg)" and ps: "pluginsArray cfg = Some ps"
    and h: "fst (classDeclaration plugin) < length (project w)"
    and u: "unsaved w = {}"
  shows "\<exists>w'. updateVendureConfig plugin w = (None, w') \<and>
           project w' = project w @
             [(configPath w,
               cfg\<lparr>pluginsArray := Some (ps @ [pluginRefName plugin w @ ''.init({})'']),
                   importDeclarations := importDeclarations cfg
                     @ [([pluginRefName plugin w], getFilePath (getSourceFile plugin) w)]\<rparr>)] \<and>
           disk w' = (disk w)(configPath w \<mapsto> File (snd (last (project w')))) \<and>
           trace w' = trace w @ [SpinnerStart ''Updating VendureConfig...'', ProjectSaved,
                                 SpinnerStop ''Updated VendureConfig''] \<and>
           cwd w' = cwd w \<and> dirname w' = dirname w \<and> configPath w' = configPath w"
proof -
  let ?n = "length (project w)"
  let ?cfg' = "cfg\<lparr>pluginsArray := Some (ps @ [pluginRefName plugin w @ ''.init({})'']),
                   importDeclarations := importDeclarations cfg
                     @ [([pluginRefName plugin w], getFilePath (getSourceFile plugin) w)]\<rparr>"
  let ?w1 = "emit (SpinnerStart ''Updating VendureConfig...'') w"
  let ?w2 = "?w1\<lparr>project := project w @ [(configPath w, cfg)]\<rparr>"
  let ?w3 = "addToPluginsArray ?n (pluginRefName plugin w @ ''.init({})'') ?w2"
  let ?w4 = "addImportsToFile ?n (getFilePath (getSourceFile plugin) w) [pluginRefName plugin w] ?w3"
  have n: "newVendureConfigRef ?w1 = (Inr ?n, ?w2)"
    using cfg ps by (simp add: newVendureConfigRef_def)
  have names: "pluginRefName plugin ?w2 = pluginRefName plugin w"
    "pluginRefName plugin ?w3 = pluginRefName plugin w"
    "getFilePath (getSourceFile plugin) ?w3 = getFilePath (getSourceFile plugin) w"
    using h by (simp_all add: pluginRefName_def getFilePath_def getSourceFile_def nth_append
        addToPluginsArray_def updateFile_def)
  have w4: "project ?w4 = project w @ [(configPath w, ?cfg')]" "unsaved ?w4 = {?n}"
    "disk ?w4 = disk w" "trace ?w4 = trace w @ [SpinnerStart ''Updating VendureConfig...'']"
    "cwd ?w4 = cwd w" "dirname ?w4 = dirname w" "configPath ?w4 = configPath w"
    using ps u by (simp_all add: addToPluginsArray_def addImportsToFile_def updateFile_def)
  have "?n < length (project ?w4)" unfolding w4(1) by simp
  from unsavedFiles_single [OF w4(2) this]
  have "unsavedFiles ?w4 = [(configPath w, ?cfg')]" unfolding w4(1) by simp
  then have "writeFiles (unsavedFiles ?w4) (disk ?w4)
               = (None, (disk w)(configPath w \<mapsto> File ?cfg'))"
    using writeFile_overwrite [of "disk w" "configPath w" cfg ?cfg'] cfg unfolding w4(3) by simp
  then have s: "save ?w4 = (None, emit ProjectSaved
                    (?w4\<lparr>disk := (disk w)(configPath w \<mapsto> File ?cfg'), unsaved := {}\<rparr>))"
    by (simp add: save_def)
  let ?w5 = "emit (SpinnerStop ''Updated VendureConfig'') (emit ProjectSaved
                    (?w4\<lparr>disk := (disk w)(configPath w \<mapsto> File ?cfg'), unsaved := {}\<rparr>))"
  have e: "updateVendureConfig plugin w = (None, ?w5)"
    unfolding updateVendureConfig_def Let_def n prod.case sum.case names s option.case ..
  have f: "project ?w5 = project ?w4" "disk ?w5 = (disk w)(configPath w \<mapsto> File ?cfg')"
    "trace ?w5 = trace ?w4 @ [ProjectSaved, SpinnerStop ''Updated VendureConfig'']"
    "cwd ?w5 = cwd ?w4" "dirname ?w5 = dirname ?w4" "configPath ?w5 = configPath ?w4"
    by simp_all
  show ?thesis
    apply (rule exI [of _ ?w5])
    unfolding f w4 using e by simp
qed

lemma updateVendureConfig_missing:
  assumes "\<forall>cfg ps. \<not> (disk w (configPath w) = Some (File cfg) \<and> pluginsArray cfg = Some ps)"
  shows "updateVendureConfig plugin w =
           (Some (ConfigNotFound (configPath w)), emit (SpinnerStart ''Updating VendureConfig...'') w)"
  using assms unfolding updateVendureConfig_def Let_def
  by (auto simp: newVendureConfigRef_def split: option.splits fsEntry.splits)

lemma example_template_paths:
  "path_join [''/cli'', ''templates/plugin.template.ts''] = ''/cli/templates/plugin.template.ts''"
  "path_join [''/cli'', ''templates/types.template.ts''] = ''/cli/templates/types.template.ts''"
  "path_join [''/cli'', ''templates/constants.template.ts''] = ''/cli/templates/constants.template.ts''"
  by code_simp+

lemma example_file_paths:
  "pluginFilePath reviewsOptions = ''/app/src/plugins/reviews/reviews.plugin.ts''"
  "typesFilePath reviewsOptions = ''/app/src/plugins/reviews/types.ts''"
  "constantsFilePath reviewsOptions = ''/app/src/plugins/reviews/constants.ts''"
  by code_simp+

lemma example_parentDirs:
  "parentDirs ''/app/src/plugins/reviews/reviews.plugin.ts''
     = [''/app'', ''/app/src'', ''/app/src/plugins'', ''/app/src/plugins/reviews'']"
  "parentDirs ''/app/src/plugins/reviews/types.ts''
     = [''/app'', ''/app/src'', ''/app/src/plugins'', ''/app/src/plugins/reviews'']"
  "parentDirs ''/app/src/plugins/reviews/constants.ts''
     = [''/app'', ''/app/src'', ''/app/src/plugins'', ''/app/src/plugins/reviews'']"
  by code_simp+

lemma normalizedName_reviews: "normalizedName ''reviews'' = ''reviews-plugin''"
  by code_simp

lemma example_names:
  "pluginName (templateContext reviewsOptions) = ''ReviewsPlugin''"
  "pluginInitOptionsName (templateContext reviewsOptions) = ''REVIEWS_PLUGIN_OPTIONS''"
  by (simp_all add: reviewsOptions_def templateContext_def normalizedName_reviews
      pascalCase_reviews_plugin constantCase_reviews_plugin)

lemma example_templates:
  "disk exampleWorld (path_join [dirname exampleWorld, ''templates/plugin.template.ts''])
     = Some (File pluginTemplate)"
  "disk exampleWorld (path_join [dirname exampleWorld, ''templates/types.template.ts''])
     = Some (File typesTemplate)"
  "disk exampleWorld (path_join [dirname exampleWorld, ''templates/constants.template.ts''])
     = Some (File constantsTemplate)"
  "indexOf ''TemplatePlugin'' (classDeclarations pluginTemplate) = Some 0"
  by (simp_all add: exampleWorld_def example_template_paths exampleDisk_def pluginTemplate_def)

lemma example_free:
  "\<forall>q \<in> {pluginFilePath reviewsOptions, typesFilePath reviewsOptions, constantsFilePath reviewsOptions}.
     exampleDisk q \<noteq> Some Directory \<and> (\<forall>a \<in> set (parentDirs q). \<not> isFile (exampleDisk a))"
  unfolding example_file_paths
  by (simp add: example_parentDirs exampleDisk_def isFile_def)

lemma example_generatePlugin:
  "\<exists>w1. generatePlugin reviewsOptions exampleWorld = (Inr (VendurePluginRef (0, 0)), w1)"
proof (rule generatePlugin_succeeds [OF example_templates])
  show "\<forall>q \<in> {pluginFilePath reviewsOptions, typesFilePath reviewsOptions, constantsFilePath reviewsOptions}.
     disk exampleWorld q \<noteq> Some Directory \<and> (\<forall>a \<in> set (parentDirs q). \<not> isFile (disk exampleWorld a))"
    using example_free by (simp add: exampleWorld_def)
qed

lemma example_config_after_generation:
  assumes "generatePlugin reviewsOptions exampleWorld = (Inr plugin, w1)"
  shows "disk w1 (configPath w1) = Some (File vendureConfigFile)"
proof -
  have c: "configPath w1 = ''/app/src/vendure-config.ts''"
    using generatePlugin_Inr(8) [OF assms] by (simp add: exampleWorld_def)
  have "disk w1 ''/app/src/vendure-config.ts'' = disk exampleWorld ''/app/src/vendure-config.ts''"
    using generatePlugin_Inr_disk(3) [OF assms, THEN spec, of "''/app/src/vendure-config.ts''"]
    unfolding generatePlugin_Inr(2) [OF assms] example_file_paths
    by (simp add: example_parentDirs)
  then show ?thesis by (simp add: c exampleWorld_def exampleDisk_def)
qed

lemma writeFiles_first_fails:
  "writeFile p f d = Inl e \<Longrightarrow> writeFiles ((p, f) # files) d = (Some e, d)"
  by simp

lemma writeFile_blocked:
  "d p = None \<Longrightarrow> find (\<lambda>a. isFile (d a)) (parentDirs p) = Some a \<Longrightarrow>
     writeFile p f d = Inl (NotADirectory a)"
  by (simp add: writeFile_def)

lemma prepared_types_file:
  "snd (project (prepared options w) ! 1) = snd (project w ! 1)"
  by (simp add: prepared_def)

text \<open>The files that a successful generation leaves in the project.\<close>

lemma generatePlugin_Inr_contents:
  assumes g: "generatePlugin options w = (Inr plugin, w')"
  shows "\<exists>p t i cf.
           disk w (path_join [dirname w, ''templates/plugin.template.ts'']) = Some (File p) \<and>
           disk w (path_join [dirname w, ''templates/types.template.ts'']) = Some (File t) \<and>
           indexOf ''TemplatePlugin'' (classDeclarations p) = Some i \<and>
           plugin = VendurePluginRef (0, i) \<and>
           project w' =
             [(pluginFilePath options,
               p\<lparr>classDeclarations := (classDeclarations p)[i := pluginName (templateContext options)]\<rparr>),
              (typesFilePath options, t),
              (constantsFilePath options, cf)]"
proof -
  obtain p t c i where
    r: "disk w (path_join [dirname w, ''templates/plugin.template.ts'']) = Some (File p)"
       "disk w (path_join [dirname w, ''templates/types.template.ts'']) = Some (File t)"
       "disk w (path_join [dirname w, ''templates/constants.template.ts'']) = Some (File c)"
       "indexOf ''TemplatePlugin'' (classDeclarations p) = Some i"
    using generatePlugin_Inr_readable [OF g] by blast
  let ?l = "loadedTemplates options w p t c i"
  let ?q = "prepared options ?l"
  have eq: "plugin = VendurePluginRef (0, i)" and s: "save ?q = (None, w')"
    using generatePlugin_readable [OF r, of options] g
    by (cases "save ?q" rule: prod.exhaust; auto split: option.splits)+
  have pr: "project w' = project ?q" by (rule save_None(3) [OF s])
  have len: "length (project w') = 3" by (rule generatePlugin_Inr(10) [OF g])
  have paths: "map fst (project w')
                 = [pluginFilePath options, typesFilePath options, constantsFilePath options]"
    by (rule generatePlugin_Inr(2) [OF g])
  have f0: "snd (project w' ! 0)
      = p\<lparr>classDeclarations := (classDeclarations p)[i := pluginName (templateContext options)]\<rparr>"
    unfolding pr prepared_plugin_file by (simp add: loadedTemplates_def)
  have f1: "snd (project w' ! 1) = t"
    unfolding pr prepared_types_file by (simp add: loadedTemplates_def)
  obtain x y z where xyz: "project w' = [x, y, z]"
    using len by (auto simp: length_Suc_conv numeral_3_eq_3)
  have "x = (pluginFilePath options,
              p\<lparr>classDeclarations := (classDeclarations p)[i := pluginName (templateContext options)]\<rparr>)"
    "y = (typesFilePath options, t)" "fst z = constantsFilePath options"
    using paths f0 f1 unfolding xyz by (auto simp: prod_eq_iff)
  then have "project w' =
             [(pluginFilePath options,
               p\<lparr>classDeclarations := (classDeclarations p)[i := pluginName (templateContext options)]\<rparr>),
              (typesFilePath options, t),
              (constantsFilePath options, snd z)]"
    unfolding xyz by (simp add: prod_eq_iff)
  then show ?thesis using r eq by blast
qed

text \<open>The flush fails at its first write when a regular file lies above the plugin file.\<close>

lemma generatePlugin_blocked:
  assumes p: "disk w (path_join [dirname w, ''templates/plugin.template.ts'']) = Some (File p)"
    and t: "disk w (path_join [dirname w, ''templates/types.template.ts'']) = Some (File t)"
    and c: "disk w (path_join [dirname w, ''templates/constants.template.ts'']) = Some (File c)"
    and i: "indexOf ''TemplatePlugin'' (classDeclarations p) = Some i"
    and n: "disk w (pluginFilePath options) = None"
    and a: "find (\<lambda>a. isFile (disk w a)) (parentDirs (pluginFilePath options)) = Some a"
  shows "\<exists>w'. generatePlugin options w = (Inl (NotADirectory a), w') \<and> disk w' = disk w"
proof -
  let ?q = "prepared options (loadedTemplates options w p t c i)"
  have "map fst (project ?q) = [pluginFilePath options, typesFilePath options, constantsFilePath options]"
    by (simp add: prepared_paths loadedTemplates_fields)
  then obtain f files where pr: "project ?q = (pluginFilePath options, f) # files"
    by (cases "project ?q") auto
  have "writeFiles (project ?q) (disk w) = (Some (NotADirectory a), disk w)"
    unfolding pr by (rule writeFiles_first_fails [OF writeFile_blocked [OF n a]])
  then have "writeFiles (unsavedFiles ?q) (disk ?q) = (Some (NotADirectory a), disk w)"
    by (simp add: prepared_unsavedFiles prepared_fields loadedTemplates_fields)
  then have "save ?q = (Some (NotADirectory a), ?q\<lparr>disk := disk w\<rparr>)"
    by (simp add: save_def)
  then show ?thesis using generatePlugin_readable [OF p t c i, of options] by simp
qed


lemma noClassWorld_template:
  "disk noClassWorld (path_join [dirname noClassWorld, ''templates/plugin.template.ts''])
     = Some (File typesTemplate)"
  by (simp add: noClassWorld_def exampleWorld_def example_template_paths)

lemma blockedWorld_templates:
  "disk blockedWorld (path_join [dirname blockedWorld, ''templates/plugin.template.ts''])
     = Some (File pluginTemplate)"
  "disk blockedWorld (path_join [dirname blockedWorld, ''templates/types.template.ts''])
     = Some (File typesTemplate)"
  "disk blockedWorld (path_join [dirname blockedWorld, ''templates/constants.template.ts''])
     = Some (File constantsTemplate)"
  "indexOf ''TemplatePlugin'' (classDeclarations pluginTemplate) = Some 0"
  by (simp_all add: blockedWorld_def exampleWorld_def example_template_paths exampleDisk_def
      pluginTemplate_def)

lemma blockedWorld_generatePlugin:
  "\<exists>w'. generatePlugin reviewsOptions blockedWorld = (Inl (NotADirectory ''/app/src/plugins''), w') \<and>
         disk w' = disk blockedWorld"
proof (rule generatePlugin_blocked [OF blockedWorld_templates])
  show "disk blockedWorld (pluginFilePath reviewsOptions) = None"
    by (simp add: example_file_paths blockedWorld_def exampleWorld_def exampleDisk_def)
  show "find (\<lambda>a. isFile (disk blockedWorld a)) (parentDirs (pluginFilePath reviewsOptions))
          = Some ''/app/src/plugins''"
    by (simp add: example_file_paths example_parentDirs blockedWorld_def exampleWorld_def
        exampleDisk_def isFile_def)
qed


section \<open>Registration in the configuration\<close>

text \<open>
  Claim C7. Given the plugin reference that generation returns and a configuration
  file with a plugins array, the configuration step succeeds; the configuration file
  it saves has exactly one more element in the plugins array, the text
  \<^verbatim>\<open><pluginName>.init({})\<close>, and exactly one more import declaration, which imports the
  plugin name from the plugin file; its other declarations are unchanged, and the
  step flushes the project once.
\<close>

theorem config_patch_registers_plugin:
  assumes gen: "generatePlugin options w = (Inr plugin, w1)"
    and cfg: "disk w1 (configPath w1) = Some (File cfg)"
    and ps: "pluginsArray cfg = Some ps"
  shows "\<exists>w2 cfg'.
           updateVendureConfig plugin w1 = (None, w2) \<and>
           disk w2 (configPath w) = Some (File cfg') \<and>
           pluginsArray cfg' = Some (ps @ [pluginName (templateContext options) @ ''.init({})'']) \<and>
           importDeclarations cfg'
             = importDeclarations cfg
                 @ [([pluginName (templateContext options)], pluginFilePath options)] \<and>
           classDeclarations cfg' = classDeclarations cfg \<and>
           variableDeclarations cfg' = variableDeclarations cfg \<and>
           trace w2 = trace w1 @ [SpinnerStart ''Updating VendureConfig...'', ProjectSaved,
                                  SpinnerStop ''Updated VendureConfig'']"
proof -
  note g = generatePlugin_Inr [OF gen]
  have len: "length (project w1) = 3" by (rule g(10))
  have h: "fst (classDeclaration plugin) < length (project w1)"
    using g(4) len by (simp add: getSourceFile_def)
  have path: "getFilePath (getSourceFile plugin) w1 = pluginFilePath options"
  proof -
    have "map fst (project w1) ! 0 = pluginFilePath options" using g(2) by simp
    then show ?thesis using len g(4) by (simp add: getFilePath_def)
  qed
  obtain w2 where w2: "updateVendureConfig plugin w1 = (None, w2)"
    "project w2 = project w1 @
       [(configPath w1,
         cfg\<lparr>pluginsArray := Some (ps @ [pluginRefName plugin w1 @ ''.init({})'']),
             importDeclarations := importDeclarations cfg
               @ [([pluginRefName plugin w1], getFilePath (getSourceFile plugin) w1)]\<rparr>)]"
    "disk w2 = (disk w1)(configPath w1 \<mapsto> File (snd (last (project w2))))"
    "trace w2 = trace w1 @ [SpinnerStart ''Updating VendureConfig...'', ProjectSaved,
                            SpinnerStop ''Updated VendureConfig'']"
    using updateVendureConfig_found [OF cfg ps h g(9)] by blast
  let ?cfg' = "cfg\<lparr>pluginsArray := Some (ps @ [pluginName (templateContext options) @ ''.init({})'']),
             importDeclarations := importDeclarations cfg
               @ [([pluginName (templateContext options)], pluginFilePath options)]\<rparr>"
  have "snd (last (project w2)) = ?cfg'"
    unfolding w2(2) by (simp add: g(5) path)
  then have "disk w2 (configPath w) = Some (File ?cfg')"
    using w2(3) g(8) by simp
  then show ?thesis using w2(1,4) by (intro exI [of _ w2] exI [of _ ?cfg']) simp
qed

theorem config_patch_registers_plugin_witness:
  "\<exists>w2 cfg'.
     updateVendureConfig (VendurePluginRef (0, 0)) (snd (generatePlugin reviewsOptions exampleWorld))
       = (None, w2) \<and>
     disk w2 ''/app/src/vendure-config.ts'' = Some (File cfg') \<and>
     pluginsArray cfg' = Some [''AssetServerPlugin.init({})'', ''ReviewsPlugin.init({})''] \<and>
     importDeclarations cfg' = [([''ReviewsPlugin''], ''/app/src/plugins/reviews/reviews.plugin.ts'')]"
proof -
  let ?w1 = "snd (generatePlugin reviewsOptions exampleWorld)"
  have gen: "generatePlugin reviewsOptions exampleWorld = (Inr (VendurePluginRef (0, 0)), ?w1)"
    using example_generatePlugin by auto
  have ps: "pluginsArray vendureConfigFile = Some [''AssetServerPlugin.init({})'']"
    by (simp add: vendureConfigFile_def)
  show ?thesis
    using config_patch_registers_plugin [OF gen example_config_after_generation [OF gen] ps]
    unfolding example_names example_file_paths
    by (simp add: exampleWorld_def vendureConfigFile_def) blast
qed

section \<open>Persistence of the generated files\<close>

text \<open>
  Claim C6. Generation writes nothing before the whole sequence of steps has
  succeeded, and the flush is the last thing it does. A run that fails is of one of
  two kinds. Either a step before the flush has failed: then the disk is unchanged,
  the spinner has not stopped and the flush has not been attempted; a template
  without the plugin class is such a failure. Or every step has succeeded, the
  spinner has stopped, and the flush itself has failed with an error of the file
  system; it has then touched nothing but the three generated paths and the
  directories above them. A run that succeeds has flushed exactly once, as its last
  event. The three files of the project are then on the disk at the three generated
  paths, the plugin file with its class renamed and the types file as the template
  has it; the directories above a path that held no file before are directories; and
  every path that is neither a generated path nor a directory above one is as before.
\<close>

theorem generatePlugin_flushes_once_at_the_end:
  "(\<forall>e w'. generatePlugin options w = (Inl e, w') \<longrightarrow>
      (\<not> flushError e \<and> disk w' = disk w \<and>
       trace w' = trace w @ [SpinnerStart ''Generating plugin scaffold...'']) \<or>
      (flushError e \<and>
       trace w' = trace w @ [SpinnerStart ''Generating plugin scaffold...'',
                             SpinnerStop ''Generated plugin scaffold''] \<and>
       (\<forall>q. q \<notin> {pluginFilePath options, typesFilePath options, constantsFilePath options} \<and>
            (\<forall>r \<in> {pluginFilePath options, typesFilePath options, constantsFilePath options}.
               q \<notin> set (parentDirs r)) \<longrightarrow>
          disk w' q = disk w q))) \<and>
   (\<forall>p. disk w (path_join [dirname w, ''templates/plugin.template.ts'']) = Some (File p) \<and>
        ''TemplatePlugin'' \<notin> set (classDeclarations p) \<longrightarrow>
      (\<exists>w'. generatePlugin options w
               = (Inl (Error ''Could not find the plugin class in the generated file''), w') \<and>
            disk w' = disk w \<and>
            trace w' = trace w @ [SpinnerStart ''Generating plugin scaffold...''])) \<and>
   (\<forall>plugin w'. generatePlugin options w = (Inr plugin, w') \<longrightarrow>
      trace w' = trace w @ [SpinnerStart ''Generating plugin scaffold...'',
                            SpinnerStop ''Generated plugin scaffold'', ProjectSaved] \<and>
      (\<exists>p t i cf.
         disk w (path_join [dirname w, ''templates/plugin.template.ts'']) = Some (File p) \<and>
         disk w (path_join [dirname w, ''templates/types.template.ts'']) = Some (File t) \<and>
         indexOf ''TemplatePlugin'' (classDeclarations p) = Some i \<and>
         disk w' (pluginFilePath options)
           = Some (File (p\<lparr>classDeclarations :=
                             (classDeclarations p)[i := pluginName (templateContext options)]\<rparr>)) \<and>
         disk w' (typesFilePath options) = Some (File t) \<and>
         disk w' (constantsFilePath options) = Some (File cf) \<and>
         project w' =
           [(pluginFilePath options,
             p\<lparr>classDeclarations := (classDeclarations p)[i := pluginName (templateContext options)]\<rparr>),
            (typesFilePath options, t),
            (constantsFilePath options, cf)]) \<and>
      (\<forall>q \<in> {pluginFilePath options, typesFilePath options, constantsFilePath options}.
         \<forall>a \<in> set (parentDirs q). \<not> isFile (disk w q) \<longrightarrow> disk w' a = Some Directory) \<and>
      (\<forall>q. q \<notin> {pluginFilePath options, typesFilePath options, constantsFilePath options} \<and>
           (\<forall>r \<in> {pluginFilePath options, typesFilePath options, constantsFilePath options}.
              q \<notin> set (parentDirs r)) \<longrightarrow>
         disk w' q = disk w q))"
proof (intro conjI allI impI)
  fix e w'
  assume "generatePlugin options w = (Inl e, w')"
  then show "(\<not> flushError e \<and> disk w' = disk w \<and>
       trace w' = trace w @ [SpinnerStart ''Generating plugin scaffold...'']) \<or>
      (flushError e \<and>
       trace w' = trace w @ [SpinnerStart ''Generating plugin scaffold...'',
                             SpinnerStop ''Generated plugin scaffold''] \<and>
       (\<forall>q. q \<notin> {pluginFilePath options, typesFilePath options, constantsFilePath options} \<and>
            (\<forall>r \<in> {pluginFilePath options, typesFilePath options, constantsFilePath options}.
               q \<notin> set (parentDirs r)) \<longrightarrow>
          disk w' q = disk w q))"
    by (rule generatePlugin_Inl)
next
  fix p
  assume "disk w (path_join [dirname w, ''templates/plugin.template.ts'']) = Some (File p) \<and>
        ''TemplatePlugin'' \<notin> set (classDeclarations p)"
  then show "\<exists>w'. generatePlugin options w
               = (Inl (Error ''Could not find the plugin class in the generated file''), w') \<and>
            disk w' = disk w \<and>
            trace w' = trace w @ [SpinnerStart ''Generating plugin scaffold...'']"
    using generatePlugin_no_class_world by blast
next
  fix plugin w'
  assume g: "generatePlugin options w = (Inr plugin, w')"
  note r = generatePlugin_Inr [OF g]
  note d = generatePlugin_Inr_disk [OF g]
  show "trace w' = trace w @ [SpinnerStart ''Generating plugin scaffold...'',
                            SpinnerStop ''Generated plugin scaffold'', ProjectSaved]"
    by (rule r(1))
  obtain p t i cf where c:
    "disk w (path_join [dirname w, ''templates/plugin.template.ts'']) = Some (File p)"
    "disk w (path_join [dirname w, ''templates/types.template.ts'']) = Some (File t)"
    "indexOf ''TemplatePlugin'' (classDeclarations p) = Some i"
    "project w' =
       [(pluginFilePath options,
         p\<lparr>classDeclarations := (classDeclarations p)[i := pluginName (templateContext options)]\<rparr>),
        (typesFilePath options, t),
        (constantsFilePath options, cf)]"
    using generatePlugin_Inr_contents [OF g] by blast
  have "disk w' (pluginFilePath options)
           = Some (File (p\<lparr>classDeclarations :=
                             (classDeclarations p)[i := pluginName (templateContext options)]\<rparr>))"
    "disk w' (typesFilePath options) = Some (File t)"
    "disk w' (constantsFilePath options) = Some (File cf)"
    using d(1) [THEN spec, of 0] d(1) [THEN spec, of 1] d(1) [THEN spec, of 2]
    unfolding c(4) by simp_all
  then show "\<exists>p t i cf.
         disk w (path_join [dirname w, ''templates/plugin.template.ts'']) = Some (File p) \<and>
         disk w (path_join [dirname w, ''templates/types.template.ts'']) = Some (File t) \<and>
         indexOf ''TemplatePlugin'' (classDeclarations p) = Some i \<and>
         disk w' (pluginFilePath options)
           = Some (File (p\<lparr>classDeclarations :=
                             (classDeclarations p)[i := pluginName (templateContext options)]\<rparr>)) \<and>
         disk w' (typesFilePath options) = Some (File t) \<and>
         disk w' (constantsFilePath options) = Some (File cf) \<and>
         project w' =
           [(pluginFilePath options,
             p\<lparr>classDeclarations := (classDeclarations p)[i := pluginName (templateContext options)]\<rparr>),
            (typesFilePath options, t),
            (constantsFilePath options, cf)]"
    using c by blast
  show "\<forall>q \<in> {pluginFilePath options, typesFilePath options, constantsFilePath options}.
         \<forall>a \<in> set (parentDirs q). \<not> isFile (disk w q) \<longrightarrow> disk w' a = Some Directory"
    using d(2) [THEN spec, of 0] d(2) [THEN spec, of 1] d(2) [THEN spec, of 2]
    unfolding c(4) by simp
  fix q
  assume "q \<notin> {pluginFilePath options, typesFilePath options, constantsFilePath options} \<and>
           (\<forall>r \<in> {pluginFilePath options, typesFilePath options, constantsFilePath options}.
              q \<notin> set (parentDirs r))"
  then show "disk w' q = disk w q"
    using d(3) [THEN spec, of q] unfolding r(2) by simp
qed

theorem generatePlugin_flushes_once_at_the_end_witness:
  "(\<exists>w'. generatePlugin reviewsOptions noClassWorld
            = (Inl (Error ''Could not find the plugin class in the generated file''), w') \<and>
         disk w' = disk noClassWorld \<and>
         trace w' = [SpinnerStart ''Generating plugin scaffold...'']) \<and>
   (\<exists>w'. generatePlugin reviewsOptions blockedWorld = (Inl (NotADirectory ''/app/src/plugins''), w') \<and>
         trace w' = [SpinnerStart ''Generating plugin scaffold...'',
                     SpinnerStop ''Generated plugin scaffold'']) \<and>
   trace (snd (generatePlugin reviewsOptions exampleWorld))
     = [SpinnerStart ''Generating plugin scaffold...'',
        SpinnerStop ''Generated plugin scaffold'', ProjectSaved] \<and>
   disk (snd (generatePlugin reviewsOptions exampleWorld)) ''/app/src/plugins/reviews/reviews.plugin.ts''
     = Some (File (pluginTemplate\<lparr>classDeclarations := [''ReviewsPlugin'']\<rparr>)) \<and>
   disk (snd (generatePlugin reviewsOptions exampleWorld)) ''/app/src/plugins/reviews/types.ts''
     = Some (File typesTemplate) \<and>
   disk (snd (generatePlugin reviewsOptions exampleWorld)) ''/app/src/plugins/reviews''
     = Some Directory \<and>
   disk (snd (generatePlugin reviewsOptions exampleWorld)) ''/app/src/plugins''
     = Some Directory \<and>
   disk (snd (generatePlugin reviewsOptions exampleWorld)) ''/app/package.json''
     = Some (File manifestFile)"
proof -
  let ?w' = "snd (generatePlugin reviewsOptions exampleWorld)"
  have g: "generatePlugin reviewsOptions exampleWorld = (Inr (VendurePluginRef (0, 0)), ?w')"
    using example_generatePlugin by auto
  have c: "''TemplatePlugin'' \<notin> set (classDeclarations typesTemplate)"
    by (simp add: typesTemplate_def)
  note t = generatePlugin_flushes_once_at_the_end [of reviewsOptions noClassWorld,
      THEN conjunct2, THEN conjunct1, rule_format, of typesTemplate]
    and b = generatePlugin_flushes_once_at_the_end [of reviewsOptions blockedWorld,
      THEN conjunct1, rule_format]
    and u = generatePlugin_flushes_once_at_the_end [of reviewsOptions exampleWorld,
      THEN conjunct2, THEN conjunct2, rule_format, OF g]
  have 1: "\<exists>w'. generatePlugin reviewsOptions noClassWorld
            = (Inl (Error ''Could not find the plugin class in the generated file''), w') \<and>
         disk w' = disk noClassWorld \<and>
         trace w' = [SpinnerStart ''Generating plugin scaffold...'']"
    using t noClassWorld_template c by (simp add: noClassWorld_def exampleWorld_def)
  obtain wb where wb: "generatePlugin reviewsOptions blockedWorld
                         = (Inl (NotADirectory ''/app/src/plugins''), wb)"
    using blockedWorld_generatePlugin by blast
  have "trace wb = [SpinnerStart ''Generating plugin scaffold...'',
                     SpinnerStop ''Generated plugin scaffold'']"
    using b [OF wb] by (simp add: flushError_def blockedWorld_def exampleWorld_def)
  then have 2: "\<exists>w'. generatePlugin reviewsOptions blockedWorld
                         = (Inl (NotADirectory ''/app/src/plugins''), w') \<and>
         trace w' = [SpinnerStart ''Generating plugin scaffold...'',
                     SpinnerStop ''Generated plugin scaffold'']"
    using wb by blast
  have 3: "trace ?w' = [SpinnerStart ''Generating plugin scaffold...'',
        SpinnerStop ''Generated plugin scaffold'', ProjectSaved]"
    using u [THEN conjunct1] by (simp add: exampleWorld_def)
  obtain p t' i where f:
    "disk exampleWorld (path_join [dirname exampleWorld, ''templates/plugin.template.ts'']) = Some (File p)"
    "disk exampleWorld (path_join [dirname exampleWorld, ''templates/types.template.ts'']) = Some (File t')"
    "indexOf ''TemplatePlugin'' (classDeclarations p) = Some i"
    "disk ?w' (pluginFilePath reviewsOptions)
       = Some (File (p\<lparr>classDeclarations :=
                         (classDeclarations p)[i := pluginName (templateContext reviewsOptions)]\<rparr>))"
    "disk ?w' (typesFilePath reviewsOptions) = Some (File t')"
    using u [THEN conjunct2, THEN conjunct1] by blast
  have pt: "p = pluginTemplate" "t' = typesTemplate" "i = 0"
    using f(1,2,3) example_templates by simp_all
  have 4: "disk ?w' ''/app/src/plugins/reviews/reviews.plugin.ts''
     = Some (File (pluginTemplate\<lparr>classDeclarations := [''ReviewsPlugin'']\<rparr>))"
    using f(4) unfolding pt example_file_paths example_names by (simp add: pluginTemplate_def)
  have 5: "disk ?w' ''/app/src/plugins/reviews/types.ts'' = Some (File typesTemplate)"
    using f(5) unfolding pt example_file_paths .
  have n: "\<not> isFile (disk exampleWorld (typesFilePath reviewsOptions))"
    unfolding example_file_paths by (simp add: exampleWorld_def exampleDisk_def isFile_def)
  have dirs: "\<forall>a \<in> set (parentDirs (typesFilePath reviewsOptions)). disk ?w' a = Some Directory"
    using u [THEN conjunct2, THEN conjunct2, THEN conjunct1] n by blast
  have 6: "disk ?w' ''/app/src/plugins/reviews'' = Some Directory"
    and 7: "disk ?w' ''/app/src/plugins'' = Some Directory"
    using dirs unfolding example_file_paths by (simp_all add: example_parentDirs)
  have "disk ?w' ''/app/package.json'' = disk exampleWorld ''/app/package.json''"
    using u [THEN conjunct2, THEN conjunct2, THEN conjunct2, rule_format, of "''/app/package.json''"]
    unfolding example_file_paths by (simp add: example_parentDirs)
  then have 8: "disk ?w' ''/app/package.json'' = Some (File manifestFile)"
    by (simp add: exampleWorld_def exampleDisk_def)
  show ?thesis using 1 2 3 4 5 6 7 8 by (intro conjI)
qed


section \<open>Missing template declarations\<close>








section \<open>The name plugin\<close>



section \<open>Facts about the whole command\<close>

lemma featureLoop_cancel:
  "featureLoop gens n plugin (Cancel # rest) w
     = (Completed, emit (SelectPrompt (''Add features to '' @ n @ ''?'')) w)"
  by simp

lemma featureLoop_after_cancel:
  "featureLoop gens n plugin (pre @ Cancel # rest) w = featureLoop gens n plugin (pre @ [Cancel]) w"
proof (induction pre arbitrary: w)
  case Nil
  show ?case by simp
next
  case (Cons a pre)
  show ?case
  proof (cases a)
    case Cancel
    then show ?thesis by simp
  next
    case (Submit f)
    then show ?thesis
      using Cons by (cases f) (simp_all split: prod.splits option.splits)
  qed
qed

lemma validateLocation_trace [simp]: "validateLocation (w\<lparr>trace := t\<rparr>) = validateLocation w"
  by (rule validateLocation_frame) simp

lemma getPluginDirName_trace [simp]: "getPluginDirName (w\<lparr>trace := t\<rparr>) n = getPluginDirName w n"
  by (rule getPluginDirName_frame) simp_all

lemma existsSync_trace [simp]: "existsSync (w\<lparr>trace := t\<rparr>) = existsSync w"
  by (rule existsSync_frame) simp

lemma collectOptions_location_cancel:
  assumes "nameAnswers user = rejectedN @ Submit n # restN"
    and "list_all (rejectedBy validateName) rejectedN" and "validName n"
    and "locationAnswers user = rejectedL @ Cancel # restL"
    and "list_all (rejectedBy (validateLocation w)) rejectedL"
  shows "collectOptions user w =
           Inl (Exit 0,
             w\<lparr>trace := trace w @ [Intro ''Adding a new Vendure plugin!'',
                                   TextPrompt ''What is the name of the plugin?'' []]
                   @ notesOf validateName rejectedN
                   @ [TextPrompt ''Plugin location'' (getPluginDirName w n)]
                   @ notesOf (validateLocation w) rejectedL
                   @ [CancelNote cancelledMessage]\<rparr>)"
proof -
  let ?w2 = "w\<lparr>trace := trace w @ [Intro ''Adding a new Vendure plugin!'',
                                   TextPrompt ''What is the name of the plugin?'' []]
                   @ notesOf validateName rejectedN\<rparr>"
  have a: "askName user w = (Some (Submit n), ?w2)"
    by (rule askName_submit [OF assms(1-3)])
  have r: "list_all (rejectedBy (validateLocation ?w2)) rejectedL"
    using assms(5) by simp
  have l: "askLocation user n ?w2 =
      (Some Cancel, ?w2\<lparr>trace := trace ?w2 @ [TextPrompt ''Plugin location'' (getPluginDirName ?w2 n)]
                         @ notesOf (validateLocation ?w2) rejectedL\<rparr>)"
    by (rule askLocation_cancel [OF assms(4) r])
  have "collectOptions user w =
      Inl (Exit 0, emit (CancelNote cancelledMessage)
        (?w2\<lparr>trace := trace ?w2 @ [TextPrompt ''Plugin location'' (getPluginDirName ?w2 n)]
                         @ notesOf (validateLocation ?w2) rejectedL\<rparr>))"
    by (simp only: collectOptions_unfold a l prod.case option.case answer.case)
  then show ?thesis by (simp add: emit_def)
qed

lemma collectOptions_submitted:
  assumes "nameAnswers user = rejectedN @ Submit n # restN"
    and "list_all (rejectedBy validateName) rejectedN" and "validName n"
    and "locationAnswers user = rejectedL @ Submit d # restL"
    and "list_all (rejectedBy (validateLocation w)) rejectedL" and "\<not> existsSync w d"
  shows "collectOptions user w =
           Inr (\<lparr>name = n, customEntityName = [], pluginDir = d\<rparr>,
             w\<lparr>trace := trace w @ [Intro ''Adding a new Vendure plugin!'',
                                   TextPrompt ''What is the name of the plugin?'' []]
                   @ notesOf validateName rejectedN
                   @ [TextPrompt ''Plugin location'' (getPluginDirName w n)]
                   @ notesOf (validateLocation w) rejectedL\<rparr>)"
proof -
  let ?w2 = "w\<lparr>trace := trace w @ [Intro ''Adding a new Vendure plugin!'',
                                   TextPrompt ''What is the name of the plugin?'' []]
                   @ notesOf validateName rejectedN\<rparr>"
  have a: "askName user w = (Some (Submit n), ?w2)"
    by (rule askName_submit [OF assms(1-3)])
  have r: "list_all (rejectedBy (validateLocation ?w2)) rejectedL" "\<not> existsSync ?w2 d"
    using assms(5,6) by simp_all
  have l: "askLocation user n ?w2 =
      (Some (Submit d), ?w2\<lparr>trace := trace ?w2 @ [TextPrompt ''Plugin location'' (getPluginDirName ?w2 n)]
                         @ notesOf (validateLocation ?w2) rejectedL\<rparr>)"
    by (rule askLocation_submit [OF assms(4) r])
  have "collectOptions user w =
      Inr (\<lparr>name = n, customEntityName = [], pluginDir = d\<rparr>,
        ?w2\<lparr>trace := trace ?w2 @ [TextPrompt ''Plugin location'' (getPluginDirName ?w2 n)]
                         @ notesOf (validateLocation ?w2) rejectedL\<rparr>)"
    by (simp only: collectOptions_unfold a l prod.case option.case answer.case)
  then show ?thesis by simp
qed

lemma createNewPlugin_menu:
  assumes "collectOptions user w = Inr (options, w1)"
    and "generatePlugin options w1 = (Inr plugin, w2)"
    and "updateVendureConfig plugin w2 = (None, w3)"
  shows "createNewPlugin gens user w =
           (case featureLoop gens (name options) plugin (featureAnswers user) w3 of
              (Completed, w4) \<Rightarrow> (Completed, emit (Outro completeMessage) w4)
            | stop \<Rightarrow> stop)"
  using assms by (simp add: createNewPlugin_def)

lemma example_default_dir: "getPluginDirName exampleWorld ''reviews'' = ''/app/src/plugins/reviews''"
proof -
  have "path_join [''/app'', ''package.json''] = ''/app/package.json''"
    "path_join [''/app'', ''src'', ''plugins'', ''reviews''] = ''/app/src/plugins/reviews''"
    "splitOn CHR ''/'' ''/app'' = [[], ''app'']"
    by code_simp+
  then show ?thesis
    unfolding getPluginDirName_def Let_def paramCase_reviews
    by (simp add: exampleWorld_def existsSync_def exampleDisk_def)
qed

lemma example_run:
  assumes "disk w = exampleDisk" "dirname w = ''/cli''" "configPath w = ''/app/src/vendure-config.ts''"
  shows "\<exists>w2 w3. generatePlugin reviewsOptions w = (Inr (VendurePluginRef (0, 0)), w2) \<and>
           updateVendureConfig (VendurePluginRef (0, 0)) w2 = (None, w3) \<and>
           trace w3 = trace w @ [SpinnerStart ''Generating plugin scaffold...'',
                                 SpinnerStop ''Generated plugin scaffold'', ProjectSaved,
                                 SpinnerStart ''Updating VendureConfig...'', ProjectSaved,
                                 SpinnerStop ''Updated VendureConfig'']"
proof -
  have "disk w (path_join [dirname w, ''templates/plugin.template.ts'']) = Some (File pluginTemplate)"
    "disk w (path_join [dirname w, ''templates/types.template.ts'']) = Some (File typesTemplate)"
    "disk w (path_join [dirname w, ''templates/constants.template.ts'']) = Some (File constantsTemplate)"
    "indexOf ''TemplatePlugin'' (classDeclarations pluginTemplate) = Some 0"
    "\<forall>q \<in> {pluginFilePath reviewsOptions, typesFilePath reviewsOptions, constantsFilePath reviewsOptions}.
       disk w q \<noteq> Some Directory \<and> (\<forall>a \<in> set (parentDirs q). \<not> isFile (disk w a))"
    using example_free
    by (simp_all add: assms example_template_paths exampleDisk_def pluginTemplate_def)
  from generatePlugin_succeeds [OF this]
  obtain w2 where g: "generatePlugin reviewsOptions w = (Inr (VendurePluginRef (0, 0)), w2)"
    by blast
  note r = generatePlugin_Inr [OF g]
  have "disk w2 ''/app/src/vendure-config.ts'' = disk w ''/app/src/vendure-config.ts''"
    using generatePlugin_Inr_disk(3) [OF g, THEN spec, of "''/app/src/vendure-config.ts''"]
    unfolding r(2) example_file_paths
    by (simp add: example_parentDirs)
  then have cfg: "disk w2 (configPath w2) = Some (File vendureConfigFile)"
    using r(8) assms by (simp add: exampleDisk_def)
  have ps: "pluginsArray vendureConfigFile = Some [''AssetServerPlugin.init({})'']"
    by (simp add: vendureConfigFile_def)
  have h: "fst (classDeclaration (VendurePluginRef (0, 0))) < length (project w2)"
    using r(10) by simp
  obtain w3 where "updateVendureConfig (VendurePluginRef (0, 0)) w2 = (None, w3)"
    "trace w3 = trace w2 @ [SpinnerStart ''Updating VendureConfig...'', ProjectSaved,
                            SpinnerStop ''Updated VendureConfig'']"
    using updateVendureConfig_found [OF cfg ps h r(9)] by blast
  then show ?thesis using g r(1) by simp
qed

lemma notesOf_Nil: "notesOf validate [] = []"
  by (simp add: notesOf_def)

lemma example_collectOptions_cancelAtMenu:
  "collectOptions cancelAtMenu exampleWorld =
     Inr (reviewsOptions,
          exampleWorld\<lparr>trace := [Intro ''Adding a new Vendure plugin!'',
                                  TextPrompt ''What is the name of the plugin?'' [],
                                  TextPrompt ''Plugin location'' ''/app/src/plugins/reviews'']\<rparr>)"
proof -
  have e: "\<not> existsSync exampleWorld ''/app/src/plugins/reviews''"
    by (simp add: existsSync_def exampleWorld_def exampleDisk_def)
  have t: "trace exampleWorld = []" by (simp add: exampleWorld_def)
  show ?thesis
    using collectOptions_submitted [of cancelAtMenu "[]" "''reviews''" "[]" "[]"
        "''/app/src/plugins/reviews''" "[]" exampleWorld] validName_reviews e
    by (simp add: cancelAtMenu_def notesOf_Nil example_default_dir reviewsOptions_def t)
qed

lemma example_cancelAtMenu_run:
  "createNewPlugin noGenerators cancelAtMenu exampleWorld =
     (Completed, snd (createNewPlugin noGenerators cancelAtMenu exampleWorld)) \<and>
   trace (snd (createNewPlugin noGenerators cancelAtMenu exampleWorld))
     = [Intro ''Adding a new Vendure plugin!'',
        TextPrompt ''What is the name of the plugin?'' [],
        TextPrompt ''Plugin location'' ''/app/src/plugins/reviews'',
        SpinnerStart ''Generating plugin scaffold...'',
        SpinnerStop ''Generated plugin scaffold'', ProjectSaved,
        SpinnerStart ''Updating VendureConfig...'', ProjectSaved,
        SpinnerStop ''Updated VendureConfig'',
        SelectPrompt ''Add features to reviews?'',
        Outro completeMessage]"
proof -
  let ?w1 = "exampleWorld\<lparr>trace := [Intro ''Adding a new Vendure plugin!'',
                                  TextPrompt ''What is the name of the plugin?'' [],
                                  TextPrompt ''Plugin location'' ''/app/src/plugins/reviews'']\<rparr>"
  obtain w2 w3 where g: "generatePlugin reviewsOptions ?w1 = (Inr (VendurePluginRef (0, 0)), w2)"
    and u: "updateVendureConfig (VendurePluginRef (0, 0)) w2 = (None, w3)"
    and t: "trace w3 = trace ?w1 @ [SpinnerStart ''Generating plugin scaffold...'',
                                 SpinnerStop ''Generated plugin scaffold'', ProjectSaved,
                                 SpinnerStart ''Updating VendureConfig...'', ProjectSaved,
                                 SpinnerStop ''Updated VendureConfig'']"
    using example_run [of ?w1] by (auto simp: exampleWorld_def)
  have "createNewPlugin noGenerators cancelAtMenu exampleWorld =
          (Completed, emit (Outro completeMessage)
             (emit (SelectPrompt (''Add features to '' @ name reviewsOptions @ ''?'')) w3))"
    using createNewPlugin_menu [OF example_collectOptions_cancelAtMenu g u, of noGenerators]
    by (simp add: cancelAtMenu_def)
  then show ?thesis using t by (simp add: reviewsOptions_def)
qed

section \<open>Cancellation\<close>

text \<open>
  Claim C4, as stated, fails at the feature menu: when the user cancels there, the
  command returns normally after the completion message. No cancellation message is
  printed and \<^verbatim>\<open>process.exit\<close> is not called.
\<close>

theorem cancel_at_menu_counterexample:
  "fst (createNewPlugin noGenerators cancelAtMenu exampleWorld) = Completed \<and>
   fst (createNewPlugin noGenerators cancelAtMenu exampleWorld) \<noteq> Exit 0 \<and>
   featureAnswers cancelAtMenu = [Cancel] \<and>
   CancelNote cancelledMessage
     \<notin> set (trace (snd (createNewPlugin noGenerators cancelAtMenu exampleWorld))) \<and>
   last (trace (snd (createNewPlugin noGenerators cancelAtMenu exampleWorld)))
     = Outro completeMessage"
proof -
  have "fst (createNewPlugin noGenerators cancelAtMenu exampleWorld) = Completed"
    using example_cancelAtMenu_run by (metis fst_conv)
  then show ?thesis
    using example_cancelAtMenu_run by (simp add: cancelAtMenu_def)
qed

text \<open>
  Claim C4, amended. A cancellation at the name prompt or at the directory prompt
  ends the process at once with the fixed cancellation message and exit code 0; the
  disk and the project are as they were. A cancellation at the feature menu ends the
  menu loop as the choice to finish does: the answers after it are never read, no
  feature generator runs any more, and the command prints the completion message and
  returns.
\<close>

theorem cancellation_ends_the_command:
  "(nameAnswers user = rejected @ Cancel # rest \<and> list_all (rejectedBy validateName) rejected \<longrightarrow>
      fst (createNewPlugin gens user w) = Exit 0 \<and>
      last (trace (snd (createNewPlugin gens user w))) = CancelNote cancelledMessage \<and>
      disk (snd (createNewPlugin gens user w)) = disk w \<and>
      project (snd (createNewPlugin gens user w)) = project w) \<and>
   (nameAnswers user = rejected @ Submit n # rest \<and> list_all (rejectedBy validateName) rejected \<and>
    validName n \<and> locationAnswers user = rejectedL @ Cancel # restL \<and>
    list_all (rejectedBy (validateLocation w)) rejectedL \<longrightarrow>
      fst (createNewPlugin gens user w) = Exit 0 \<and>
      last (trace (snd (createNewPlugin gens user w))) = CancelNote cancelledMessage \<and>
      disk (snd (createNewPlugin gens user w)) = disk w \<and>
      project (snd (createNewPlugin gens user w)) = project w) \<and>
   featureLoop gens n plugin (Cancel # restF) w3
     = (Completed, emit (SelectPrompt (''Add features to '' @ n @ ''?'')) w3) \<and>
   featureLoop gens n plugin (pre @ Cancel # restF) w3 = featureLoop gens n plugin (pre @ [Cancel]) w3 \<and>
   (collectOptions user w = Inr (options, w1) \<and> generatePlugin options w1 = (Inr plugin, w2) \<and>
    updateVendureConfig plugin w2 = (None, w3) \<and> featureAnswers user = Cancel # restF \<longrightarrow>
      createNewPlugin gens user w =
        (Completed, emit (Outro completeMessage)
           (emit (SelectPrompt (''Add features to '' @ name options @ ''?'')) w3)))"
proof (intro conjI impI)
  assume a: "nameAnswers user = rejected @ Cancel # rest \<and> list_all (rejectedBy validateName) rejected"
  have c: "collectOptions user w =
          Inl (Exit 0, emit (CancelNote cancelledMessage)
            (w\<lparr>trace := trace w @ [Intro ''Adding a new Vendure plugin!'',
                                  TextPrompt ''What is the name of the plugin?'' []]
                         @ notesOf validateName rejected\<rparr>))"
    using a by (simp add: collectOptions_unfold askName_cancel)
  show "fst (createNewPlugin gens user w) = Exit 0"
    "last (trace (snd (createNewPlugin gens user w))) = CancelNote cancelledMessage"
    "disk (snd (createNewPlugin gens user w)) = disk w"
    "project (snd (createNewPlugin gens user w)) = project w"
    by (simp_all add: createNewPlugin_stop [OF c] emit_def)
next
  assume a: "nameAnswers user = rejected @ Submit n # rest \<and> list_all (rejectedBy validateName) rejected \<and>
    validName n \<and> locationAnswers user = rejectedL @ Cancel # restL \<and>
    list_all (rejectedBy (validateLocation w)) rejectedL"
  then have c: "collectOptions user w =
           Inl (Exit 0,
             w\<lparr>trace := trace w @ [Intro ''Adding a new Vendure plugin!'',
                                   TextPrompt ''What is the name of the plugin?'' []]
                   @ notesOf validateName rejected
                   @ [TextPrompt ''Plugin location'' (getPluginDirName w n)]
                   @ notesOf (validateLocation w) rejectedL
                   @ [CancelNote cancelledMessage]\<rparr>)"
    using collectOptions_location_cancel by blast
  show "fst (createNewPlugin gens user w) = Exit 0"
    "last (trace (snd (createNewPlugin gens user w))) = CancelNote cancelledMessage"
    "disk (snd (createNewPlugin gens user w)) = disk w"
    "project (snd (createNewPlugin gens user w)) = project w"
    by (simp_all add: createNewPlugin_stop [OF c])
next
  show "featureLoop gens n plugin (Cancel # restF) w3
     = (Completed, emit (SelectPrompt (''Add features to '' @ n @ ''?'')) w3)"
    by (rule featureLoop_cancel)
  show "featureLoop gens n plugin (pre @ Cancel # restF) w3 = featureLoop gens n plugin (pre @ [Cancel]) w3"
    by (rule featureLoop_after_cancel)
next
  assume a: "collectOptions user w = Inr (options, w1) \<and> generatePlugin options w1 = (Inr plugin, w2) \<and>
    updateVendureConfig plugin w2 = (None, w3) \<and> featureAnswers user = Cancel # restF"
  then show "createNewPlugin gens user w =
        (Completed, emit (Outro completeMessage)
           (emit (SelectPrompt (''Add features to '' @ name options @ ''?'')) w3))"
    using createNewPlugin_menu [of user w options w1 plugin w2 w3 gens] by simp
qed

theorem cancellation_ends_the_command_witness:
  "fst (createNewPlugin noGenerators
          \<lparr>nameAnswers = [Cancel], locationAnswers = [], featureAnswers = []\<rparr> exampleWorld) = Exit 0 \<and>
   fst (createNewPlugin noGenerators
          \<lparr>nameAnswers = [Submit ''reviews''], locationAnswers = [Submit ''/app'', Cancel],
            featureAnswers = []\<rparr> exampleWorld) = Exit 0 \<and>
   disk (snd (createNewPlugin noGenerators
          \<lparr>nameAnswers = [Submit ''reviews''], locationAnswers = [Submit ''/app'', Cancel],
            featureAnswers = []\<rparr> exampleWorld)) = exampleDisk \<and>
   fst (createNewPlugin noGenerators cancelAtMenu exampleWorld) = Completed"
proof -
  let ?u1 = "\<lparr>nameAnswers = [Cancel], locationAnswers = [], featureAnswers = []\<rparr>"
  let ?u2 = "\<lparr>nameAnswers = [Submit ''reviews''], locationAnswers = [Submit ''/app'', Cancel],
            featureAnswers = []\<rparr>"
  have r1: "list_all (rejectedBy validateName) []" by simp
  have r2: "list_all (rejectedBy (validateLocation exampleWorld)) [Submit ''/app'']"
    by (simp add: rejectedBy_def validateLocation_def existsSync_def exampleWorld_def exampleDisk_def)
  have a: "fst (createNewPlugin noGenerators ?u1 exampleWorld) = Exit 0"
    using cancellation_ends_the_command [where user = ?u1 and rejected = "[]" and rest = "[]"
        and gens = noGenerators and w = exampleWorld, THEN conjunct1] r1
    by simp
  have b: "fst (createNewPlugin noGenerators ?u2 exampleWorld) = Exit 0 \<and>
           disk (snd (createNewPlugin noGenerators ?u2 exampleWorld)) = disk exampleWorld"
    using cancellation_ends_the_command [where user = ?u2 and rejected = "[]" and rest = "[]"
        and n = "''reviews''" and rejectedL = "[Submit ''/app'']" and restL = "[]"
        and gens = noGenerators and w = exampleWorld, THEN conjunct2, THEN conjunct1]
      r1 r2 validName_reviews
    by simp
  let ?w1 = "exampleWorld\<lparr>trace := [Intro ''Adding a new Vendure plugin!'',
                                  TextPrompt ''What is the name of the plugin?'' [],
                                  TextPrompt ''Plugin location'' ''/app/src/plugins/reviews'']\<rparr>"
  obtain w2 w3 where g: "generatePlugin reviewsOptions ?w1 = (Inr (VendurePluginRef (0, 0)), w2)"
    and u: "updateVendureConfig (VendurePluginRef (0, 0)) w2 = (None, w3)"
    using example_run [of ?w1] by (auto simp: exampleWorld_def)
  have f: "featureAnswers cancelAtMenu = Cancel # []" by (simp add: cancelAtMenu_def)
  have c: "fst (createNewPlugin noGenerators cancelAtMenu exampleWorld) = Completed"
    using cancellation_ends_the_command [where user = cancelAtMenu and w = exampleWorld
        and options = reviewsOptions and ?w1.0 = ?w1 and plugin = "VendurePluginRef (0, 0)"
        and ?w2.0 = w2 and ?w3.0 = w3 and restF = "[]" and gens = noGenerators,
        THEN conjunct2, THEN conjunct2, THEN conjunct2, THEN conjunct2]
      example_collectOptions_cancelAtMenu g u f
    by simp
  show ?thesis using a b c by (simp add: exampleWorld_def)
qed

section \<open>Facts about the plugin suffix\<close>

lemma toUpperChar_dash: "toUpperChar c = CHR ''-'' \<longleftrightarrow> c = CHR ''-''"
  unfolding char_class_defs by (auto split: if_splits)

lemma matchesCI_dash_plugin:
  "matchesCI ''-plugin'' s \<longleftrightarrow> (\<exists>r. s = CHR ''-'' # r \<and> matchesCI ''plugin'' r)"
proof
  assume m: "matchesCI ''-plugin'' s"
  then obtain c r where s: "s = c # r" using matchesCI_length [OF m] by (cases s) auto
  have "toUpperChar c = toUpperChar CHR ''-''" "matchesCI ''plugin'' r"
    using m unfolding s matchesCI_def by simp_all
  moreover have "toUpperChar CHR ''-'' = CHR ''-''" by (simp add: toUpperChar_dash)
  ultimately show "\<exists>r. s = CHR ''-'' # r \<and> matchesCI ''plugin'' r"
    using s toUpperChar_dash by auto
next
  assume "\<exists>r. s = CHR ''-'' # r \<and> matchesCI ''plugin'' r"
  then show "matchesCI ''-plugin'' s" by (auto simp: matchesCI_def)
qed

lemma stripPluginSuffix_dash_plugin:
  assumes "matchesCI ''-plugin'' sfx"
  shows "stripPluginSuffix (base @ sfx) = base"
proof (induction base)
  case Nil
  obtain r where "sfx = CHR ''-'' # r" "matchesCI ''plugin'' r"
    using assms matchesCI_dash_plugin by blast
  then show ?case by (simp add: pluginSuffixAt_def)
next
  case (Cons c base)
  have "length (c # base @ sfx) > 7" using matchesCI_length [OF assms] by simp
  then have "\<not> pluginSuffixAt (c # base @ sfx)"
    using pluginSuffixAt_length [of "c # base @ sfx"] by auto
  with Cons show ?case by simp
qed

lemma stripPluginSuffix_plugin_suffix:
  assumes "matchesCI ''plugin'' sfx"
  shows "base = [] \<or> last base \<noteq> CHR ''-'' \<Longrightarrow> stripPluginSuffix (base @ sfx) = base"
proof (induction base)
  case Nil
  obtain c r where "sfx = c # r" using matchesCI_length [OF assms] by (cases sfx) auto
  then show ?case using assms by (simp add: pluginSuffixAt_def)
next
  case (Cons c base)
  have len: "length sfx = 6" using matchesCI_length [OF assms] by simp
  have "\<not> pluginSuffixAt (c # base @ sfx)"
  proof
    assume at: "pluginSuffixAt (c # base @ sfx)"
    then have "base = []" using pluginSuffixAt_length [OF at] len by simp
    moreover have "\<not> matchesCI ''plugin'' (c # sfx)"
      using matchesCI_length [of "''plugin''" "c # sfx"] len by auto
    ultimately have "c = CHR ''-''" using at by (simp add: pluginSuffixAt_def)
    then show False using Cons.prems \<open>base = []\<close> by simp
  qed
  moreover have "base = [] \<or> last base \<noteq> CHR ''-''" using Cons.prems by (auto split: if_splits)
  ultimately show ?case using Cons.IH by simp
qed

lemma pluginSuffixAt_endsWithPlugin: "pluginSuffixAt s \<Longrightarrow> endsWithPlugin s"
proof -
  assume at: "pluginSuffixAt s"
  show ?thesis
  proof (cases "matchesCI ''plugin'' s")
    case True
    then show ?thesis using matchesCI_length [OF True] by (simp add: endsWithPlugin_def)
  next
    case False
    then obtain r where s: "s = CHR ''-'' # r" "matchesCI ''plugin'' r"
      using at by (auto simp: pluginSuffixAt_def split: list.splits)
    then show ?thesis using matchesCI_length [OF s(2)] by (simp add: endsWithPlugin_def)
  qed
qed

lemma endsWithPlugin_Cons:
  assumes "endsWithPlugin r"
  shows "endsWithPlugin (c # r)"
proof -
  have l: "6 \<le> length r" and m: "matchesCI ''plugin'' (drop (length r - 6) r)"
    using assms by (simp_all add: endsWithPlugin_def)
  have "length (c # r) - 6 = Suc (length r - 6)" using l by simp
  then have "drop (length (c # r) - 6) (c # r) = drop (length r - 6) r" by (simp only: drop_Suc_Cons)
  then show ?thesis using l m unfolding endsWithPlugin_def by simp
qed

lemma stripPluginSuffix_no_suffix: "\<not> endsWithPlugin s \<Longrightarrow> stripPluginSuffix s = s"
proof (induction s)
  case Nil
  show ?case by simp
next
  case (Cons c r)
  have "\<not> pluginSuffixAt (c # r)" using Cons.prems pluginSuffixAt_endsWithPlugin by blast
  moreover have "\<not> endsWithPlugin r" using Cons.prems endsWithPlugin_Cons by blast
  ultimately show ?case using Cons.IH by simp
qed

lemma stripPluginSuffix_split: "pluginSuffixSplit n base sfx \<Longrightarrow> stripPluginSuffix n = base"
  unfolding pluginSuffixSplit_def
  using stripPluginSuffix_dash_plugin [of sfx base] stripPluginSuffix_plugin_suffix [of sfx base]
    stripPluginSuffix_no_suffix [of n]
  by auto

lemma pluginSuffixSplit_total: "\<exists>base sfx. pluginSuffixSplit n base sfx"
proof (cases "endsWithPlugin n")
  case False
  then have "pluginSuffixSplit n n []" by (simp add: pluginSuffixSplit_def)
  then show ?thesis by blast
next
  case True
  let ?b = "take (length n - 6) n" and ?s = "drop (length n - 6) n"
  have m: "matchesCI ''plugin'' ?s" and n: "n = ?b @ ?s"
    using True by (simp_all add: endsWithPlugin_def)
  show ?thesis
  proof (cases "?b = [] \<or> last ?b \<noteq> CHR ''-''")
    case True
    then have "pluginSuffixSplit n ?b ?s" using m by (simp add: pluginSuffixSplit_def)
    then show ?thesis by blast
  next
    case False
    then have b: "?b = butlast ?b @ ''-''" by (metis append_butlast_last_id)
    have "matchesCI ''-plugin'' (CHR ''-'' # ?s)" using m matchesCI_dash_plugin by blast
    moreover have "n = butlast ?b @ CHR ''-'' # ?s" using n b by (metis append.assoc append_Cons append_Nil)
    ultimately have "pluginSuffixSplit n (butlast ?b) (CHR ''-'' # ?s)"
      unfolding pluginSuffixSplit_def by blast
    then show ?thesis by blast
  qed
qed

lemma pluginSuffixSplit_examples:
  "pluginSuffixSplit ''reviews'' ''reviews'' []"
  "pluginSuffixSplit ''reviews-plugin'' ''reviews'' ''-plugin''"
  "pluginSuffixSplit ''reviewsplugin'' ''reviews'' ''plugin''"
  by (simp_all add: pluginSuffixSplit_def endsWithPlugin_def matchesCI_def char_class_defs)

lemma validName_examples: "validName ''reviews-plugin''" "validName ''reviewsplugin''"
  by (simp_all add: validName_def char_class_defs)

lemma paramCase_reviews_base: "paramCase ''reviews'' = ''reviews''"
  by code_simp

section \<open>Directory placement\<close>

text \<open>
  Claim C3. The default plugin directory follows this precedence, for every working
  directory and every valid name: the kebab-case name without the plugin suffix is put
  directly under the working directory when the last segment of the working directory
  is \<^verbatim>\<open>plugins\<close>; otherwise under \<^verbatim>\<open>src/plugins\<close> of the working directory when a
  \<^verbatim>\<open>package.json\<close> exists there; otherwise directly under the working directory. The
  name without the plugin suffix is the base of the name: every name is a base
  followed by its plugin suffix, and for each such split the directory is computed
  from the base. For a working directory that is an absolute path of clean segments
  the joined paths are the plain concatenations, and the kebab-case form of
  \<^verbatim>\<open>reviews\<close> is \<^verbatim>\<open>reviews\<close>.
\<close>

theorem getPluginDirName_placement:
  assumes "validName name'"
  shows
    "(\<exists>base sfx. pluginSuffixSplit name' base sfx) \<and>
     (\<forall>base sfx. pluginSuffixSplit name' base sfx \<longrightarrow>
        getPluginDirName w name' =
          (if last (splitOn CHR ''/'' (cwd w)) = ''plugins''
           then path_join [cwd w, paramCase base]
           else if existsSync w (path_join [cwd w, ''package.json''])
           then path_join [cwd w, ''src'', ''plugins'', paramCase base]
           else path_join [cwd w, paramCase base]) \<and>
        (cwd w = absolutePath segs \<and> segs \<noteq> [] \<and> list_all cleanSegment segs \<longrightarrow>
           last (splitOn CHR ''/'' (cwd w)) = last segs \<and>
           path_join [cwd w, ''package.json''] = cwd w @ ''/package.json'' \<and>
           (name' \<noteq> ''plugin'' \<longrightarrow>
              path_join [cwd w, paramCase base] = cwd w @ ''/'' @ paramCase base \<and>
              path_join [cwd w, ''src'', ''plugins'', paramCase base]
                = cwd w @ ''/src/plugins/'' @ paramCase base))) \<and>
     paramCase ''reviews'' = ''reviews''"
proof (intro conjI allI impI)
  show "\<exists>base sfx. pluginSuffixSplit name' base sfx" by (rule pluginSuffixSplit_total)
next
  fix base sfx
  assume "pluginSuffixSplit name' base sfx"
  then have "stripPluginSuffix name' = base" by (rule stripPluginSuffix_split)
  then show "getPluginDirName w name' =
          (if last (splitOn CHR ''/'' (cwd w)) = ''plugins''
           then path_join [cwd w, paramCase base]
           else if existsSync w (path_join [cwd w, ''package.json''])
           then path_join [cwd w, ''src'', ''plugins'', paramCase base]
           else path_join [cwd w, paramCase base])"
    by (simp add: getPluginDirName_def Let_def)
next
  fix base sfx
  assume "cwd w = absolutePath segs \<and> segs \<noteq> [] \<and> list_all cleanSegment segs"
  then show "last (splitOn CHR ''/'' (cwd w)) = last segs"
    by (simp add: splitOn_absolutePath)
next
  fix base sfx
  assume c: "cwd w = absolutePath segs \<and> segs \<noteq> [] \<and> list_all cleanSegment segs"
  then show "path_join [cwd w, ''package.json''] = cwd w @ ''/package.json''"
    using path_join_absolutePath [of segs "[''package.json'']"]
    by (simp add: cleanSegment_literals absolutePath_simps)
next
  fix base sfx
  assume s: "pluginSuffixSplit name' base sfx"
    and c: "cwd w = absolutePath segs \<and> segs \<noteq> [] \<and> list_all cleanSegment segs"
    and n: "name' \<noteq> ''plugin''"
  have b: "stripPluginSuffix name' = base" using s by (rule stripPluginSuffix_split)
  let ?k = "paramCase base"
  have k: "?k \<noteq> []" "cleanSegment ?k"
    using paramCase_valid_not_Nil [OF assms n] cleanSegment_paramCase unfolding b by auto
  show "path_join [cwd w, ?k] = cwd w @ ''/'' @ ?k"
    using c k path_join_absolutePath [of segs "[?k]"] by (simp add: absolutePath_simps)
  show "path_join [cwd w, ''src'', ''plugins'', ?k] = cwd w @ ''/src/plugins/'' @ ?k"
    using c k path_join_absolutePath [of segs "[''src'', ''plugins'', ?k]"]
    by (simp add: absolutePath_simps cleanSegment_literals)
next
  show "paramCase ''reviews'' = ''reviews''"
    by (rule paramCase_reviews_base)
qed

theorem getPluginDirName_placement_witness:
  "validName ''reviews'' \<and> validName ''reviews-plugin'' \<and> validName ''reviewsplugin'' \<and>
   getPluginDirName (exampleWorld\<lparr>cwd := ''/app/plugins''\<rparr>) ''reviews'' = ''/app/plugins/reviews'' \<and>
   getPluginDirName exampleWorld ''reviews'' = ''/app/src/plugins/reviews'' \<and>
   getPluginDirName (exampleWorld\<lparr>cwd := ''/tmp''\<rparr>) ''reviews'' = ''/tmp/reviews'' \<and>
   getPluginDirName (exampleWorld\<lparr>cwd := ''/app/plugins''\<rparr>) ''reviews-plugin'' = ''/app/plugins/reviews'' \<and>
   getPluginDirName exampleWorld ''reviews-plugin'' = ''/app/src/plugins/reviews'' \<and>
   getPluginDirName (exampleWorld\<lparr>cwd := ''/tmp''\<rparr>) ''reviews-plugin'' = ''/tmp/reviews'' \<and>
   getPluginDirName exampleWorld ''reviewsplugin'' = ''/app/src/plugins/reviews''"
proof -
  note v = validName_reviews validName_examples
  note s = pluginSuffixSplit_examples
  have ne: "''reviews'' \<noteq> ''plugin''" "''reviews-plugin'' \<noteq> ''plugin''" "''reviewsplugin'' \<noteq> ''plugin''"
    by simp_all
  have c1: "cwd (exampleWorld\<lparr>cwd := ''/app/plugins''\<rparr>) = absolutePath [''app'', ''plugins'']"
    and c2: "cwd exampleWorld = absolutePath [''app'']"
    and c3: "cwd (exampleWorld\<lparr>cwd := ''/tmp''\<rparr>) = absolutePath [''tmp'']"
    by (simp_all add: exampleWorld_def absolutePath_simps)
  have e2: "existsSync exampleWorld ''/app/package.json''"
    by (simp add: existsSync_def exampleWorld_def exampleDisk_def)
  have e3: "\<not> existsSync (exampleWorld\<lparr>cwd := ''/tmp''\<rparr>) ''/tmp/package.json''"
    by (simp add: existsSync_def exampleWorld_def exampleDisk_def)
  note t1 = getPluginDirName_placement [of _ "exampleWorld\<lparr>cwd := ''/app/plugins''\<rparr>" "[''app'', ''plugins'']",
      THEN conjunct2, THEN conjunct1, rule_format]
    and t2 = getPluginDirName_placement [of _ exampleWorld "[''app'']",
      THEN conjunct2, THEN conjunct1, rule_format]
    and t3 = getPluginDirName_placement [of _ "exampleWorld\<lparr>cwd := ''/tmp''\<rparr>" "[''tmp'']",
      THEN conjunct2, THEN conjunct1, rule_format]
  have a1: "getPluginDirName (exampleWorld\<lparr>cwd := ''/app/plugins''\<rparr>) ''reviews'' = ''/app/plugins/reviews''"
    using t1 [OF v(1) s(1)] c1 ne
    by (simp add: cleanSegment_literals absolutePath_simps paramCase_reviews_base)
  have a2: "getPluginDirName exampleWorld ''reviews'' = ''/app/src/plugins/reviews''"
    using t2 [OF v(1) s(1)] c2 ne e2
    by (simp add: cleanSegment_literals absolutePath_simps paramCase_reviews_base)
  have a3: "getPluginDirName (exampleWorld\<lparr>cwd := ''/tmp''\<rparr>) ''reviews'' = ''/tmp/reviews''"
    using t3 [OF v(1) s(1)] c3 ne e3
    by (simp add: cleanSegment_literals absolutePath_simps paramCase_reviews_base)
  have b1: "getPluginDirName (exampleWorld\<lparr>cwd := ''/app/plugins''\<rparr>) ''reviews-plugin'' = ''/app/plugins/reviews''"
    using t1 [OF v(2) s(2)] c1 ne
    by (simp add: cleanSegment_literals absolutePath_simps paramCase_reviews_base)
  have b2: "getPluginDirName exampleWorld ''reviews-plugin'' = ''/app/src/plugins/reviews''"
    using t2 [OF v(2) s(2)] c2 ne e2
    by (simp add: cleanSegment_literals absolutePath_simps paramCase_reviews_base)
  have b3: "getPluginDirName (exampleWorld\<lparr>cwd := ''/tmp''\<rparr>) ''reviews-plugin'' = ''/tmp/reviews''"
    using t3 [OF v(2) s(2)] c3 ne e3
    by (simp add: cleanSegment_literals absolutePath_simps paramCase_reviews_base)
  have d2: "getPluginDirName exampleWorld ''reviewsplugin'' = ''/app/src/plugins/reviews''"
    using t2 [OF v(3) s(3)] c2 ne e2
    by (simp add: cleanSegment_literals absolutePath_simps paramCase_reviews_base)
  show ?thesis using v a1 a2 a3 b1 b2 b3 d2 by simp
qed

end
